(* ===== verification/Prelude.thy ===== *)
theory Prelude
  imports
    Main
    "HOL-Library.AList"
    "HOL-Library.Char_ord"
    "HOL-Library.List_Lexorder"
    "HOL-Library.Product_Lexorder"
begin

text \<open>
  Shared vocabulary of the development: the Python values that every component of
  OpenPine handles (strings, dictionaries, optional values, exceptions) and the generic
  lemmas the component theories rest on.

  \<^item> A Python \<open>dict\<close> is an association list in insertion order; \<open>d[k] = v\<close> is
    \<open>AList.update k v d\<close> (an existing key keeps its place, a new key goes to the end),
    \<open>d.get(k)\<close> is \<open>map_of d k\<close> and \<open>del d[k]\<close> is \<open>AList.delete k d\<close>.
  \<^item> A computation that may raise returns \<open>'e + 'a\<close>, with \<open>Inl\<close> for the exception.
  \<^item> Clock readings and generated identifiers (\<open>time.time()\<close>, \<open>uuid.uuid4()\<close>) are
    arguments of the definitions that read them.
  \<^item> Strings are lists of characters; \<open>lower\<close>/\<open>upper\<close> are the ASCII case maps, which is
    what the identifiers of the program (exchange, market and symbol names) use.
\<close>

named_theorems inv_intros \<open>each operation keeps the invariant of its component\<close>
named_theorems frame_simps \<open>what an operation leaves unchanged\<close>

type_synonym ms = int
type_synonym 'v dict = "(string \<times> 'v) list"

subsection \<open>Exceptions as values\<close>

definition res_bind :: "'e + 'a \<Rightarrow> ('a \<Rightarrow> 'e + 'b) \<Rightarrow> 'e + 'b" where
  "res_bind m f = (case m of Inl e \<Rightarrow> Inl e | Inr x \<Rightarrow> f x)"

lemma res_bind_simps [simp]:
  "res_bind (Inl e) f = Inl e"
  "res_bind (Inr x) f = f x"
  by (simp_all add: res_bind_def)

lemma res_bind_Inr_iff:
  "res_bind m f = Inr y \<longleftrightarrow> (\<exists>x. m = Inr x \<and> f x = Inr y)"
  by (cases m) auto

fun is_ok :: "'e + 'a \<Rightarrow> bool" where
  "is_ok (Inl _) = False"
| "is_ok (Inr _) = True"

lemma is_ok_iff: "is_ok r \<longleftrightarrow> (\<exists>x. r = Inr x)"
  by (cases r) auto

text \<open>A loop that ends with the first exception.\<close>

fun res_map :: "('a \<Rightarrow> 'e + 'b) \<Rightarrow> 'a list \<Rightarrow> 'e + 'b list" where
  "res_map f [] = Inr []"
| "res_map f (x # xs) = res_bind (f x) (\<lambda>y. res_bind (res_map f xs) (\<lambda>ys. Inr (y # ys)))"

lemma res_map_cong [fundef_cong]:
  "xs = ys \<Longrightarrow> (\<And>x. x \<in> set ys \<Longrightarrow> f x = g x) \<Longrightarrow> res_map f xs = res_map g ys"
  by (induction ys arbitrary: xs) auto

lemma res_map_Inr: "res_map f xs = Inr ys \<Longrightarrow> list_all2 (\<lambda>x y. f x = Inr y) xs ys"
  by (induction xs arbitrary: ys) (auto simp: res_bind_Inr_iff)

lemma res_map_all:
  assumes "res_map f xs = Inr ys" and "\<And>x y. x \<in> set xs \<Longrightarrow> f x = Inr y \<Longrightarrow> P y"
  shows "list_all P ys"
  using res_map_Inr [OF assms(1)] assms(2) by (fastforce simp: list_all_iff list_all2_conv_all_nth in_set_conv_nth)

lemma res_map_inverse:
  assumes "\<And>x. x \<in> set xs \<Longrightarrow> \<exists>y. f x = Inr y \<and> g y = Inr x"
  shows "\<exists>ys. res_map f xs = Inr ys \<and> res_map g ys = Inr xs"
  using assms
proof (induction xs)
  case (Cons x xs)
  from Cons.IH Cons.prems obtain ys where "res_map f xs = Inr ys" "res_map g ys = Inr xs" by auto
  moreover from Cons.prems obtain y where "f x = Inr y" "g y = Inr x" by auto
  ultimately show ?case by (intro exI [of _ "y # ys"]) simp
qed simp

text \<open>Truth value of an optional string: \<open>None\<close> and the empty string are false.\<close>

fun truthy :: "string option \<Rightarrow> bool" where
  "truthy None = False"
| "truthy (Some s) = (s \<noteq> [])"

text \<open>\<open>x or d\<close> on an optional string.\<close>

definition str_or :: "string option \<Rightarrow> string \<Rightarrow> string" where
  "str_or x d = (if truthy x then the x else d)"

subsection \<open>Case mapping\<close>

definition char_lower :: "char \<Rightarrow> char" where
  "char_lower c = (let n = (of_char c :: nat) in
     if 65 \<le> n \<and> n \<le> 90 then char_of (n + 32) else c)"

definition char_upper :: "char \<Rightarrow> char" where
  "char_upper c = (let n = (of_char c :: nat) in
     if 97 \<le> n \<and> n \<le> 122 then char_of (n - 32) else c)"

definition lower :: "string \<Rightarrow> string" where
  "lower s = map char_lower s"

definition upper :: "string \<Rightarrow> string" where
  "upper s = map char_upper s"

lemma char_lower_idem [simp]: "char_lower (char_lower c) = char_lower c"
  by (simp add: char_lower_def Let_def)

lemma char_upper_idem [simp]: "char_upper (char_upper c) = char_upper c"
proof (cases "97 \<le> (of_char c :: nat) \<and> (of_char c :: nat) \<le> 122")
  case True
  then have "((of_char c :: nat) - 32) mod 256 = of_char c - 32"
    by (intro mod_less) linarith
  then have "(of_char (char_of ((of_char c :: nat) - 32) :: char) :: nat) = of_char c - 32"
    by simp
  with True show ?thesis by (auto simp: char_upper_def Let_def)
next
  case False
  then have "char_upper c = c" by (auto simp: char_upper_def Let_def)
  then show ?thesis by simp
qed

lemma lower_idem [simp]: "lower (lower s) = lower s"
  by (simp add: lower_def)

lemma upper_idem [simp]: "upper (upper s) = upper s"
  by (simp add: upper_def)

subsection \<open>Decimal rendering of integers\<close>

definition digit_char :: "nat \<Rightarrow> char" where
  "digit_char d = char_of (48 + d)"

fun show_nat :: "nat \<Rightarrow> string" where
  "show_nat n = (if n < 10 then [digit_char n]
     else show_nat (n div 10) @ [digit_char (n mod 10)])"

declare show_nat.simps [simp del]

definition show_int :: "int \<Rightarrow> string" where
  "show_int i = (if i < 0 then CHR ''-'' # show_nat (nat (- i)) else show_nat (nat i))"

definition read_nat :: "string \<Rightarrow> nat" where
  "read_nat s = foldl (\<lambda>a c. 10 * a + (of_char c - 48)) 0 s"

lemma of_digit_char: "d < 10 \<Longrightarrow> (of_char (digit_char d) :: nat) = 48 + d"
  by (simp add: digit_char_def)

lemma read_show_nat [simp]: "read_nat (show_nat n) = n"
proof (induction n rule: show_nat.induct)
  case (1 n)
  show ?case
  proof (cases "n < 10")
    case True
    then show ?thesis
      by (simp add: show_nat.simps [of n] read_nat_def of_digit_char)
  next
    case False
    with 1 have "read_nat (show_nat (n div 10)) = n div 10" by simp
    with False show ?thesis
      by (simp add: show_nat.simps [of n] read_nat_def of_digit_char)
  qed
qed

lemma show_nat_inject: "show_nat m = show_nat n \<longleftrightarrow> m = n"
  by (metis read_show_nat)

lemma set_show_nat: "set (show_nat n) \<subseteq> digit_char ` {..<10}"
proof (induction n rule: show_nat.induct)
  case (1 n)
  then show ?case
    by (subst show_nat.simps) auto
qed

lemma digit_char_bounds:
  "c \<in> digit_char ` {..<10} \<Longrightarrow> 48 \<le> (of_char c :: nat) \<and> (of_char c :: nat) \<le> 57"
  by (auto simp: of_digit_char)

lemma colon_notin_show_nat: "CHR '':'' \<notin> set (show_nat n)"
  and minus_notin_show_nat: "CHR ''-'' \<notin> set (show_nat n)"
  using set_show_nat [of n] digit_char_bounds by fastforce+

lemma colon_notin_show_int [simp]: "CHR '':'' \<notin> set (show_int i)"
  by (simp add: show_int_def colon_notin_show_nat)

lemma show_int_inject: "show_int i = show_int j \<longleftrightarrow> i = j"
proof -
  have neg: "CHR ''-'' # s \<noteq> show_nat n" for s n
    using minus_notin_show_nat [of n] by (metis list.set_intros(1))
  have "show_nat (nat a) = show_nat (nat b) \<longleftrightarrow> nat a = nat b" for a b
    by (rule show_nat_inject)
  then show ?thesis
    by (auto simp: show_int_def neg neg [symmetric] split: if_splits)
qed

text \<open>Joining two parts with a separator that the second part does not contain is
  injective: the last separator marks the boundary.\<close>

lemma append_sep_inject:
  assumes "a @ c # b = a' @ c # b'" and "c \<notin> set b" and "c \<notin> set b'"
  shows "a = a' \<and> b = b'"
proof -
  have "rev b @ c # rev a = rev b' @ c # rev a'"
    using assms(1) by (metis append.assoc append_Cons append_Nil rev.simps(2) rev_append)
  moreover have "takeWhile (\<lambda>x. x \<noteq> c) (rev b @ c # rev a) = rev b"
    and "takeWhile (\<lambda>x. x \<noteq> c) (rev b' @ c # rev a') = rev b'"
    by (subst takeWhile_append2; use assms(2,3) in auto)+
  ultimately have "b = b'" by (metis rev_is_rev_conv)
  with assms(1) show ?thesis by simp
qed

subsection \<open>Dictionaries\<close>

lemma distinct_keys_update [simp]:
  "distinct (map fst d) \<Longrightarrow> distinct (map fst (AList.update k v d))"
  by (rule distinct_update)

lemma distinct_keys_delete [simp]:
  "distinct (map fst d) \<Longrightarrow> distinct (map fst (AList.delete k d))"
  by (rule distinct_delete)

lemma map_of_update [simp]: "map_of (AList.update k v d) = (map_of d)(k \<mapsto> v)"
  by (rule update_conv')

lemma map_of_delete [simp]: "map_of (AList.delete k d) = (map_of d)(k := None)"
  by (rule delete_conv')

lemma set_update_distinct:
  "distinct (map fst d) \<Longrightarrow> set (AList.update k v d) = {p \<in> set d. fst p \<noteq> k} \<union> {(k, v)}"
  by (induction d) (auto simp: image_iff)

lemma find_unique:
  "distinct (map f xs) \<Longrightarrow> find (\<lambda>x. f x = k) xs = Some x \<longleftrightarrow> x \<in> set xs \<and> f x = k"
  by (induction xs) (auto simp: image_iff)

subsection \<open>Maximum with a key\<close>

text \<open>\<open>max(xs, key=f)\<close> of Python returns the first element with the largest key.\<close>

fun max_by :: "('a \<Rightarrow> 'k::linorder) \<Rightarrow> 'a \<Rightarrow> 'a list \<Rightarrow> 'a" where
  "max_by f b [] = b"
| "max_by f b (x # xs) = max_by f (if f b < f x then x else b) xs"

definition max_key :: "('a \<Rightarrow> 'k::linorder) \<Rightarrow> 'a list \<Rightarrow> 'a option" where
  "max_key f xs = (case xs of [] \<Rightarrow> None | x # xs' \<Rightarrow> Some (max_by f x xs'))"

lemma max_by_in: "max_by f b xs \<in> insert b (set xs)"
  by (induction xs arbitrary: b) (auto split: if_splits)

lemma max_by_upper: "y \<in> insert b (set xs) \<Longrightarrow> f y \<le> f (max_by f b xs)"
proof (induction xs arbitrary: b y)
  case (Cons x xs)
  define b' where "b' = (if f b < f x then x else b)"
  have le: "f z \<le> f (max_by f b' xs)" if "z \<in> insert b' (set xs)" for z
    using that by (rule Cons.IH)
  have "f b \<le> f b'" "f x \<le> f b'" by (auto simp: b'_def)
  with le [of b'] have "f b \<le> f (max_by f b' xs)" "f x \<le> f (max_by f b' xs)" by auto
  with Cons.prems le show ?case by (auto simp flip: b'_def)
qed simp

lemma max_key_Some:
  assumes "max_key f xs = Some m"
  shows "m \<in> set xs" and "y \<in> set xs \<Longrightarrow> f y \<le> f m"
  using assms max_by_in [of f "hd xs" "tl xs"] max_by_upper [of y "hd xs" "tl xs" f]
  by (cases xs; simp add: max_key_def)+

lemma max_key_None [simp]: "max_key f xs = None \<longleftrightarrow> xs = []"
  by (simp add: max_key_def split: list.splits)

subsection \<open>State machines\<close>

text \<open>
  A component whose public methods run one at a time (each holds the component's lock) is a
  step function over its operations, and an execution is a sequence of operations. The
  locale states what every component proves of its methods; its lemmas lift that to runs.
\<close>

locale invariant_machine =
  fixes step :: "'op \<Rightarrow> 's \<Rightarrow> 's"
    and inv :: "'s \<Rightarrow> bool"
  assumes step_inv: "inv s \<Longrightarrow> inv (step op s)"
begin

lemma run_inv: "inv s \<Longrightarrow> inv (fold step ops s)"
  by (induction ops arbitrary: s) (simp_all add: step_inv)

lemma run_stable:
  assumes "inv s" and "P s"
    and "\<And>s op. inv s \<Longrightarrow> P s \<Longrightarrow> op \<in> set ops \<Longrightarrow> P (step op s)"
  shows "P (fold step ops s)"
  using assms
proof (induction ops arbitrary: s)
  case (Cons op ops)
  from Cons.prems(1) have i: "inv (step op s)" by (rule step_inv)
  from Cons.prems have p: "P (step op s)" by simp
  have "P (fold step ops (step op s))"
    by (rule Cons.IH [OF i p]) (use Cons.prems(3) in simp)
  then show ?case by simp
qed simp

end

text \<open>A machine that implements an abstract one: every concrete step, seen through the
  abstraction, is the abstract step.\<close>

locale refinement_machine = invariant_machine step inv
  for step :: "'op \<Rightarrow> 's \<Rightarrow> 's" and inv :: "'s \<Rightarrow> bool" +
  fixes abstr :: "'s \<Rightarrow> 'a"
    and astep :: "'op \<Rightarrow> 'a \<Rightarrow> 'a"
  assumes step_abs: "inv s \<Longrightarrow> abstr (step op s) = astep op (abstr s)"
begin

lemma run_abs: "inv s \<Longrightarrow> abstr (fold step ops s) = fold astep ops (abstr s)"
  by (induction ops arbitrary: s) (simp_all add: step_abs step_inv)

end

end
