(* ===== verification/PyFloat.thy ===== *)
theory PyFloat
  imports Complex_Main Prelude "HOL-Library.Log_Nat"
begin

text \<open>
  Python's \<open>float\<close>: an IEEE 754 binary64 value. A finite float is the rational number it
  denotes; the two infinities and NaN are values of their own (the sign of zero, which only
  printing can show, is not kept). Every arithmetic operation computes the exact result and
  rounds it to binary64, to nearest with ties to even, so overflow gives an infinity and
  underflow zero; every comparison with NaN is false, as in Python.
\<close>

datatype pyfloat = Fin rat | PInf | NInf | NaN

subsection \<open>Rounding to binary64\<close>

definition exp2 :: "int \<Rightarrow> rat" where
  "exp2 e = (if 0 \<le> e then 2 ^ nat e else 1 / 2 ^ nat (- e))"

text \<open>The exponent \<open>e\<close> with \<open>2 ^ e \<le> q < 2 ^ (e + 1)\<close>, for a positive rational \<open>q\<close>.\<close>

definition binade :: "rat \<Rightarrow> int" where
  "binade q = (let (n, d) = quotient_of q; e = bitlen n - bitlen d
     in if exp2 e \<le> q then e else e - 1)"

definition round_half_even :: "rat \<Rightarrow> int" where
  "round_half_even q = (let f = \<lfloor>q\<rfloor>; r = q - of_int f
     in if r < 1 / 2 then f else if r > 1 / 2 then f + 1 else if even f then f else f + 1)"

definition ulp :: "rat \<Rightarrow> rat" where
  "ulp q = exp2 (max (binade \<bar>q\<bar> - 52) (- 1074))"

definition rnd :: "rat \<Rightarrow> pyfloat" where
  "rnd q = (if q = 0 then Fin 0 else
     let v = of_int (round_half_even (q / ulp q)) * ulp q
     in if 2 ^ 1024 \<le> v then PInf else if v \<le> - (2 ^ 1024) then NInf else Fin v)"

lemma exp2_pos [simp]: "0 < exp2 e"
  by (simp add: exp2_def)

lemma ulp_pos [simp]: "0 < ulp q"
  by (simp add: ulp_def)

lemma round_half_even_mono: "p \<le> q \<Longrightarrow> round_half_even p \<le> round_half_even q"
proof -
  assume le: "p \<le> q"
  then have fl: "\<lfloor>p\<rfloor> \<le> \<lfloor>q\<rfloor>" by (rule floor_mono)
  show ?thesis
  proof (cases "\<lfloor>p\<rfloor> = \<lfloor>q\<rfloor>")
    case True
    with le show ?thesis by (auto simp: round_half_even_def Let_def)
  next
    case False
    with fl have "\<lfloor>p\<rfloor> + 1 \<le> \<lfloor>q\<rfloor>" by simp
    then show ?thesis by (auto simp: round_half_even_def Let_def)
  qed
qed

lemma round_half_even_of_int [simp]: "round_half_even (of_int n) = n"
  by (simp add: round_half_even_def)

lemma round_half_even_nonneg: "0 \<le> q \<Longrightarrow> 0 \<le> round_half_even q"
  using round_half_even_mono [of 0 q] round_half_even_of_int [of 0] by simp

subsection \<open>Arithmetic\<close>

fun fneg :: "pyfloat \<Rightarrow> pyfloat" where
  "fneg (Fin a) = Fin (- a)"
| "fneg PInf = NInf"
| "fneg NInf = PInf"
| "fneg NaN = NaN"

fun fabs :: "pyfloat \<Rightarrow> pyfloat" where
  "fabs (Fin a) = Fin \<bar>a\<bar>"
| "fabs PInf = PInf"
| "fabs NInf = PInf"
| "fabs NaN = NaN"

fun fadd :: "pyfloat \<Rightarrow> pyfloat \<Rightarrow> pyfloat" where
  "fadd (Fin a) (Fin b) = rnd (a + b)"
| "fadd NaN _ = NaN"
| "fadd _ NaN = NaN"
| "fadd PInf NInf = NaN"
| "fadd NInf PInf = NaN"
| "fadd PInf _ = PInf"
| "fadd _ PInf = PInf"
| "fadd NInf _ = NInf"
| "fadd _ NInf = NInf"

fun inf_times :: "pyfloat \<Rightarrow> bool \<Rightarrow> pyfloat" where
  "inf_times (Fin a) pos = (if a = 0 then NaN else if (0 < a) = pos then PInf else NInf)"
| "inf_times PInf pos = (if pos then PInf else NInf)"
| "inf_times NInf pos = (if pos then NInf else PInf)"
| "inf_times NaN pos = NaN"

fun fmul :: "pyfloat \<Rightarrow> pyfloat \<Rightarrow> pyfloat" where
  "fmul (Fin a) (Fin b) = rnd (a * b)"
| "fmul PInf x = inf_times x True"
| "fmul NInf x = inf_times x False"
| "fmul NaN x = NaN"
| "fmul (Fin a) PInf = inf_times (Fin a) True"
| "fmul (Fin a) NInf = inf_times (Fin a) False"
| "fmul (Fin a) NaN = NaN"

text \<open>\<open>float(n)\<close> of an integer (which the program only takes of values that fit).\<close>

definition float_of_int :: "int \<Rightarrow> pyfloat" where
  "float_of_int n = rnd (of_int n)"

subsection \<open>Comparisons\<close>

fun flt :: "pyfloat \<Rightarrow> pyfloat \<Rightarrow> bool" where
  "flt (Fin a) (Fin b) = (a < b)"
| "flt (Fin a) PInf = True"
| "flt NInf (Fin b) = True"
| "flt NInf PInf = True"
| "flt _ _ = False"

fun feq :: "pyfloat \<Rightarrow> pyfloat \<Rightarrow> bool" where
  "feq NaN _ = False"
| "feq _ NaN = False"
| "feq a b = (a = b)"

definition fle :: "pyfloat \<Rightarrow> pyfloat \<Rightarrow> bool" where
  "fle a b = (flt a b \<or> feq a b)"

abbreviation fgt :: "pyfloat \<Rightarrow> pyfloat \<Rightarrow> bool" where
  "fgt a b \<equiv> flt b a"

lemma flt_NaN [simp]: "\<not> flt NaN x" "\<not> flt x NaN"
  by (cases x; simp)+

lemma fle_NaN [simp]: "\<not> fle NaN x" "\<not> fle x NaN"
  by (cases x; simp add: fle_def)+

lemma flt_irrefl [simp]: "\<not> flt x x"
  by (cases x) auto

lemma flt_trans: "flt x y \<Longrightarrow> flt y z \<Longrightarrow> flt x z"
  by (cases x; cases y; cases z; simp)

lemma fle_trans: "fle x y \<Longrightarrow> fle y z \<Longrightarrow> fle x z"
  by (cases x; cases y; cases z; simp add: fle_def; auto)

lemma fle_refl: "x \<noteq> NaN \<Longrightarrow> fle x x"
  by (cases x) (auto simp: fle_def)

lemma fle_linear: "x \<noteq> NaN \<Longrightarrow> y \<noteq> NaN \<Longrightarrow> fle x y \<or> fle y x"
  by (cases x; cases y; auto simp: fle_def)

lemma not_flt_fle: "x \<noteq> NaN \<Longrightarrow> y \<noteq> NaN \<Longrightarrow> \<not> flt x y \<longleftrightarrow> fle y x"
  by (cases x; cases y; auto simp: fle_def)

text \<open>Python's two-argument \<open>min(a, b)\<close> and \<open>max(a, b)\<close> return the first argument unless
  the second is strictly smaller, respectively larger.\<close>

definition fmin :: "pyfloat \<Rightarrow> pyfloat \<Rightarrow> pyfloat" where
  "fmin a b = (if flt b a then b else a)"

definition fmax :: "pyfloat \<Rightarrow> pyfloat \<Rightarrow> pyfloat" where
  "fmax a b = (if flt a b then b else a)"

text \<open>The truth value of a float: false for zero only.\<close>

definition float_true :: "pyfloat \<Rightarrow> bool" where
  "float_true x = (x \<noteq> Fin 0)"

subsection \<open>Floats in SQLite columns\<close>

text \<open>\<open>sqlite3_bind_double\<close> stores NaN as \<open>NULL\<close>; every other float is stored as it is.\<close>

fun sql_real :: "pyfloat \<Rightarrow> pyfloat option" where
  "sql_real NaN = None"
| "sql_real x = Some x"

definition sql_real_opt :: "pyfloat option \<Rightarrow> pyfloat option" where
  "sql_real_opt x = Option.bind x sql_real"

lemma sql_real_eq: "sql_real x = (if x = NaN then None else Some x)"
  by (cases x) auto

lemma sql_real_opt_id: "x \<noteq> Some NaN \<Longrightarrow> sql_real_opt x = x"
  by (cases x) (auto simp: sql_real_opt_def sql_real_eq)

text \<open>Integers of at most 53 bits, and every other float, are not changed by rounding.\<close>

lemma rnd_exact:
  assumes "q = of_int m * ulp q" and "\<bar>q\<bar> < 2 ^ 1024"
  shows "rnd q = Fin q"
proof -
  have u: "ulp q \<noteq> 0" using ulp_pos [of q] by linarith
  then have "q / ulp q = of_int m" by (subst (1) assms(1)) simp
  then have "of_int (round_half_even (q / ulp q)) * ulp q = q" using assms(1) by simp
  moreover have "\<not> 2 ^ 1024 \<le> q" "\<not> q \<le> - (2 ^ 1024)" using assms(2) by linarith+
  ultimately show ?thesis unfolding rnd_def by (simp only: Let_def if_False split: if_split) simp
qed

lemma binade_int: "0 < n \<Longrightarrow> n < 2 ^ 53 \<Longrightarrow> binade (of_int n) \<le> 52"
  using bitlen_le_iff_power [of n 53] bitlen_le_iff_power [of 1 0]
  by (simp add: binade_def Let_def)

lemma rnd_of_int:
  assumes "\<bar>n\<bar> < 2 ^ 53"
  shows "rnd (of_int n) = Fin (of_int n)"
proof (cases "n = 0")
  case False
  let ?k = "nat (- max (binade \<bar>of_int n\<bar> - 52) (- 1074))"
  from binade_int [of "\<bar>n\<bar>"] assms False have "max (binade \<bar>of_int n\<bar> - 52) (- 1074) \<le> 0"
    by simp
  then have u: "ulp (of_int n) = 1 / 2 ^ ?k" by (auto simp: ulp_def exp2_def)
  show ?thesis
  proof (rule rnd_exact)
    show "of_int n = (of_int (n * 2 ^ ?k) * ulp (of_int n) :: rat)" by (simp add: u)
    have "\<bar>of_int n\<bar> < (2 ^ 53 :: rat)" using assms
      by (metis of_int_abs of_int_less_iff of_int_numeral of_int_power)
    also have "\<dots> \<le> 2 ^ 1024" by (rule power_increasing) simp_all
    finally show "\<bar>of_int n\<bar> < (2 ^ 1024 :: rat)" .
  qed
qed (simp add: rnd_def)

lemma rnd_0 [simp]: "rnd 0 = Fin 0"
  by (simp add: rnd_def)

lemma rnd_1 [simp]: "rnd 1 = Fin 1"
  using rnd_of_int [of 1] by simp

lemma rnd_numeral [simp]: "(numeral w :: int) < 2 ^ 53 \<Longrightarrow> rnd (numeral w) = Fin (numeral w)"
  using rnd_of_int [of "numeral w"] by simp

subsection \<open>JSON values\<close>

text \<open>The values \<open>json.dumps\<close> writes; an object keeps the order of its keys. A text column that
  holds JSON is modelled by the value it encodes.\<close>

datatype json =
    JNull
  | JBool bool
  | JInt int
  | JFloat pyfloat
  | JStr string
  | JList "json list"
  | JObj "(string \<times> json) list"

definition json_float_opt :: "pyfloat option \<Rightarrow> json" where
  "json_float_opt x = (case x of None \<Rightarrow> JNull | Some v \<Rightarrow> JFloat v)"

end
