(* ===== verification/Orders.thy ===== *)
theory Orders
  imports PyFloat
begin

text \<open>
  Order models and \<open>OrderManager\<close> (\<^verbatim>\<open>openpine/orders/models.py\<close>,
  \<^verbatim>\<open>openpine/orders/manager.py\<close>). The SQLite table \<open>orders\<close> is the list of its rows in
  insertion order, with the constraints of \<^verbatim>\<open>storage/migrations/002_orders_schema.sql\<close>:
  \<open>order_id\<close> is the primary key, \<open>client_order_id\<close> is unique, \<open>qty\<close> and
  \<open>filled_quantity\<close> are not null. Enum columns hold the enum's text; reading a row parses
  it back and raises \<open>ValueError\<close> on an unknown text.
\<close>

subsection \<open>Models\<close>

datatype order_side = BUY | SELL
datatype order_type = MARKET | LIMIT | STOP | STOP_LIMIT
datatype order_status = PENDING | NEW | FILLED | PARTIAL | CANCELLED | REJECTED

primrec side_value :: "order_side \<Rightarrow> string" where
  "side_value BUY = ''buy''"
| "side_value SELL = ''sell''"

primrec type_value :: "order_type \<Rightarrow> string" where
  "type_value MARKET = ''market''"
| "type_value LIMIT = ''limit''"
| "type_value STOP = ''stop''"
| "type_value STOP_LIMIT = ''stop_limit''"

primrec status_value :: "order_status \<Rightarrow> string" where
  "status_value PENDING = ''pending''"
| "status_value NEW = ''new''"
| "status_value FILLED = ''filled''"
| "status_value PARTIAL = ''partial''"
| "status_value CANCELLED = ''cancelled''"
| "status_value REJECTED = ''rejected''"

text \<open>\<open>OrderSide(text)\<close> and its siblings: the member with that value, else \<open>ValueError\<close>.\<close>

definition side_of :: "string \<Rightarrow> order_side option" where
  "side_of s = map_of (map (\<lambda>x. (side_value x, x)) [BUY, SELL]) s"

definition type_of :: "string \<Rightarrow> order_type option" where
  "type_of s = map_of (map (\<lambda>x. (type_value x, x)) [MARKET, LIMIT, STOP, STOP_LIMIT]) s"

definition status_of :: "string \<Rightarrow> order_status option" where
  "status_of s = map_of (map (\<lambda>x. (status_value x, x))
     [PENDING, NEW, FILLED, PARTIAL, CANCELLED, REJECTED]) s"

lemma side_roundtrip [simp]: "side_of (side_value x) = Some x"
  by (cases x) (simp_all add: side_of_def)

lemma type_roundtrip [simp]: "type_of (type_value x) = Some x"
  by (cases x) (simp_all add: type_of_def)

lemma status_roundtrip [simp]: "status_of (status_value x) = Some x"
  by (cases x) (simp_all add: status_of_def)

record order_intent =
  oi_client_order_id :: string
  oi_strategy_id :: string
  oi_account_id :: string
  oi_symbol :: string
  oi_side :: order_side
  oi_order_type :: order_type
  oi_quantity :: pyfloat
  oi_price :: "pyfloat option"
  oi_stop_price :: "pyfloat option"
  oi_created_at :: ms

text \<open>The \<open>error\<close> of an order is a message; the type of messages is a parameter, so that each
  component that rejects orders brings its own.\<close>

record 'm order =
  o_order_id :: string
  o_client_order_id :: string
  o_strategy_id :: string
  o_account_id :: string
  o_symbol :: string
  o_side :: order_side
  o_order_type :: order_type
  o_quantity :: pyfloat
  o_price :: "pyfloat option"
  o_stop_price :: "pyfloat option"
  o_status :: order_status
  o_filled_quantity :: pyfloat
  o_avg_fill_price :: "pyfloat option"
  o_created_at :: ms
  o_updated_at :: ms
  o_error :: "'m option"

text \<open>The constructor call every producer of orders makes: the intent's own fields are copied,
  the rest are the arguments (with \<open>0.0\<close>, \<open>None\<close>, \<open>None\<close> as the dataclass defaults).\<close>

definition order_of_intent ::
  "order_intent \<Rightarrow> string \<Rightarrow> order_status \<Rightarrow> pyfloat \<Rightarrow> pyfloat option \<Rightarrow> ms \<Rightarrow> 'm option \<Rightarrow> 'm order"
where
  "order_of_intent oi oid st filled avg now err =
     \<lparr>o_order_id = oid, o_client_order_id = oi_client_order_id oi,
      o_strategy_id = oi_strategy_id oi, o_account_id = oi_account_id oi,
      o_symbol = oi_symbol oi, o_side = oi_side oi, o_order_type = oi_order_type oi,
      o_quantity = oi_quantity oi, o_price = oi_price oi, o_stop_price = oi_stop_price oi,
      o_status = st, o_filled_quantity = filled, o_avg_fill_price = avg,
      o_created_at = oi_created_at oi, o_updated_at = now, o_error = err\<rparr>"

text \<open>What an order says of the request it answers.\<close>

definition carries :: "'m order \<Rightarrow> order_intent \<Rightarrow> bool" where
  "carries ord oi \<longleftrightarrow>
     o_client_order_id ord = oi_client_order_id oi \<and> o_strategy_id ord = oi_strategy_id oi \<and>
     o_account_id ord = oi_account_id oi \<and> o_symbol ord = oi_symbol oi \<and>
     o_side ord = oi_side oi \<and> o_order_type ord = oi_order_type oi \<and>
     o_quantity ord = oi_quantity oi \<and> o_price ord = oi_price oi \<and>
     o_stop_price ord = oi_stop_price oi \<and> o_created_at ord = oi_created_at oi"

lemma carries_order_of_intent [simp]:
  "carries (order_of_intent oi oid st filled avg now err) oi"
  by (simp add: carries_def order_of_intent_def)

lemma order_of_intent_simps [simp]:
  "o_order_id (order_of_intent oi oid st filled avg now err) = oid"
  "o_status (order_of_intent oi oid st filled avg now err) = st"
  "o_client_order_id (order_of_intent oi oid st filled avg now err) = oi_client_order_id oi"
  "o_account_id (order_of_intent oi oid st filled avg now err) = oi_account_id oi"
  "o_filled_quantity (order_of_intent oi oid st filled avg now err) = filled"
  "o_avg_fill_price (order_of_intent oi oid st filled avg now err) = avg"
  "o_error (order_of_intent oi oid st filled avg now err) = err"
  by (simp_all add: order_of_intent_def)

subsection \<open>The orders table\<close>

record 'm order_row =
  r_order_id :: string
  r_strategy_id :: string
  r_account_id :: "string option"
  r_provider_order_id :: "string option"
  r_client_order_id :: string
  r_symbol :: string
  r_side :: string
  r_order_type :: string
  r_qty :: pyfloat
  r_limit_price :: "pyfloat option"
  r_stop_price :: "pyfloat option"
  r_status :: string
  r_reduce_only :: int
  r_filled_quantity :: pyfloat
  r_avg_fill_price :: "pyfloat option"
  r_intent_json :: json
  r_risk_decision_json :: "json option"
  r_error :: "'m option"
  r_created_at :: ms
  r_updated_at :: ms

datatype db_error = IntegrityError | ValueError

definition intent_payload :: "order_intent \<Rightarrow> json" where
  "intent_payload oi = JObj
     [(''client_order_id'', JStr (oi_client_order_id oi)),
      (''strategy_id'', JStr (oi_strategy_id oi)),
      (''account_id'', JStr (oi_account_id oi)),
      (''symbol'', JStr (oi_symbol oi)),
      (''side'', JStr (side_value (oi_side oi))),
      (''order_type'', JStr (type_value (oi_order_type oi))),
      (''quantity'', JFloat (oi_quantity oi)),
      (''price'', json_float_opt (oi_price oi)),
      (''stop_price'', json_float_opt (oi_stop_price oi)),
      (''created_at'', JInt (oi_created_at oi))]"

text \<open>\<open>INSERT INTO orders\<close>: refused when the primary key or the unique column is taken.\<close>

definition insert_order_row :: "'m order_row \<Rightarrow> 'm order_row list \<Rightarrow> db_error + 'm order_row list" where
  "insert_order_row r t =
     (if r_order_id r \<in> r_order_id ` set t \<or> r_client_order_id r \<in> r_client_order_id ` set t
      then Inl IntegrityError else Inr (t @ [r]))"

record 'm order_manager =
  om_table :: "'m order_row list"
  om_seen :: "string set"

text \<open>\<open>OrderManager.__init__\<close> and \<open>_load_existing_ids\<close>.\<close>

definition order_manager_init :: "'m order_row list \<Rightarrow> 'm order_manager" where
  "order_manager_init t = \<lparr>om_table = t, om_seen = r_client_order_id ` set t\<rparr>"

definition new_order_row :: "ms \<Rightarrow> string \<Rightarrow> pyfloat \<Rightarrow> order_intent \<Rightarrow> 'm order_row" where
  "new_order_row now oid q oi =
     \<lparr>r_order_id = oid, r_strategy_id = oi_strategy_id oi,
      r_account_id = Some (oi_account_id oi), r_provider_order_id = None,
      r_client_order_id = oi_client_order_id oi, r_symbol = oi_symbol oi,
      r_side = side_value (oi_side oi), r_order_type = type_value (oi_order_type oi),
      r_qty = q, r_limit_price = sql_real_opt (oi_price oi),
      r_stop_price = sql_real_opt (oi_stop_price oi), r_status = status_value PENDING,
      r_reduce_only = 0, r_filled_quantity = Fin 0, r_avg_fill_price = None,
      r_intent_json = intent_payload oi, r_risk_decision_json = None, r_error = None,
      r_created_at = oi_created_at oi, r_updated_at = now\<rparr>"

definition submit_order ::
  "ms \<Rightarrow> string \<Rightarrow> order_intent \<Rightarrow> 'm order_manager \<Rightarrow> (db_error + 'm order option) \<times> 'm order_manager"
where
  "submit_order now oid oi m =
     (if oi_client_order_id oi \<in> om_seen m then (Inr None, m)
      else
        let m' = m\<lparr>om_seen := insert (oi_client_order_id oi) (om_seen m)\<rparr> in
        case sql_real (oi_quantity oi) of
          None \<Rightarrow> (Inl IntegrityError, m')
        | Some q \<Rightarrow>
            (case insert_order_row (new_order_row now oid q oi) (om_table m') of
               Inl e \<Rightarrow> (Inl e, m')
             | Inr t \<Rightarrow> (Inr (Some (order_of_intent oi oid PENDING (Fin 0) None now None)),
                         m'\<lparr>om_table := t\<rparr>)))"

definition row_to_order :: "'m order_row \<Rightarrow> db_error + 'm order" where
  "row_to_order r =
     (case (side_of (r_side r), type_of (r_order_type r), status_of (r_status r)) of
        (Some sd, Some ty, Some st) \<Rightarrow>
          Inr \<lparr>o_order_id = r_order_id r, o_client_order_id = r_client_order_id r,
               o_strategy_id = r_strategy_id r,
               o_account_id = (if truthy (r_account_id r) then the (r_account_id r) else ''''),
               o_symbol = r_symbol r, o_side = sd, o_order_type = ty, o_quantity = r_qty r,
               o_price = r_limit_price r, o_stop_price = r_stop_price r, o_status = st,
               o_filled_quantity = r_filled_quantity r, o_avg_fill_price = r_avg_fill_price r,
               o_created_at = r_created_at r, o_updated_at = r_updated_at r, o_error = r_error r\<rparr>
      | _ \<Rightarrow> Inl ValueError)"

definition get_order :: "string \<Rightarrow> 'm order_manager \<Rightarrow> db_error + 'm order option" where
  "get_order oid m =
     (case filter (\<lambda>r. r_order_id r = oid) (om_table m) of
        [] \<Rightarrow> Inr None
      | r # _ \<Rightarrow> res_bind (row_to_order r) (\<lambda>x. Inr (Some x)))"

fun rows_to_orders :: "'m order_row list \<Rightarrow> db_error + 'm order list" where
  "rows_to_orders [] = Inr []"
| "rows_to_orders (r # rs) =
     res_bind (row_to_order r) (\<lambda>x. res_bind (rows_to_orders rs) (\<lambda>xs. Inr (x # xs)))"

definition list_orders ::
  "string option \<Rightarrow> order_status option \<Rightarrow> 'm order_manager \<Rightarrow> db_error + 'm order list"
where
  "list_orders acct st m = rows_to_orders
     (sort_key (\<lambda>r. - r_created_at r)
        (filter (\<lambda>r. (case acct of None \<Rightarrow> True | Some a \<Rightarrow> r_account_id r = Some a) \<and>
                     (case st of None \<Rightarrow> True | Some s \<Rightarrow> r_status r = status_value s))
          (om_table m)))"

definition set_row_status ::
  "ms \<Rightarrow> string \<Rightarrow> order_status \<Rightarrow> pyfloat \<Rightarrow> pyfloat option \<Rightarrow> 'm option \<Rightarrow> 'm order_row \<Rightarrow> 'm order_row"
where
  "set_row_status now oid st f avg err r =
     (if r_order_id r = oid
      then r\<lparr>r_status := status_value st, r_filled_quantity := f,
             r_avg_fill_price := sql_real_opt avg, r_error := err, r_updated_at := now\<rparr>
      else r)"

definition update_order_status ::
  "ms \<Rightarrow> string \<Rightarrow> order_status \<Rightarrow> pyfloat \<Rightarrow> pyfloat option \<Rightarrow> 'm option \<Rightarrow> 'm order_manager
     \<Rightarrow> (db_error + unit) \<times> 'm order_manager"
where
  "update_order_status now oid st filled avg err m =
     (if oid \<notin> r_order_id ` set (om_table m) then (Inr (), m)
      else case sql_real filled of
        None \<Rightarrow> (Inl IntegrityError, m)
      | Some f \<Rightarrow> (Inr (), m\<lparr>om_table := map (set_row_status now oid st f avg err) (om_table m)\<rparr>))"

subsection \<open>The manager as a machine\<close>

datatype 'm order_op =
    Submit ms string order_intent
  | UpdateStatus ms string order_status pyfloat "pyfloat option" "'m option"

primrec order_step :: "'m order_op \<Rightarrow> 'm order_manager \<Rightarrow> 'm order_manager" where
  "order_step (Submit now oid oi) m = snd (submit_order now oid oi m)"
| "order_step (UpdateStatus now oid st f avg err) m = snd (update_order_status now oid st f avg err m)"

text \<open>What the table's constraints and the enum writers guarantee of stored rows, and that the
  manager remembers every stored client id.\<close>

definition row_readable :: "'m order_row \<Rightarrow> bool" where
  "row_readable r \<longleftrightarrow> side_of (r_side r) \<noteq> None \<and> type_of (r_order_type r) \<noteq> None \<and>
     status_of (r_status r) \<noteq> None"

definition table_ok :: "'m order_row list \<Rightarrow> bool" where
  "table_ok t \<longleftrightarrow> distinct (map r_order_id t) \<and> distinct (map r_client_order_id t) \<and>
     list_all row_readable t"

definition order_inv :: "'m order_manager \<Rightarrow> bool" where
  "order_inv m \<longleftrightarrow> table_ok (om_table m) \<and> r_client_order_id ` set (om_table m) \<subseteq> om_seen m"

lemma order_inv_init: "table_ok t \<Longrightarrow> order_inv (order_manager_init t)"
  by (simp add: order_inv_def order_manager_init_def)

lemma table_ok_insert:
  "table_ok t \<Longrightarrow> row_readable r \<Longrightarrow> insert_order_row r t = Inr t' \<Longrightarrow> table_ok t'"
  by (auto simp: table_ok_def insert_order_row_def split: if_splits)

lemma new_order_row_simps [simp]:
  "r_order_id (new_order_row now oid q oi) = oid"
  "r_client_order_id (new_order_row now oid q oi) = oi_client_order_id oi"
  "row_readable (new_order_row now oid q oi)"
  by (simp_all add: new_order_row_def row_readable_def status_of_def)

lemma set_row_status_simps [simp]:
  "r_order_id (set_row_status now oid st f avg err r) = r_order_id r"
  "r_client_order_id (set_row_status now oid st f avg err r) = r_client_order_id r"
  "row_readable r \<Longrightarrow> row_readable (set_row_status now oid st f avg err r)"
  by (simp_all add: set_row_status_def row_readable_def)

text \<open>The three outcomes of a submission.\<close>

lemma submit_order_cases:
  obtains (duplicate) "oi_client_order_id oi \<in> om_seen m"
      "submit_order now oid oi m = (Inr None, m)"
  | (refused) "oi_client_order_id oi \<notin> om_seen m"
      "submit_order now oid oi m =
        (Inl IntegrityError, m\<lparr>om_seen := insert (oi_client_order_id oi) (om_seen m)\<rparr>)"
  | (accepted) t where "oi_client_order_id oi \<notin> om_seen m" "oi_quantity oi \<noteq> NaN"
      "insert_order_row (new_order_row now oid (oi_quantity oi) oi) (om_table m) = Inr t"
      "submit_order now oid oi m =
        (Inr (Some (order_of_intent oi oid PENDING (Fin 0) None now None)),
         m\<lparr>om_seen := insert (oi_client_order_id oi) (om_seen m), om_table := t\<rparr>)"
proof (cases "oi_client_order_id oi \<in> om_seen m")
  case True
  then show ?thesis by (intro duplicate) (simp_all add: submit_order_def)
next
  case False
  show ?thesis
  proof (cases "oi_quantity oi = NaN")
    case True
    with False show ?thesis by (intro refused) (simp_all add: submit_order_def)
  next
    case q: False
    let ?i = "insert_order_row (new_order_row now oid (oi_quantity oi) oi) (om_table m)"
    show ?thesis
    proof (cases ?i)
      case (Inl e)
      then have "e = IntegrityError" by (simp add: insert_order_row_def split: if_splits)
      with Inl False q show ?thesis
        by (intro refused) (simp_all add: submit_order_def sql_real_eq Let_def)
    next
      case (Inr t)
      with False q show ?thesis
        by (intro accepted [of t]) (simp_all add: submit_order_def sql_real_eq Let_def)
    qed
  qed
qed

lemma submit_order_inv [inv_intros]:
  assumes "order_inv m"
  shows "order_inv (snd (submit_order now oid oi m))"
proof (cases rule: submit_order_cases [of oi m now oid])
  case (accepted t)
  from assms have "table_ok (om_table m)" by (simp add: order_inv_def)
  then have "table_ok t" using new_order_row_simps(3) accepted(3) by (rule table_ok_insert)
  moreover from accepted(3) have "t = om_table m @ [new_order_row now oid (oi_quantity oi) oi]"
    by (simp add: insert_order_row_def split: if_splits)
  ultimately show ?thesis
    using assms by (simp add: accepted(4) order_inv_def subset_insertI2)
qed (use assms in \<open>auto simp: order_inv_def\<close>)

lemma update_order_status_inv [inv_intros]:
  assumes "order_inv m"
  shows "order_inv (snd (update_order_status now oid st f avg err m))"
  using assms
  by (auto simp: update_order_status_def sql_real_eq order_inv_def table_ok_def list_all_iff
      comp_def)

interpretation om: invariant_machine order_step order_inv
proof
  fix s :: "'m order_manager" and op
  assume "order_inv s"
  then show "order_inv (order_step op s)"
    by (cases op) (auto intro: inv_intros)
qed

lemma submit_order_seen:
  "om_seen (snd (submit_order now oid oi m)) = insert (oi_client_order_id oi) (om_seen m)"
  by (cases rule: submit_order_cases [of oi m now oid]) auto

lemma update_order_status_seen [frame_simps]:
  "om_seen (snd (update_order_status now oid st f avg err m)) = om_seen m"
  by (simp add: update_order_status_def sql_real_eq)

lemma order_step_seen: "c \<in> om_seen m \<Longrightarrow> c \<in> om_seen (order_step op m)"
  by (cases op) (simp_all add: submit_order_seen frame_simps)

lemma order_run_seen: "c \<in> om_seen m \<Longrightarrow> c \<in> om_seen (fold order_step ops m)"
  by (induction ops arbitrary: m) (simp_all add: order_step_seen)

subsection \<open>Properties\<close>

text \<open>Reading back what was stored.\<close>

lemma filter_id_distinct:
  "distinct (map r_order_id t) \<Longrightarrow> r \<in> set t \<Longrightarrow> filter (\<lambda>x. r_order_id x = r_order_id r) t = [r]"
  by (induction t) (auto simp: filter_empty_conv image_iff)

lemma get_order_row:
  assumes "table_ok (om_table m)" and "r \<in> set (om_table m)"
  shows "get_order (r_order_id r) m = res_bind (row_to_order r) (\<lambda>x. Inr (Some x))"
  using filter_id_distinct [OF _ assms(2)] assms(1) by (simp add: get_order_def table_ok_def)

lemma row_to_order_new:
  assumes "q = oi_quantity oi" and "oi_price oi \<noteq> Some NaN" and "oi_stop_price oi \<noteq> Some NaN"
  shows "row_to_order (new_order_row now oid q oi)
    = Inr (order_of_intent oi oid PENDING (Fin 0) None now None)"
  using assms
  by (simp add: row_to_order_def new_order_row_def order_of_intent_def sql_real_opt_id
      status_of_def)

text \<open>C7: Duplicate protection over a whole execution. Once an intent with a given client order
  id was submitted (accepted or refused by the database), every later submission of an intent
  with that client order id, after any number of other submissions and status updates, is
  rejected as a duplicate (\<open>None\<close>) and writes nothing.\<close>

theorem resubmission_rejected:
  assumes "oi_client_order_id oi' = oi_client_order_id oi"
  shows "let m' = fold order_step ops (snd (submit_order now oid oi m))
         in submit_order now' oid' oi' m' = (Inr None, m')"
proof -
  have "oi_client_order_id oi' \<in> om_seen (fold order_step ops (snd (submit_order now oid oi m)))"
    using assms by (simp add: order_run_seen submit_order_seen)
  then show ?thesis by (simp add: submit_order_def)
qed

definition example_intent :: "string \<Rightarrow> order_intent" where
  "example_intent cid = \<lparr>oi_client_order_id = cid, oi_strategy_id = ''s1'', oi_account_id = ''a1'',
     oi_symbol = ''BTCUSDT'', oi_side = BUY, oi_order_type = LIMIT, oi_quantity = Fin 2,
     oi_price = Some (Fin 100), oi_stop_price = None, oi_created_at = 5\<rparr>"

theorem resubmission_rejected_witness:
  "let m0 = order_manager_init [] :: string order_manager;
       m1 = snd (submit_order 10 ''ord_1'' (example_intent ''c_1'') m0);
       m' = fold order_step [Submit 11 ''ord_2'' (example_intent ''c_2'')] m1
   in length (om_table m') = 2 \<and>
      submit_order 12 ''ord_3'' (example_intent ''c_1'') m' = (Inr None, m')"
  using resubmission_rejected [of "example_intent ''c_1''" "example_intent ''c_1''"
      "[Submit 11 ''ord_2'' (example_intent ''c_2'')]" 10 "''ord_1''"
      "order_manager_init [] :: string order_manager" 12 "''ord_3''"]
  by (simp add: Let_def)
    (simp add: order_manager_init_def submit_order_def example_intent_def insert_order_row_def
      new_order_row_def)

text \<open>C8: In every state an order manager can reach from a well-formed table, order ids and
  client order ids are unique in the table, every row can be read back, and every stored client
  order id is remembered by the duplicate filter.\<close>

theorem order_manager_invariant:
  assumes "table_ok t"
  shows "order_inv (fold order_step ops (order_manager_init t))"
  using order_inv_init [OF assms] by (rule om.run_inv)

theorem order_manager_invariant_witness:
  "table_ok ([] :: string order_row list) \<and>
   order_inv (fold order_step [Submit 1 ''ord_1'' (example_intent ''c_1'')]
     (order_manager_init [] :: string order_manager))"
proof -
  have "table_ok ([] :: string order_row list)" by (simp add: table_ok_def)
  with order_manager_invariant [OF this] show ?thesis by blast
qed

text \<open>C9: Round trip through the table. An accepted order is read back by \<open>get_order\<close> exactly as
  it was returned, provided its prices are numbers (SQLite stores NaN as NULL).\<close>

theorem submit_then_get:
  fixes m :: "'m order_manager"
  assumes "order_inv m"
    and "submit_order now oid oi m = (Inr (Some ord), m')"
    and "oi_price oi \<noteq> Some NaN" and "oi_stop_price oi \<noteq> Some NaN"
  shows "get_order oid m' = Inr (Some ord) \<and> o_order_id ord = oid \<and> o_status ord = PENDING \<and>
    carries ord oi"
proof (cases rule: submit_order_cases [of oi m now oid])
  case (accepted t)
  let ?r = "new_order_row now oid (oi_quantity oi) oi :: 'm order_row"
  from accepted assms(2) have m': "om_table m' = t"
    and ord: "ord = order_of_intent oi oid PENDING (Fin 0) None now None" by auto
  from assms(1) submit_order_inv [OF assms(1), of now oid oi] assms(2) m'
  have "table_ok (om_table m')" by (simp add: order_inv_def)
  moreover have "?r \<in> set (om_table m')"
    using accepted(3) unfolding m' by (auto simp: insert_order_row_def split: if_splits)
  ultimately have "get_order (r_order_id ?r) m' = res_bind (row_to_order ?r) (\<lambda>x. Inr (Some x))"
    by (rule get_order_row)
  then show ?thesis
    by (simp add: ord row_to_order_new assms(3,4))
qed (use assms(2) in auto)

theorem submit_then_get_witness:
  "let m0 = order_manager_init [] :: string order_manager;
       r = submit_order 10 ''ord_1'' (example_intent ''c_1'') m0
   in get_order ''ord_1'' (snd r) = Inr (Some (order_of_intent (example_intent ''c_1'') ''ord_1''
        PENDING (Fin 0) None 10 None))"
proof -
  let ?m0 = "order_manager_init [] :: string order_manager"
  let ?oi = "example_intent ''c_1''"
  have inv: "order_inv ?m0" by (simp add: order_inv_init table_ok_def)
  have "submit_order 10 ''ord_1'' ?oi ?m0 =
    (Inr (Some (order_of_intent ?oi ''ord_1'' PENDING (Fin 0) None 10 None)),
     snd (submit_order 10 ''ord_1'' ?oi ?m0))"
    by (simp add: submit_order_def order_manager_init_def example_intent_def insert_order_row_def
        Let_def)
  from submit_then_get [OF inv this] show ?thesis
    by (simp add: example_intent_def Let_def)
qed

text \<open>A status update is visible and local. After updating an existing order with a numeric
  filled quantity, \<open>get_order\<close> returns that order with exactly the new status, fill and error,
  and every other order reads as before.\<close>

theorem update_status_effect:
  assumes "order_inv m" and "get_order oid m = Inr (Some ord)" and "f \<noteq> NaN" and "avg \<noteq> Some NaN"
  shows "let m' = snd (update_order_status now oid st f avg err m) in
    get_order oid m' = Inr (Some (ord\<lparr>o_status := st, o_filled_quantity := f,
      o_avg_fill_price := avg, o_error := err, o_updated_at := now\<rparr>)) \<and>
    (\<forall>other. other \<noteq> oid \<longrightarrow> get_order other m' = get_order other m)"
proof -
  let ?upd = "set_row_status now oid st f avg err"
  let ?m' = "m\<lparr>om_table := map ?upd (om_table m)\<rparr>"
  obtain r where r: "r \<in> set (om_table m)" "r_order_id r = oid" "row_to_order r = Inr ord"
  proof -
    from assms(2) obtain r rs where f: "filter (\<lambda>r. r_order_id r = oid) (om_table m) = r # rs"
      and "row_to_order r = Inr ord"
      by (auto simp: get_order_def res_bind_Inr_iff split: list.splits)
    moreover from f have "r \<in> set (filter (\<lambda>r. r_order_id r = oid) (om_table m))" by simp
    then have "r \<in> set (om_table m)" "r_order_id r = oid" by auto
    ultimately show ?thesis using that by blast
  qed
  have u: "snd (update_order_status now oid st f avg err m) = ?m'"
    using r assms(3) by (auto simp: update_order_status_def sql_real_eq)
  have "order_inv ?m'" using update_order_status_inv [OF assms(1), of now oid st f avg err] u by simp
  then have ok: "table_ok (om_table ?m')" by (simp only: order_inv_def)
  have "get_order oid ?m' = res_bind (row_to_order (?upd r)) (\<lambda>x. Inr (Some x))"
    using get_order_row [OF ok, of "?upd r"] r by simp
  moreover have "row_to_order (?upd r) = Inr (ord\<lparr>o_status := st, o_filled_quantity := f,
      o_avg_fill_price := avg, o_error := err, o_updated_at := now\<rparr>)"
    using r(2,3) assms(4)
    by (auto simp: row_to_order_def set_row_status_def sql_real_opt_id split: option.splits)
  moreover have "get_order other ?m' = get_order other m" if "other \<noteq> oid" for other
  proof -
    have "filter (\<lambda>r. r_order_id r = other) (map ?upd rs) = filter (\<lambda>r. r_order_id r = other) rs" for rs
      using that by (induction rs) (auto simp: set_row_status_def)
    then show ?thesis by (simp add: get_order_def)
  qed
  ultimately show ?thesis by (simp add: u Let_def)
qed

theorem update_status_effect_witness:
  "let m = snd (submit_order 10 ''ord_1'' (example_intent ''c_1'')
             (order_manager_init [] :: string order_manager));
       m' = snd (update_order_status 20 ''ord_1'' FILLED (Fin 2) (Some (Fin 101)) None m)
   in get_order ''ord_1'' m' = Inr (Some (order_of_intent (example_intent ''c_1'') ''ord_1''
        FILLED (Fin 2) (Some (Fin 101)) 20 None))"
proof -
  let ?m = "snd (submit_order 10 ''ord_1'' (example_intent ''c_1'')
             (order_manager_init [] :: string order_manager))"
  let ?o = "order_of_intent (example_intent ''c_1'') ''ord_1'' PENDING (Fin 0) None 10 None"
  have inv: "order_inv ?m" by (intro submit_order_inv order_inv_init) (simp add: table_ok_def)
  have get: "get_order ''ord_1'' ?m = Inr (Some ?o)"
    by (simp add: submit_order_def order_manager_init_def example_intent_def insert_order_row_def
        new_order_row_def get_order_def row_to_order_def order_of_intent_def sql_real_opt_def
        status_of_def side_of_def type_of_def)
  from update_status_effect [OF inv get, of "Fin 2" "Some (Fin 101)" 20 FILLED None]
  show ?thesis by (simp add: Let_def order_of_intent_def)
qed

end
