(* ===== verification/Accounts.thy ===== *)
theory Accounts
  imports Orders
begin

text \<open>
  Account models and \<open>AccountManager\<close> (\<^verbatim>\<open>openpine/accounts/models.py\<close>,
  \<^verbatim>\<open>openpine/accounts/manager.py\<close>) over the SQLite table \<open>accounts\<close> of
  \<^verbatim>\<open>storage/migrations/001_initial_schema.sql\<close>, whose \<open>account_id\<close>, \<open>id\<close> and \<open>name\<close>
  are unique.
\<close>

subsection \<open>Models\<close>

datatype account_type = LIVE | PAPER | BACKTEST

primrec mode_value :: "account_type \<Rightarrow> string" where
  "mode_value LIVE = ''live''"
| "mode_value PAPER = ''paper''"
| "mode_value BACKTEST = ''backtest''"

definition mode_of :: "string \<Rightarrow> account_type option" where
  "mode_of s = map_of (map (\<lambda>x. (mode_value x, x)) [LIVE, PAPER, BACKTEST]) s"

lemma mode_roundtrip [simp]: "mode_of (mode_value x) = Some x"
  by (cases x) (simp_all add: mode_of_def)

lemma mode_value_nonempty [simp]: "mode_value x \<noteq> []"
  by (cases x) simp_all

record account =
  acc_account_id :: string
  acc_name :: string
  acc_provider :: string
  acc_exchange :: string
  acc_market_type :: string
  acc_mode :: account_type
  acc_live_enabled :: bool
  acc_api_key_ref :: "string option"
  acc_api_secret_ref :: "string option"
  acc_permissions :: "string option"
  acc_api_key_hash :: "string option"
  acc_config :: json
  acc_created_at :: ms
  acc_updated_at :: ms

text \<open>Truth value of a decoded JSON document, as \<open>config or {}\<close> reads it.\<close>

fun json_true :: "json \<Rightarrow> bool" where
  "json_true JNull = False"
| "json_true (JBool b) = b"
| "json_true (JInt i) = (i \<noteq> 0)"
| "json_true (JFloat x) = float_true x"
| "json_true (JStr s) = (s \<noteq> [])"
| "json_true (JList xs) = (xs \<noteq> [])"
| "json_true (JObj kvs) = (kvs \<noteq> [])"

definition config_or_empty :: "json option \<Rightarrow> json" where
  "config_or_empty c = (case c of None \<Rightarrow> JObj [] | Some j \<Rightarrow> if json_true j then j else JObj [])"

datatype mode_arg = ModeEnum account_type | ModeText string

text \<open>\<open>Account.__init__\<close>; \<open>gen\<close> is the value of \<open>generate_id("acct")\<close>, used when neither
  \<open>account_id\<close> nor \<open>id\<close> is given.\<close>

definition account_init ::
  "string \<Rightarrow> string option \<Rightarrow> string \<Rightarrow> string \<Rightarrow> string \<Rightarrow> string \<Rightarrow> mode_arg \<Rightarrow> bool
   \<Rightarrow> string option \<Rightarrow> string option \<Rightarrow> string option \<Rightarrow> string option \<Rightarrow> json option \<Rightarrow> ms \<Rightarrow> ms
   \<Rightarrow> string option \<Rightarrow> mode_arg option \<Rightarrow> db_error + account"
where
  "account_init gen account_id name provider exchange market_type mode live key_ref secret_ref
     permissions key_hash config created updated legacy_id legacy_type =
   (let resolved = (case legacy_type of Some t \<Rightarrow> t | None \<Rightarrow> mode);
        parsed = (case resolved of ModeEnum t \<Rightarrow> Some t | ModeText s \<Rightarrow> mode_of s)
    in case parsed of
         None \<Rightarrow> Inl ValueError
       | Some t \<Rightarrow> Inr
           \<lparr>acc_account_id = str_or account_id (str_or legacy_id gen), acc_name = name,
            acc_provider = provider, acc_exchange = exchange, acc_market_type = market_type,
            acc_mode = t, acc_live_enabled = live, acc_api_key_ref = key_ref,
            acc_api_secret_ref = secret_ref, acc_permissions = permissions,
            acc_api_key_hash = key_hash, acc_config = config_or_empty config,
            acc_created_at = created, acc_updated_at = updated\<rparr>)"

text \<open>The compatibility properties \<open>Account.id\<close> and \<open>Account.account_type\<close>.\<close>

definition acc_id :: "account \<Rightarrow> string" where
  "acc_id a = acc_account_id a"

definition acc_account_type :: "account \<Rightarrow> account_type" where
  "acc_account_type a = acc_mode a"

subsection \<open>The accounts table\<close>

record account_row =
  ar_account_id :: string
  ar_id :: string
  ar_name :: string
  ar_provider :: string
  ar_exchange :: string
  ar_market_type :: string
  ar_mode :: string
  ar_account_type :: string
  ar_api_key_ref :: "string option"
  ar_api_secret_ref :: "string option"
  ar_api_key_hash :: "string option"
  ar_secret_hash :: "string option"
  ar_live_enabled :: int
  ar_permissions :: "string option"
  ar_config :: "json option"
  ar_created_at :: ms
  ar_updated_at :: ms

definition insert_account_row :: "account_row \<Rightarrow> account_row list \<Rightarrow> db_error + account_row list" where
  "insert_account_row r t =
     (if ar_account_id r \<in> ar_account_id ` set t \<or> ar_id r \<in> ar_id ` set t \<or>
         ar_name r \<in> ar_name ` set t
      then Inl IntegrityError else Inr (t @ [r]))"

text \<open>The arguments of \<open>create_account\<close>.\<close>

record account_spec =
  as_name :: string
  as_account_type :: "account_type option"
  as_exchange :: string
  as_provider :: string
  as_market_type :: string
  as_mode :: "account_type option"
  as_api_key_ref :: "string option"
  as_api_secret_ref :: "string option"
  as_permissions :: "string option"
  as_api_key_hash :: "string option"
  as_live_enabled :: bool
  as_config :: "json option"

definition resolved_mode :: "account_spec \<Rightarrow> account_type" where
  "resolved_mode sp = (case as_mode sp of Some t \<Rightarrow> t | None \<Rightarrow>
     (case as_account_type sp of Some t \<Rightarrow> t | None \<Rightarrow> PAPER))"

definition new_account_row :: "ms \<Rightarrow> string \<Rightarrow> account_spec \<Rightarrow> account_row" where
  "new_account_row now aid sp =
     \<lparr>ar_account_id = aid, ar_id = aid, ar_name = as_name sp, ar_provider = as_provider sp,
      ar_exchange = as_exchange sp, ar_market_type = as_market_type sp,
      ar_mode = mode_value (resolved_mode sp), ar_account_type = mode_value (resolved_mode sp),
      ar_api_key_ref = as_api_key_ref sp, ar_api_secret_ref = as_api_secret_ref sp,
      ar_api_key_hash = as_api_key_hash sp, ar_secret_hash = None,
      ar_live_enabled = (if as_live_enabled sp then 1 else 0),
      ar_permissions = as_permissions sp, ar_config = Some (config_or_empty (as_config sp)),
      ar_created_at = now, ar_updated_at = now\<rparr>"

definition account_of_spec :: "ms \<Rightarrow> string \<Rightarrow> account_spec \<Rightarrow> db_error + account" where
  "account_of_spec now aid sp =
     account_init aid (Some aid) (as_name sp) (as_provider sp) (as_exchange sp) (as_market_type sp)
       (ModeEnum (resolved_mode sp)) (as_live_enabled sp) (as_api_key_ref sp)
       (as_api_secret_ref sp) (as_permissions sp) (as_api_key_hash sp)
       (Some (config_or_empty (as_config sp))) now now None None"

definition create_account ::
  "ms \<Rightarrow> string \<Rightarrow> account_spec \<Rightarrow> account_row list \<Rightarrow> (db_error + account) \<times> account_row list"
where
  "create_account now aid sp t =
     (case insert_account_row (new_account_row now aid sp) t of
        Inl e \<Rightarrow> (Inl e, t)
      | Inr t' \<Rightarrow> (account_of_spec now aid sp, t'))"

text \<open>\<open>_row_to_account\<close>; \<open>gen\<close> is what \<open>generate_id\<close> would return for a row without any id.\<close>

definition row_to_account :: "string \<Rightarrow> account_row \<Rightarrow> db_error + account" where
  "row_to_account gen r =
     (let mode = str_or (Some (ar_mode r)) (str_or (Some (ar_account_type r)) (mode_value PAPER))
      in account_init gen (Some (str_or (Some (ar_account_id r)) (ar_id r))) (ar_name r)
           (str_or (Some (ar_provider r)) ''unknown'') (ar_exchange r)
           (str_or (Some (ar_market_type r)) ''spot'') (ModeText mode)
           (ar_live_enabled r \<noteq> 0) (ar_api_key_ref r) (ar_api_secret_ref r) (ar_permissions r)
           (ar_api_key_hash r)
           (Some (case ar_config r of None \<Rightarrow> JObj [] | Some j \<Rightarrow> j))
           (ar_created_at r) (ar_updated_at r) None None)"

definition matches_id :: "string \<Rightarrow> account_row \<Rightarrow> bool" where
  "matches_id aid r \<longleftrightarrow> ar_account_id r = aid \<or> ar_id r = aid"

definition get_account :: "string \<Rightarrow> string \<Rightarrow> account_row list \<Rightarrow> db_error + account option" where
  "get_account gen aid t =
     (case filter (matches_id aid) t of
        [] \<Rightarrow> Inr None
      | r # _ \<Rightarrow> res_bind (row_to_account gen r) (\<lambda>a. Inr (Some a)))"

fun rows_to_accounts :: "string \<Rightarrow> account_row list \<Rightarrow> db_error + account list" where
  "rows_to_accounts gen [] = Inr []"
| "rows_to_accounts gen (r # rs) =
     res_bind (row_to_account gen r) (\<lambda>a. res_bind (rows_to_accounts gen rs) (\<lambda>as. Inr (a # as)))"

definition newest_first :: "account_row list \<Rightarrow> account_row list" where
  "newest_first t = sort_key (\<lambda>r. - ar_created_at r) t"

definition list_accounts ::
  "string \<Rightarrow> account_type option \<Rightarrow> account_row list \<Rightarrow> db_error + account list"
where
  "list_accounts gen ty t = rows_to_accounts gen (newest_first
     (case ty of None \<Rightarrow> t
      | Some m \<Rightarrow> filter (\<lambda>r. ar_mode r = mode_value m \<or> ar_account_type r = mode_value m) t))"

definition list_accounts_by_provider ::
  "string \<Rightarrow> string \<Rightarrow> string option \<Rightarrow> account_row list \<Rightarrow> db_error + account list"
where
  "list_accounts_by_provider gen provider exchange t = rows_to_accounts gen (newest_first
     (case exchange of
        None \<Rightarrow> filter (\<lambda>r. ar_provider r = provider) t
      | Some e \<Rightarrow> filter (\<lambda>r. ar_provider r = provider \<and> ar_exchange r = e) t))"

definition set_live_enabled :: "ms \<Rightarrow> string \<Rightarrow> bool \<Rightarrow> account_row list \<Rightarrow> account_row list" where
  "set_live_enabled now aid enabled t = map (\<lambda>r. if matches_id aid r
     then r\<lparr>ar_live_enabled := (if enabled then 1 else 0), ar_updated_at := now\<rparr> else r) t"

definition delete_account :: "string \<Rightarrow> account_row list \<Rightarrow> account_row list" where
  "delete_account aid t = filter (\<lambda>r. \<not> matches_id aid r) t"

subsection \<open>The manager as a machine\<close>

datatype account_op =
    CreateAccount ms string account_spec
  | SetLive ms string bool
  | DeleteAccount string

primrec account_step :: "account_op \<Rightarrow> account_row list \<Rightarrow> account_row list" where
  "account_step (CreateAccount now aid sp) t = snd (create_account now aid sp t)"
| "account_step (SetLive now aid b) t = set_live_enabled now aid b t"
| "account_step (DeleteAccount aid) t = delete_account aid t"

definition accounts_ok :: "account_row list \<Rightarrow> bool" where
  "accounts_ok t \<longleftrightarrow> distinct (map ar_account_id t) \<and> distinct (map ar_name t) \<and>
     list_all (\<lambda>r. ar_id r = ar_account_id r \<and> ar_mode r = ar_account_type r \<and>
       mode_of (ar_mode r) \<noteq> None) t"

lemma create_account_ok [inv_intros]:
  "accounts_ok t \<Longrightarrow> accounts_ok (snd (create_account now aid sp t))"
  by (auto simp: create_account_def insert_account_row_def new_account_row_def accounts_ok_def)

lemma set_live_ok [inv_intros]: "accounts_ok t \<Longrightarrow> accounts_ok (set_live_enabled now aid b t)"
  by (auto simp: set_live_enabled_def accounts_ok_def list_all_iff comp_def
      if_distrib [where f = ar_account_id] if_distrib [where f = ar_name] cong: if_cong)

lemma delete_account_ok [inv_intros]: "accounts_ok t \<Longrightarrow> accounts_ok (delete_account aid t)"
  by (auto simp: delete_account_def accounts_ok_def list_all_iff distinct_map_filter)

interpretation am: invariant_machine account_step accounts_ok
proof
  fix t op
  assume "accounts_ok t"
  then show "accounts_ok (account_step op t)" by (cases op) (auto intro: inv_intros)
qed

lemma filter_matches_account:
  assumes "accounts_ok t" and "r \<in> set t"
  shows "filter (matches_id (ar_account_id r)) t = [r]"
proof -
  have "matches_id a x \<longleftrightarrow> ar_account_id x = a" if "x \<in> set t" for a x
    using assms(1) that by (auto simp: accounts_ok_def list_all_iff matches_id_def)
  then have "filter (matches_id (ar_account_id r)) t = filter (\<lambda>x. ar_account_id x = ar_account_id r) t"
    by (intro filter_cong) auto
  moreover have "distinct (map ar_account_id t)" using assms(1) by (simp add: accounts_ok_def)
  then have "filter (\<lambda>x. ar_account_id x = ar_account_id r) t = [r]"
    using assms(2) by (induction t) (auto simp: filter_empty_conv image_iff)
  ultimately show ?thesis by simp
qed

lemma row_to_account_new:
  assumes "aid \<noteq> []" and "as_provider sp \<noteq> []" and "as_market_type sp \<noteq> []"
  shows "row_to_account gen (new_account_row now aid sp) = account_of_spec now aid sp"
  using assms
  by (simp add: row_to_account_def new_account_row_def account_of_spec_def account_init_def
      str_or_def Let_def)

definition example_spec :: account_spec where
  "example_spec = \<lparr>as_name = ''main'', as_account_type = None, as_exchange = ''binance'',
     as_provider = ''binance'', as_market_type = ''spot'', as_mode = Some LIVE,
     as_api_key_ref = Some ''env:KEY'', as_api_secret_ref = None, as_permissions = None,
     as_api_key_hash = None, as_live_enabled = True, as_config = None\<rparr>"

text \<open>An account created under a non-empty id, provider and market type is found by
  \<open>get_account\<close> under that id with exactly the values \<open>create_account\<close> returned, whatever other
  accounts a run of the manager left in the table.\<close>

theorem create_then_get:
  assumes "create_account now aid sp (fold account_step ops []) = (Inr a, t')"
    and "aid \<noteq> []" and "as_provider sp \<noteq> []" and "as_market_type sp \<noteq> []"
  shows "get_account gen aid t' = Inr (Some a)"
proof -
  let ?t = "fold account_step ops []" and ?r = "new_account_row now aid sp"
  have inv: "accounts_ok ?t" by (rule am.run_inv) (simp add: accounts_ok_def)
  from assms(1) have t': "t' = ?t @ [?r]" and a: "account_of_spec now aid sp = Inr a"
    by (auto simp: create_account_def insert_account_row_def split: if_splits)
  from create_account_ok [OF inv, of now aid sp] assms(1) have "accounts_ok t'" by simp
  then have "filter (matches_id (ar_account_id ?r)) t' = [?r]"
    by (rule filter_matches_account) (simp add: t')
  moreover have "ar_account_id ?r = aid" by (simp add: new_account_row_def)
  ultimately show ?thesis
    by (simp add: get_account_def row_to_account_new [OF assms(2-4)] a)
qed

theorem create_then_get_witness:
  "\<exists>a t'. create_account 7 ''acct_2'' example_spec
      (fold account_step [CreateAccount 5 ''acct_1'' (example_spec\<lparr>as_name := ''old''\<rparr>)] []) = (Inr a, t') \<and>
     get_account ''g'' ''acct_2'' t' = Inr (Some a) \<and> acc_live_enabled a"
proof -
  let ?t = "fold account_step [CreateAccount 5 ''acct_1'' (example_spec\<lparr>as_name := ''old''\<rparr>)] []"
  obtain a t' where c: "create_account 7 ''acct_2'' example_spec ?t = (Inr a, t')" and l: "acc_live_enabled a"
    by (simp add: create_account_def insert_account_row_def new_account_row_def account_of_spec_def
        account_init_def example_spec_def Let_def)
  have "get_account ''g'' ''acct_2'' t' = Inr (Some a)"
    by (rule create_then_get [OF c]) (simp_all add: example_spec_def)
  with c l show ?thesis by blast
qed

text \<open>C11: Live trading is never switched on by accident: an account row that is live-enabled after
  any sequence of manager operations was either created with \<open>live_enabled=True\<close> or had
  \<open>set_live_enabled(id, True)\<close> called for it.\<close>

theorem live_only_by_request:
  assumes "r \<in> set (fold account_step ops [])" and "ar_live_enabled r \<noteq> 0"
  shows "(\<exists>now sp. CreateAccount now (ar_account_id r) sp \<in> set ops \<and> as_live_enabled sp) \<or>
     (\<exists>now aid. SetLive now aid True \<in> set ops \<and> matches_id aid r)"
  using assms
proof (induction ops arbitrary: r rule: rev_induct)
  case Nil
  then show ?case by simp
next
  case (snoc op ops)
  let ?t = "fold account_step ops []"
  have step: "r \<in> set (account_step op ?t)" using snoc.prems(1) by simp
  have old: ?case if "r \<in> set ?t" using snoc.IH [OF that snoc.prems(2)] by auto
  show ?case
  proof (cases op)
    case (CreateAccount now aid sp)
    with step have "r \<in> set ?t \<or> r = new_account_row now aid sp"
      by (auto simp: create_account_def insert_account_row_def split: if_splits)
    then show ?thesis
    proof
      assume "r = new_account_row now aid sp"
      with snoc.prems(2) have "ar_account_id r = aid \<and> as_live_enabled sp"
        by (simp add: new_account_row_def split: if_splits)
      with CreateAccount show ?thesis by auto
    qed (rule old)
  next
    case (SetLive now aid b)
    with step obtain q where q: "q \<in> set ?t"
      and r: "r = (if matches_id aid q
        then q\<lparr>ar_live_enabled := (if b then 1 else 0), ar_updated_at := now\<rparr> else q)"
      by (auto simp: set_live_enabled_def)
    show ?thesis
    proof (cases "matches_id aid q")
      case True
      with r snoc.prems(2) SetLive show ?thesis by (auto simp: matches_id_def split: if_splits)
    next
      case False
      with r q old show ?thesis by simp
    qed
  next
    case (DeleteAccount aid)
    with step old show ?thesis by (simp add: delete_account_def)
  qed
qed

theorem live_only_by_request_witness:
  "\<exists>r \<in> set (fold account_step [CreateAccount 5 ''acct_1'' (example_spec\<lparr>as_live_enabled := False\<rparr>),
       SetLive 6 ''acct_1'' True] []).
     ar_live_enabled r \<noteq> 0 \<and> (\<exists>now aid. SetLive now aid True \<in>
       set [CreateAccount 5 ''acct_1'' (example_spec\<lparr>as_live_enabled := False\<rparr>), SetLive 6 ''acct_1'' True] \<and>
       matches_id aid r)"
proof -
  let ?ops = "[CreateAccount 5 ''acct_1'' (example_spec\<lparr>as_live_enabled := False\<rparr>), SetLive 6 ''acct_1'' True]"
  obtain r where r: "r \<in> set (fold account_step ?ops [])" "ar_live_enabled r \<noteq> 0"
    by (simp add: create_account_def insert_account_row_def set_live_enabled_def
        new_account_row_def matches_id_def)
  from live_only_by_request [OF r] r show ?thesis by (auto simp: example_spec_def)
qed

end
