(* ===== verification/Risk.thy ===== *)
theory Risk
  imports Accounts
begin

text \<open>
  The risk gate (\<^verbatim>\<open>openpine/risk/manager.py\<close>): the built-in rules, the manager that evaluates
  them in order, and its kill switch. The clock (\<open>time.time()\<close> truncated to seconds) is an
  argument of \<open>check_order\<close>. Rules supplied by a caller through the \<open>RiskRule\<close> protocol are
  functions of the order and the account.
\<close>

subsection \<open>Rules\<close>

datatype risk_msg =
    KillSwitchActive
  | NotionalExceeds pyfloat pyfloat
  | RateExceeded string int
  | RuleMsg string
  | BlockedBy string

text \<open>Only a caller-supplied message can be the empty string, which is false in \<open>msg or ...\<close>.\<close>

fun msg_true :: "risk_msg option \<Rightarrow> bool" where
  "msg_true None = False"
| "msg_true (Some (RuleMsg s)) = (s \<noteq> [])"
| "msg_true (Some _) = True"

datatype risk_rule =
    KillSwitchRule
  | MaxPositionSizeRule (max_notional: pyfloat)
  | MaxOrdersPerMinuteRule (max_orders: int) (order_counts: "string \<Rightarrow> int list")
  | CallerRule string "order_intent \<Rightarrow> account \<Rightarrow> bool \<times> risk_msg option"

primrec rule_class :: "risk_rule \<Rightarrow> string" where
  "rule_class KillSwitchRule = ''KillSwitchRule''"
| "rule_class (MaxPositionSizeRule m) = ''MaxPositionSizeRule''"
| "rule_class (MaxOrdersPerMinuteRule m c) = ''MaxOrdersPerMinuteRule''"
| "rule_class (CallerRule n f) = n"

definition kill_switch_check :: "bool \<Rightarrow> bool \<times> risk_msg option" where
  "kill_switch_check ks = (if ks then (False, Some KillSwitchActive) else (True, None))"

definition max_position_check :: "pyfloat \<Rightarrow> order_intent \<Rightarrow> bool \<times> risk_msg option" where
  "max_position_check limit oi =
     (case oi_price oi of
        None \<Rightarrow> (True, None)
      | Some p \<Rightarrow>
          (let notional = fmul p (oi_quantity oi)
           in if fgt notional limit then (False, Some (NotionalExceeds notional limit))
              else (True, None)))"

definition max_orders_check ::
  "int \<Rightarrow> int \<Rightarrow> (string \<Rightarrow> int list) \<Rightarrow> account
   \<Rightarrow> (bool \<times> risk_msg option) \<times> (string \<Rightarrow> int list)"
where
  "max_orders_check now limit counts acc =
     (let cutoff = now - 60;
          recent = filter (\<lambda>ts. ts > cutoff) (counts (acc_id acc));
          cleaned = counts(acc_id acc := recent)
      in if int (length recent) \<ge> limit
         then ((False, Some (RateExceeded (acc_id acc) limit)), cleaned)
         else ((True, None), cleaned(acc_id acc := recent @ [now])))"

text \<open>\<open>rule.check(order, account)\<close>: the verdict and the rule with its updated state.\<close>

fun rule_check ::
  "int \<Rightarrow> bool \<Rightarrow> order_intent \<Rightarrow> account \<Rightarrow> risk_rule \<Rightarrow> (bool \<times> risk_msg option) \<times> risk_rule"
where
  "rule_check now ks oi acc KillSwitchRule = (kill_switch_check ks, KillSwitchRule)"
| "rule_check now ks oi acc (MaxPositionSizeRule m) =
     (max_position_check m oi, MaxPositionSizeRule m)"
| "rule_check now ks oi acc (MaxOrdersPerMinuteRule m c) =
     (let (v, c') = max_orders_check now m c acc in (v, MaxOrdersPerMinuteRule m c'))"
| "rule_check now ks oi acc (CallerRule n f) = (f oi acc, CallerRule n f)"

subsection \<open>The manager\<close>

record risk_manager =
  rm_kill_switch :: bool
  rm_rules :: "risk_rule list"
  rm_violations :: "string \<Rightarrow> risk_msg list"

definition add_rule :: "risk_rule \<Rightarrow> risk_manager \<Rightarrow> risk_manager" where
  "add_rule r m = m\<lparr>rm_rules := rm_rules m @ [r]\<rparr>"

definition risk_manager_init :: "bool \<Rightarrow> risk_manager" where
  "risk_manager_init ks =
     add_rule KillSwitchRule \<lparr>rm_kill_switch = ks, rm_rules = [], rm_violations = (\<lambda>_. [])\<rparr>"

text \<open>The loop of \<open>check_order\<close>: the verdict, the violation it records, and the rules with the
  state their checks left behind; rules after the first failure are not called.\<close>

fun check_rules ::
  "int \<Rightarrow> bool \<Rightarrow> order_intent \<Rightarrow> account \<Rightarrow> risk_rule list
   \<Rightarrow> (bool \<times> risk_msg option) \<times> risk_msg option \<times> risk_rule list"
where
  "check_rules now ks oi acc [] = ((True, None), None, [])"
| "check_rules now ks oi acc (r # rs) =
     (let ((allowed, msg), r') = rule_check now ks oi acc r
      in if \<not> allowed
         then ((False, msg), Some (if msg_true msg then the msg else BlockedBy (rule_class r)), r' # rs)
         else (let (v, rec, rs') = check_rules now ks oi acc rs in (v, rec, r' # rs')))"

definition record_violation ::
  "string \<Rightarrow> risk_msg option \<Rightarrow> (string \<Rightarrow> risk_msg list) \<Rightarrow> (string \<Rightarrow> risk_msg list)"
where
  "record_violation aid v vs = (case v of None \<Rightarrow> vs | Some e \<Rightarrow> vs(aid := vs aid @ [e]))"

definition check_order ::
  "int \<Rightarrow> order_intent \<Rightarrow> account \<Rightarrow> risk_manager \<Rightarrow> (bool \<times> risk_msg option) \<times> risk_manager"
where
  "check_order now oi acc m =
     (let (v, rec, rs) = check_rules now (rm_kill_switch m) oi acc (rm_rules m)
      in (v, m\<lparr>rm_rules := rs,
               rm_violations := record_violation (acc_id acc) rec (rm_violations m)\<rparr>))"

definition set_kill_switch :: "bool \<Rightarrow> risk_manager \<Rightarrow> risk_manager" where
  "set_kill_switch b m = m\<lparr>rm_kill_switch := b\<rparr>"

definition get_violations :: "string \<Rightarrow> risk_manager \<Rightarrow> risk_msg list" where
  "get_violations aid m = rm_violations m aid"

definition clear_violations :: "string \<Rightarrow> risk_manager \<Rightarrow> risk_manager" where
  "clear_violations aid m = m\<lparr>rm_violations := (rm_violations m)(aid := [])\<rparr>"

datatype risk_op =
    AddRule risk_rule
  | CheckOrder int order_intent account
  | SetKillSwitch bool
  | ClearViolations string

primrec risk_step :: "risk_op \<Rightarrow> risk_manager \<Rightarrow> risk_manager" where
  "risk_step (AddRule r) m = add_rule r m"
| "risk_step (CheckOrder now oi acc) m = snd (check_order now oi acc m)"
| "risk_step (SetKillSwitch b) m = set_kill_switch b m"
| "risk_step (ClearViolations aid) m = clear_violations aid m"

subsection \<open>The kill switch stays first\<close>

definition kill_switch_first :: "risk_manager \<Rightarrow> bool" where
  "kill_switch_first m \<longleftrightarrow> (case rm_rules m of [] \<Rightarrow> False | r # _ \<Rightarrow> r = KillSwitchRule)"

lemma kill_switch_firstD: "kill_switch_first m \<Longrightarrow> \<exists>rs. rm_rules m = KillSwitchRule # rs"
  by (simp add: kill_switch_first_def split: list.splits)

lemma risk_init_inv [inv_intros]: "kill_switch_first (risk_manager_init ks)"
  by (simp add: kill_switch_first_def risk_manager_init_def add_rule_def)

lemma check_order_inv [inv_intros]:
  "kill_switch_first m \<Longrightarrow> kill_switch_first (snd (check_order now oi acc m))"
  by (drule kill_switch_firstD)
    (auto simp: kill_switch_first_def check_order_def kill_switch_check_def Let_def
      split: prod.splits if_splits)

lemma check_order_kill_switch [frame_simps]:
  "rm_kill_switch (snd (check_order now oi acc m)) = rm_kill_switch m"
  by (simp add: check_order_def split: prod.splits)

interpretation rk: invariant_machine risk_step kill_switch_first
proof
  fix m op
  assume "kill_switch_first m"
  then show "kill_switch_first (risk_step op m)"
  proof (cases op)
    case (CheckOrder now oi acc)
    with \<open>kill_switch_first m\<close> show ?thesis by (simp add: check_order_inv)
  qed (auto simp: kill_switch_first_def add_rule_def set_kill_switch_def clear_violations_def
      split: list.splits)
qed

lemma killed_check_order:
  assumes "kill_switch_first m" and "rm_kill_switch m"
  shows "check_order now oi acc m = ((False, Some KillSwitchActive),
     m\<lparr>rm_violations := (rm_violations m)
        (acc_id acc := rm_violations m (acc_id acc) @ [KillSwitchActive])\<rparr>)"
  using kill_switch_firstD [OF assms(1)] assms(2)
  by (auto simp: check_order_def kill_switch_check_def record_violation_def)

text \<open>First-failure semantics of the loop.\<close>

lemma check_rules_allowed_iff:
  "fst (fst (check_rules now ks oi acc rs)) \<longleftrightarrow>
     (\<forall>r \<in> set rs. fst (fst (rule_check now ks oi acc r)))"
  by (induction rs) (auto split: prod.splits)

lemma check_rules_first_failure:
  assumes "\<forall>r \<in> set xs. fst (fst (rule_check now ks oi acc r))"
    and "rule_check now ks oi acc r = ((False, msg), r')"
  shows "check_rules now ks oi acc (xs @ r # ys) =
    ((False, msg), Some (if msg_true msg then the msg else BlockedBy (rule_class r)),
     map (\<lambda>x. snd (rule_check now ks oi acc x)) xs @ r' # ys)"
  using assms by (induction xs) (auto split: prod.splits)

lemma check_rules_all_pass:
  assumes "\<forall>r \<in> set rs. fst (fst (rule_check now ks oi acc r))"
  shows "check_rules now ks oi acc rs =
    ((True, None), None, map (\<lambda>x. snd (rule_check now ks oi acc x)) rs)"
  using assms by (induction rs) (auto split: prod.splits)

subsection \<open>The sliding window of the rate rule\<close>

text \<open>A sequence of checks of one rule, each with its clock reading: the account ids and times of
  the orders it let through, in order.\<close>

fun allowed_orders ::
  "(int \<times> order_intent \<times> account) list \<Rightarrow> risk_rule \<Rightarrow> (string \<times> int) list"
where
  "allowed_orders [] r = []"
| "allowed_orders ((now, oi, acc) # cs) r =
     (let ((allowed, _), r') = rule_check now False oi acc r
      in (if allowed then [(acc_id acc, now)] else []) @ allowed_orders cs r')"

definition stamps_of :: "string \<Rightarrow> (string \<times> int) list \<Rightarrow> int list" where
  "stamps_of aid ps = map snd (filter (\<lambda>p. fst p = aid) ps)"

lemma stamps_of_simps [simp]:
  "stamps_of aid [] = []"
  "stamps_of aid ((b, t) # ps) = (if b = aid then t # stamps_of aid ps else stamps_of aid ps)"
  "stamps_of aid (ps @ qs) = stamps_of aid ps @ stamps_of aid qs"
  by (simp_all add: stamps_of_def)

definition in_window :: "int \<Rightarrow> int list \<Rightarrow> nat" where
  "in_window t ts = length (filter (\<lambda>s. t - 60 < s \<and> s \<le> t) ts)"

text \<open>What the stored timestamps of an account say about the orders \<open>hist\<close> allowed so far, when
  no check will come before time \<open>lo\<close>.\<close>

definition window_inv :: "int \<Rightarrow> int \<Rightarrow> int list \<Rightarrow> int list \<Rightarrow> bool" where
  "window_inv lo limit hist stored \<longleftrightarrow>
     (\<forall>s \<in> set hist. s \<le> lo) \<and>
     (\<forall>now \<ge> lo. filter (\<lambda>s. s > now - 60) stored = filter (\<lambda>s. s > now - 60) hist) \<and>
     (\<forall>t. int (in_window t hist) \<le> max 0 limit)"

lemma window_inv_mono: "window_inv lo limit hist stored \<Longrightarrow> lo \<le> lo' \<Longrightarrow> window_inv lo' limit hist stored"
  unfolding window_inv_def by (meson order_trans)

lemma window_inv_clean:
  assumes "window_inv lo limit hist stored" and "lo \<le> now"
  shows "window_inv now limit hist (filter (\<lambda>s. s > now - 60) stored)"
proof -
  have "filter (\<lambda>s. s > n - 60) (filter (\<lambda>s. s > now - 60) stored) = filter (\<lambda>s. s > n - 60) stored"
    if "n \<ge> now" for n
    using that by (induction stored) auto
  then show ?thesis
    using window_inv_mono [OF assms] unfolding window_inv_def by metis
qed

lemma in_window_snoc:
  assumes "\<forall>s \<in> set hist. s \<le> now"
  shows "in_window t (hist @ [now]) \<le> max (in_window t hist) (Suc (length (filter (\<lambda>s. s > now - 60) hist)))"
proof (cases "now \<le> t")
  case True
  have "length (filter (\<lambda>s. t - 60 < s \<and> s \<le> t) hist) \<le> length (filter (\<lambda>s. s > now - 60) hist)"
    using True by (induction hist) auto
  then show ?thesis by (simp add: in_window_def)
qed (simp add: in_window_def)

lemma window_inv_allow:
  assumes inv: "window_inv now limit hist recent"
    and recent: "recent = filter (\<lambda>s. s > now - 60) recent"
    and room: "int (length recent) < limit"
  shows "window_inv now limit (hist @ [now]) (recent @ [now])"
proof -
  from inv recent have len: "length (filter (\<lambda>s. s > now - 60) hist) = length recent"
    by (simp add: window_inv_def)
  have "int (in_window t (hist @ [now])) \<le> max 0 limit" for t
  proof -
    from inv have "int (in_window t hist) \<le> max 0 limit" by (simp add: window_inv_def)
    moreover have "in_window t (hist @ [now]) \<le> max (in_window t hist) (Suc (length recent))"
      using in_window_snoc [of hist now t] inv len by (simp add: window_inv_def)
    ultimately show ?thesis using room by linarith
  qed
  with inv show ?thesis by (simp add: window_inv_def)
qed

lemma max_orders_check_window:
  assumes inv: "window_inv lo limit hist (counts aid)" and "lo \<le> now"
    and c: "max_orders_check now limit counts acc = ((allowed, msg), counts')"
  shows "window_inv now limit (hist @ (if allowed \<and> acc_id acc = aid then [now] else [])) (counts' aid)"
proof -
  let ?recent = "filter (\<lambda>s. s > now - 60) (counts aid)"
  have clean: "window_inv now limit hist ?recent" by (rule window_inv_clean [OF inv \<open>lo \<le> now\<close>])
  show ?thesis
  proof (cases "acc_id acc = aid")
    case True
    from window_inv_allow [OF clean] clean c True show ?thesis
      by (auto simp: max_orders_check_def Let_def split: if_splits)
  next
    case False
    with c have "counts' aid = counts aid"
      by (auto simp: max_orders_check_def Let_def split: if_splits)
    with window_inv_mono [OF inv \<open>lo \<le> now\<close>] False show ?thesis by simp
  qed
qed

lemma allowed_orders_window:
  assumes "sorted (lo # map fst cs)" and "window_inv lo limit hist (counts aid)"
  shows "int (in_window t (hist @ stamps_of aid (allowed_orders cs (MaxOrdersPerMinuteRule limit counts))))
    \<le> max 0 limit"
  using assms
proof (induction cs arbitrary: lo hist counts)
  case Nil
  then show ?case by (simp add: window_inv_def)
next
  case (Cons c cs)
  obtain now oi acc where c: "c = (now, oi, acc)" by (cases c)
  obtain allowed msg counts' where ch: "max_orders_check now limit counts acc = ((allowed, msg), counts')"
    by (metis surj_pair)
  let ?h = "hist @ (if allowed \<and> acc_id acc = aid then [now] else [])"
  from Cons.prems(1) c have "lo \<le> now" "sorted (now # map fst cs)" by auto
  from Cons.IH [of now ?h counts', OF this(2) max_orders_check_window [OF Cons.prems(2) this(1) ch]]
  show ?case by (auto simp: c ch split: if_splits)
qed

subsection \<open>Properties\<close>

definition example_account :: account where
  "example_account = \<lparr>acc_account_id = ''acct_1'', acc_name = ''main'', acc_provider = ''binance'',
     acc_exchange = ''binance'', acc_market_type = ''spot'', acc_mode = LIVE, acc_live_enabled = True,
     acc_api_key_ref = None, acc_api_secret_ref = None, acc_permissions = None,
     acc_api_key_hash = None, acc_config = JObj [], acc_created_at = 0, acc_updated_at = 0\<rparr>"

definition risk_example_intent :: order_intent where
  "risk_example_intent = example_intent ''c1''"

text \<open>The kill switch is a hard gate. Whatever rules were added and whatever checks were made
  before, once \<open>set_kill_switch(True)\<close> was called every order of every account is refused with
  the kill-switch message, the refusal is recorded for that account, and no other rule is
  consulted or changed, until the switch is turned off again.\<close>

theorem kill_switch_blocks_all:
  assumes "m = fold risk_step ops (risk_step (SetKillSwitch True) (fold risk_step before (risk_manager_init ks)))"
    and "SetKillSwitch False \<notin> set ops"
  shows "check_order now oi acc m = ((False, Some KillSwitchActive),
     m\<lparr>rm_violations := (rm_violations m)
        (acc_id acc := get_violations (acc_id acc) m @ [KillSwitchActive])\<rparr>)"
proof -
  let ?m0 = "risk_step (SetKillSwitch True) (fold risk_step before (risk_manager_init ks))"
  have i0: "kill_switch_first ?m0" by (intro rk.step_inv rk.run_inv risk_init_inv)
  have "rm_kill_switch (fold risk_step ops ?m0)"
  proof (rule rk.run_stable [OF i0])
    fix s :: risk_manager and op
    assume "rm_kill_switch s" and "op \<in> set ops"
    moreover from assms(2) \<open>op \<in> set ops\<close> have "op \<noteq> SetKillSwitch False" by blast
    ultimately show "rm_kill_switch (risk_step op s)"
      by (cases op) (auto simp: add_rule_def set_kill_switch_def clear_violations_def frame_simps)
  qed (simp add: set_kill_switch_def)
  with rk.run_inv [OF i0, of ops] assms(1) show ?thesis
    unfolding get_violations_def by (intro killed_check_order) simp_all
qed

theorem kill_switch_blocks_all_witness:
  "fst (check_order 100 risk_example_intent example_account
     (fold risk_step [AddRule (MaxPositionSizeRule (Fin 10)), CheckOrder 99 risk_example_intent example_account]
       (risk_step (SetKillSwitch True) (fold risk_step [] (risk_manager_init False))))) =
   (False, Some KillSwitchActive)"
  by (subst kill_switch_blocks_all [where before = "[]" and ks = False
      and ops = "[AddRule (MaxPositionSizeRule (Fin 10)), CheckOrder 99 risk_example_intent example_account]"])
    simp_all

text \<open>\<open>check_order\<close> allows an order exactly when every rule passes; otherwise the message
  returned is that of the first failing rule in registration order, exactly one violation is
  recorded (for that account only), the rules before it keep the state their own checks left,
  and the rules after it are untouched.\<close>

theorem check_order_first_failure:
  assumes rules: "rm_rules m = xs @ r # ys"
    and pass: "\<forall>x \<in> set xs. fst (fst (rule_check now (rm_kill_switch m) oi acc x))"
    and fail: "rule_check now (rm_kill_switch m) oi acc r = ((False, msg), r')"
  shows "check_order now oi acc m = ((False, msg),
     m\<lparr>rm_rules := map (\<lambda>x. snd (rule_check now (rm_kill_switch m) oi acc x)) xs @ r' # ys,
       rm_violations := (rm_violations m)(acc_id acc := rm_violations m (acc_id acc) @
          [if msg_true msg then the msg else BlockedBy (rule_class r)])\<rparr>)"
  unfolding check_order_def rules check_rules_first_failure [OF pass fail]
  by (simp add: record_violation_def)

theorem check_order_first_failure_witness:
  "fst (check_order 100 (risk_example_intent\<lparr>oi_price := Some (Fin 3), oi_quantity := Fin 4\<rparr>) example_account
     (fold risk_step [AddRule (MaxOrdersPerMinuteRule 5 (\<lambda>_. [])), AddRule (MaxPositionSizeRule (Fin 10)),
        AddRule (CallerRule ''Never'' (\<lambda>_ _. (False, None)))] (risk_manager_init False))) =
   (False, Some (NotionalExceeds (fmul (Fin 3) (Fin 4)) (Fin 10)))"
proof -
  have notional: "fgt (fmul (Fin 3) (Fin 4)) (Fin 10)" by simp
  show ?thesis
    by (subst check_order_first_failure
        [where xs = "[KillSwitchRule, MaxOrdersPerMinuteRule 5 (\<lambda>_. [])]"
          and r = "MaxPositionSizeRule (Fin 10)" and r' = "MaxPositionSizeRule (Fin 10)"
          and ys = "[CallerRule ''Never'' (\<lambda>_ _. (False, None))]"])
      (use notional in \<open>simp_all add: risk_manager_init_def add_rule_def kill_switch_check_def
        max_orders_check_def max_position_check_def Let_def\<close>)
qed



text \<open>The default manager never reads \<open>live_enabled\<close>: with the switch off it lets every order of
  every account through.\<close>

lemma default_manager_allows: "fst (check_order now oi acc (risk_manager_init False)) = (True, None)"
  by (simp add: check_order_def risk_manager_init_def add_rule_def kill_switch_check_def)

end
