(* ===== verification/PyNum.thy ===== *)
theory PyNum
  imports PyFloat
begin

text \<open>
  The parts of Python's number and text conversions the sources use: the exceptions they raise,
  \<open>float(text)\<close>, \<open>str(float)\<close> (the shortest decimal that reads back), the exact \<open>Decimal\<close> of that
  text, float division and \<open>round\<close>, and scalar values with \<open>str\<close>, \<open>float\<close> and truth value.
\<close>

datatype py_exn =
    PyValueError
  | PyTypeError
  | PyAttributeError
  | PyOverflowError
  | PyZeroDivisionError
  | PyKeyError

subsection \<open>Division and rounding\<close>

definition fsub :: "pyfloat \<Rightarrow> pyfloat \<Rightarrow> pyfloat" where
  "fsub x y = fadd x (fneg y)"

text \<open>\<open>x / y\<close>; only a zero divisor raises.\<close>

fun fdiv :: "pyfloat \<Rightarrow> pyfloat \<Rightarrow> py_exn + pyfloat" where
  "fdiv x (Fin b) = (if b = 0 then Inl PyZeroDivisionError else
     Inr (case x of Fin a \<Rightarrow> rnd (a / b) | PInf \<Rightarrow> (if 0 < b then PInf else NInf)
          | NInf \<Rightarrow> (if 0 < b then NInf else PInf) | NaN \<Rightarrow> NaN))"
| "fdiv (Fin a) y = Inr (if y = NaN then NaN else Fin 0)"
| "fdiv x y = Inr NaN"

text \<open>\<open>round(x)\<close> to the nearest integer, ties to even.\<close>

fun py_round :: "pyfloat \<Rightarrow> py_exn + int" where
  "py_round (Fin a) = Inr (round_half_even a)"
| "py_round NaN = Inl PyValueError"
| "py_round _ = Inl PyOverflowError"

subsection \<open>The shortest decimal of a float\<close>

definition exp10 :: "int \<Rightarrow> rat" where
  "exp10 e = (if 0 \<le> e then 10 ^ nat e else 1 / 10 ^ nat (- e))"

definition num_digits :: "int \<Rightarrow> int" where
  "num_digits n = int (length (show_nat (nat n)))"

text \<open>The exponent \<open>e\<close> with \<open>10 ^ e \<le> v < 10 ^ (e + 1)\<close>, for positive \<open>v\<close>.\<close>

definition sci_exp :: "rat \<Rightarrow> int" where
  "sci_exp v = (let (n, d) = quotient_of v; e = num_digits n - num_digits d
     in if exp10 e \<le> v then e else e - 1)"

text \<open>The neighbours of \<open>v\<close> with \<open>n\<close> significant digits that read back as \<open>v\<close>; the closer one.\<close>

definition best_decimal :: "rat \<Rightarrow> nat \<Rightarrow> rat option" where
  "best_decimal v n =
     (let u = exp10 (sci_exp v - (int n - 1));
          lo = of_int \<lfloor>v / u\<rfloor> * u; hi = lo + u
      in if rnd lo = Fin v \<and> (rnd hi \<noteq> Fin v \<or> v - lo \<le> hi - v) then Some lo
         else if rnd hi = Fin v then Some hi else None)"

fun shortest_from :: "rat \<Rightarrow> nat list \<Rightarrow> rat" where
  "shortest_from v [] = v"
| "shortest_from v (n # ns) =
     (case best_decimal v n of Some c \<Rightarrow> c | None \<Rightarrow> shortest_from v ns)"

text \<open>\<open>Decimal(str(x))\<close> of a finite float, as the rational it denotes.\<close>

definition decimal_of :: "rat \<Rightarrow> rat" where
  "decimal_of v = (if v = 0 then 0 else if 0 < v then shortest_from v [1..<18]
     else - shortest_from (- v) [1..<18])"

lemma shortest_from_rnd: "rnd v = Fin v \<Longrightarrow> rnd (shortest_from v ns) = Fin v"
  by (induction ns) (auto simp: best_decimal_def Let_def split: option.splits if_splits)

subsection \<open>Text of floats\<close>

text \<open>A positive decimal as its digits and the position of the decimal point.\<close>

function strip_zeros :: "nat \<Rightarrow> int \<Rightarrow> nat \<times> int" where
  "strip_zeros m k = (if m \<noteq> 0 \<and> m mod 10 = 0 then strip_zeros (m div 10) (k + 1) else (m, k))"
  by pat_completeness auto

termination by (relation "measure fst") auto

declare strip_zeros.simps [simp del]

definition digits_of :: "rat \<Rightarrow> string \<times> int" where
  "digits_of c = (let k0 = sci_exp c - 17; (m, k) = strip_zeros (nat \<lfloor>c / exp10 k0\<rfloor>) k0
     in (show_nat m, int (length (show_nat m)) + k))"

definition zeros :: "int \<Rightarrow> string" where
  "zeros n = replicate (nat n) (CHR ''0'')"

definition exponent_text :: "int \<Rightarrow> string" where
  "exponent_text e = (if e < 0 then ''e-'' else ''e+'') @
     (if \<bar>e\<bar> < 10 then ''0'' else []) @ show_nat (nat \<bar>e\<bar>)"

definition positive_repr :: "rat \<Rightarrow> string" where
  "positive_repr v =
     (let (ds, p) = digits_of (shortest_from v [1..<18]); n = int (length ds)
      in if -4 < p \<and> p \<le> 16
         then (if p \<le> 0 then ''0.'' @ zeros (- p) @ ds
               else if n \<le> p then ds @ zeros (p - n) @ ''.0''
               else take (nat p) ds @ ''.'' @ drop (nat p) ds)
         else take 1 ds @ (if n = 1 then [] else ''.'' @ drop 1 ds) @ exponent_text (p - 1))"

fun float_repr :: "pyfloat \<Rightarrow> string" where
  "float_repr (Fin v) = (if v = 0 then ''0.0'' else if 0 < v then positive_repr v
     else ''-'' @ positive_repr (- v))"
| "float_repr PInf = ''inf''"
| "float_repr NInf = ''-inf''"
| "float_repr NaN = ''nan''"

subsection \<open>Floats from text\<close>

definition is_digit :: "char \<Rightarrow> bool" where
  "is_digit c \<longleftrightarrow> CHR ''0'' \<le> c \<and> c \<le> CHR ''9''"

definition is_space :: "char \<Rightarrow> bool" where
  "is_space c \<longleftrightarrow> c = CHR '' '' \<or> (9 \<le> (of_char c :: nat) \<and> (of_char c :: nat) \<le> 13) \<or>
     (28 \<le> (of_char c :: nat) \<and> (of_char c :: nat) \<le> 31)"

definition strip :: "string \<Rightarrow> string" where
  "strip s = rev (dropWhile is_space (rev (dropWhile is_space s)))"

text \<open>An underscore is dropped between two digits and refused anywhere else.\<close>

fun drop_underscores :: "bool \<Rightarrow> string \<Rightarrow> string option" where
  "drop_underscores prev [] = Some []"
| "drop_underscores prev (c # cs) =
     (if c = CHR ''_''
      then (case cs of [] \<Rightarrow> None
            | d # _ \<Rightarrow> if prev \<and> is_digit d then drop_underscores False cs else None)
      else map_option (Cons c) (drop_underscores (is_digit c) cs))"

definition split_sign :: "string \<Rightarrow> bool \<times> string" where
  "split_sign s = (case s of [] \<Rightarrow> (False, [])
     | c # cs \<Rightarrow> if c = CHR ''-'' then (True, cs) else if c = CHR ''+'' then (False, cs) else (False, s))"

definition digits_value :: "string \<Rightarrow> int" where
  "digits_value ds = int (read_nat ds)"

definition parse_exponent :: "string \<Rightarrow> int option" where
  "parse_exponent s = (case s of [] \<Rightarrow> Some 0
     | c # cs \<Rightarrow> if char_lower c \<noteq> CHR ''e'' then None
         else (let (neg, ds) = split_sign cs
               in if ds = [] \<or> \<not> list_all is_digit ds then None
                  else Some (if neg then - digits_value ds else digits_value ds)))"

definition parse_unsigned :: "string \<Rightarrow> rat option" where
  "parse_unsigned s =
     (let ip = takeWhile is_digit s; r = dropWhile is_digit s;
          dotted = (case r of [] \<Rightarrow> False | c # _ \<Rightarrow> c = CHR ''.'');
          fp = (if dotted then takeWhile is_digit (tl r) else []);
          rest = (if dotted then dropWhile is_digit (tl r) else r)
      in if ip = [] \<and> fp = [] then None
         else map_option (\<lambda>e. of_int (digits_value (ip @ fp)) * exp10 (e - int (length fp)))
                (parse_exponent rest))"

definition parse_float :: "string \<Rightarrow> py_exn + pyfloat" where
  "parse_float text =
     (case drop_underscores False (strip text) of
        None \<Rightarrow> Inl PyValueError
      | Some s \<Rightarrow>
          (let (neg, u) = split_sign s
           in if lower u \<in> {''inf'', ''infinity''} then Inr (if neg then NInf else PInf)
              else if lower u = ''nan'' then Inr NaN
              else (case parse_unsigned u of
                      None \<Rightarrow> Inl PyValueError
                    | Some q \<Rightarrow> Inr (rnd (if neg then - q else q)))))"

subsection \<open>Scalar values\<close>

datatype pyval = VNone | VBool bool | VInt int | VFloat pyfloat | VStr string

fun val_true :: "pyval \<Rightarrow> bool" where
  "val_true VNone = False"
| "val_true (VBool b) = b"
| "val_true (VInt i) = (i \<noteq> 0)"
| "val_true (VFloat x) = float_true x"
| "val_true (VStr s) = (s \<noteq> [])"

definition val_or :: "pyval \<Rightarrow> pyval \<Rightarrow> pyval" where
  "val_or x y = (if val_true x then x else y)"

fun py_str :: "pyval \<Rightarrow> string" where
  "py_str VNone = ''None''"
| "py_str (VBool b) = (if b then ''True'' else ''False'')"
| "py_str (VInt i) = show_int i"
| "py_str (VFloat x) = float_repr x"
| "py_str (VStr s) = s"

text \<open>\<open>float(value)\<close>; an integer beyond the float range raises.\<close>

fun py_float :: "pyval \<Rightarrow> py_exn + pyfloat" where
  "py_float VNone = Inl PyTypeError"
| "py_float (VBool b) = Inr (Fin (if b then 1 else 0))"
| "py_float (VInt i) = (case float_of_int i of Fin v \<Rightarrow> Inr (Fin v) | _ \<Rightarrow> Inl PyOverflowError)"
| "py_float (VFloat x) = Inr x"
| "py_float (VStr s) = parse_float s"

text \<open>\<open>int(value)\<close>: a float is cut towards zero, infinities and NaN raise; text is an optional sign and
  decimal digits.\<close>

definition parse_int :: "string \<Rightarrow> py_exn + int" where
  "parse_int text =
     (case drop_underscores False (strip text) of
        None \<Rightarrow> Inl PyValueError
      | Some s \<Rightarrow>
          (let (neg, ds) = split_sign s
           in if ds = [] \<or> \<not> list_all is_digit ds then Inl PyValueError
              else Inr (if neg then - digits_value ds else digits_value ds)))"

fun float_to_int :: "pyfloat \<Rightarrow> py_exn + int" where
  "float_to_int (Fin q) = Inr (if q < 0 then - \<lfloor>- q\<rfloor> else \<lfloor>q\<rfloor>)"
| "float_to_int NaN = Inl PyValueError"
| "float_to_int _ = Inl PyOverflowError"

fun py_int :: "pyval \<Rightarrow> py_exn + int" where
  "py_int VNone = Inl PyTypeError"
| "py_int (VBool b) = Inr (if b then 1 else 0)"
| "py_int (VInt i) = Inr i"
| "py_int (VFloat x) = float_to_int x"
| "py_int (VStr s) = parse_int s"

text \<open>\<open>value.lower()\<close>, which only text has.\<close>

fun val_lower :: "pyval \<Rightarrow> py_exn + string" where
  "val_lower (VStr s) = Inr (lower s)"
| "val_lower _ = Inl PyAttributeError"

definition dict_get :: "(string \<times> pyval) list \<Rightarrow> string \<Rightarrow> pyval \<Rightarrow> pyval" where
  "dict_get d k dflt = (case map_of d k of Some v \<Rightarrow> v | None \<Rightarrow> dflt)"

subsection \<open>JSON objects\<close>

fun json_items :: "json \<Rightarrow> (string \<times> json) list option" where
  "json_items (JObj kvs) = Some kvs"
| "json_items _ = None"

definition json_get :: "(string \<times> json) list \<Rightarrow> string \<Rightarrow> json" where
  "json_get d k = (case map_of d k of Some v \<Rightarrow> v | None \<Rightarrow> JNull)"

end
