(* ===== verification/Instrument.thy ===== *)
theory Instrument
  imports PyNum
begin

text \<open>
  \<open>InstrumentRules\<close> (\<^verbatim>\<open>openpine/execution/models.py\<close>): the local precision, size and notional
  checks made before an order may reach an exchange. The floats go through \<open>Decimal(str(x))\<close> as in
  the source; \<open>Decimal\<close> remainders use the default context of 28 digits. A verdict \<open>(True, None)\<close>
  is \<open>None\<close> and \<open>(False, msg)\<close> is \<open>Some msg\<close>; the exceptions that escape are on the left.
\<close>

record instrument_rules =
  ir_symbol :: string
  ir_tick_size :: pyfloat
  ir_step_size :: pyfloat
  ir_min_qty :: pyfloat
  ir_min_notional :: pyfloat
  ir_max_qty :: "pyfloat option"
  ir_market_order_supported :: bool

datatype rule_msg =
    PriceNotPositive pyfloat
  | PriceMisaligned pyfloat pyfloat
  | QuantityNotPositive pyfloat
  | QuantityMisaligned pyfloat pyfloat
  | QuantityBelowMin pyfloat pyfloat
  | QuantityAboveMax pyfloat pyfloat
  | NotionalBelowMin pyfloat pyfloat
  | MarketNotSupported string
  | NoInstrumentRules string

definition is_aligned_float :: "pyfloat \<Rightarrow> pyfloat \<Rightarrow> py_exn + bool" where
  "is_aligned_float x step =
     (if fle step (Fin 0) then Inr False
      else res_bind (fdiv x step) (\<lambda>q. res_bind (py_round q) (\<lambda>n.
             Inr (flt (fabs (fsub x (fmul (float_of_int n) step))) (rnd (1 / 10 ^ 9))))))"

text \<open>The remainder of two decimals, with the sign of the dividend; \<open>InvalidOperation\<close> (\<open>None\<close>)
  when the integer quotient has more than 28 digits.\<close>

definition trunc_div :: "rat \<Rightarrow> rat \<Rightarrow> int" where
  "trunc_div x y = (if 0 \<le> x / y then \<lfloor>x / y\<rfloor> else \<lceil>x / y\<rceil>)"

definition decimal_rem :: "rat \<Rightarrow> rat \<Rightarrow> rat option" where
  "decimal_rem x y = (if 10 ^ 28 \<le> \<bar>trunc_div x y\<bar> then None else Some (x - of_int (trunc_div x y) * y))"

definition remainder_ok :: "rat \<Rightarrow> bool" where
  "remainder_ok r \<longleftrightarrow> r = 0 \<or> r < 1 / 10 ^ 9"

text \<open>Infinite or NaN operands other than an infinite step make the remainder, or its comparison,
  an invalid operation, which falls back to the float check.\<close>

definition is_aligned_decimal :: "pyfloat \<Rightarrow> pyfloat \<Rightarrow> py_exn + bool" where
  "is_aligned_decimal x step =
     (if fle step (Fin 0) then Inr False
      else (case (x, step) of
              (Fin v, Fin s) \<Rightarrow>
                (case decimal_rem (decimal_of v) (decimal_of s) of
                   Some r \<Rightarrow> Inr (remainder_ok r)
                 | None \<Rightarrow> is_aligned_float x step)
            | (Fin v, PInf) \<Rightarrow> Inr (remainder_ok (decimal_of v))
            | _ \<Rightarrow> is_aligned_float x step))"

definition validate_price :: "instrument_rules \<Rightarrow> pyfloat option \<Rightarrow> py_exn + rule_msg option" where
  "validate_price rules price =
     (case price of
        None \<Rightarrow> Inr None
      | Some p \<Rightarrow>
          if fle p (Fin 0) then Inr (Some (PriceNotPositive p))
          else res_bind (is_aligned_decimal p (ir_tick_size rules)) (\<lambda>ok.
                 if \<not> ok then Inr (Some (PriceMisaligned p (ir_tick_size rules))) else Inr None))"

definition validate_quantity :: "instrument_rules \<Rightarrow> pyfloat \<Rightarrow> py_exn + rule_msg option" where
  "validate_quantity rules q =
     (if fle q (Fin 0) then Inr (Some (QuantityNotPositive q))
      else res_bind (is_aligned_decimal q (ir_step_size rules)) (\<lambda>ok.
             if \<not> ok then Inr (Some (QuantityMisaligned q (ir_step_size rules)))
             else if flt q (ir_min_qty rules) then Inr (Some (QuantityBelowMin q (ir_min_qty rules)))
             else (case ir_max_qty rules of
                     None \<Rightarrow> Inr None
                   | Some m \<Rightarrow> if fgt q m then Inr (Some (QuantityAboveMax q m)) else Inr None)))"

definition validate_notional :: "instrument_rules \<Rightarrow> pyfloat \<Rightarrow> pyfloat option \<Rightarrow> rule_msg option" where
  "validate_notional rules q price =
     (case price of
        None \<Rightarrow> None
      | Some p \<Rightarrow>
          (let notional = fmul p q
           in if flt notional (ir_min_notional rules)
              then Some (NotionalBelowMin notional (ir_min_notional rules)) else None))"

definition validate_order ::
  "instrument_rules \<Rightarrow> pyfloat \<Rightarrow> pyfloat option \<Rightarrow> string \<Rightarrow> py_exn + rule_msg option"
where
  "validate_order rules q price ty =
     (if ty = ''market'' \<and> \<not> ir_market_order_supported rules
      then Inr (Some (MarketNotSupported (ir_symbol rules)))
      else res_bind (validate_quantity rules q) (\<lambda>e1. case e1 of Some e \<Rightarrow> Inr (Some e) | None \<Rightarrow>
           res_bind (validate_price rules price) (\<lambda>e2. case e2 of Some e \<Rightarrow> Inr (Some e) | None \<Rightarrow>
             Inr (validate_notional rules q price))))"

subsection \<open>What a passed check means\<close>

lemma is_aligned_float_finite:
  assumes "is_aligned_float x step = Inr True" shows "\<exists>v. x = Fin v"
  using assms
  by (cases x; cases step) (auto simp: is_aligned_float_def fsub_def res_bind_Inr_iff split: if_splits)

lemma is_aligned_decimal_finite:
  assumes "is_aligned_decimal x step = Inr True" shows "\<exists>v. x = Fin v"
  using assms is_aligned_float_finite [of x step]
  by (cases x) (auto simp: is_aligned_decimal_def split: if_splits)

lemma positive_finite: "\<not> fle (Fin v) (Fin 0) \<longleftrightarrow> 0 < v"
  by (auto simp: fle_def)

text \<open>Within the 28 digits of the context, a passed alignment check places the decimal less than
  \<open>1e-9\<close> above a multiple of the step.\<close>

lemma aligned_multiple:
  assumes "is_aligned_decimal (Fin v) (Fin s) = Inr True"
    and "0 < decimal_of v" and "0 < decimal_of s" and "decimal_of v < 10 ^ 28 * decimal_of s"
  shows "\<exists>k :: int. 0 \<le> k \<and> of_int k * decimal_of s \<le> decimal_of v \<and>
    decimal_of v - of_int k * decimal_of s < 1 / 10 ^ 9"
proof -
  let ?x = "decimal_of v" and ?y = "decimal_of s"
  let ?k = "\<lfloor>?x / ?y\<rfloor>"
  have q: "0 \<le> ?x / ?y" "?x / ?y < 10 ^ 28" using assms(2-4) by (simp_all add: pos_divide_less_eq)
  then have "0 \<le> ?k" "?k < 10 ^ 28" by (simp_all add: floor_less_iff)
  then have r: "decimal_rem ?x ?y = Some (?x - of_int ?k * ?y)"
    using q(1) by (simp add: decimal_rem_def trunc_div_def)
  have "of_int ?k * ?y \<le> ?x / ?y * ?y" using assms(3) by (intro mult_right_mono) simp_all
  then have le: "of_int ?k * ?y \<le> ?x" using assms(3) by simp
  have "remainder_ok (?x - of_int ?k * ?y)"
    using assms(1) r by (simp add: is_aligned_decimal_def split: if_splits)
  then have "?x - of_int ?k * ?y < 1 / 10 ^ 9" by (auto simp: remainder_ok_def)
  with le \<open>0 \<le> ?k\<close> show ?thesis by blast
qed

lemma validate_quantity_sound:
  assumes "validate_quantity rules q = Inr None"
  shows "\<exists>v. q = Fin v \<and> 0 < v \<and> is_aligned_decimal q (ir_step_size rules) = Inr True \<and>
    \<not> flt q (ir_min_qty rules) \<and> (\<forall>m. ir_max_qty rules = Some m \<longrightarrow> \<not> fgt q m)"
proof -
  from assms have a: "\<not> fle q (Fin 0)" "is_aligned_decimal q (ir_step_size rules) = Inr True"
    "\<not> flt q (ir_min_qty rules)" "\<forall>m. ir_max_qty rules = Some m \<longrightarrow> \<not> fgt q m"
    by (auto simp: validate_quantity_def res_bind_Inr_iff split: if_splits option.splits)
  with is_aligned_decimal_finite show ?thesis using positive_finite by blast
qed

lemma validate_price_sound:
  assumes "validate_price rules price = Inr None"
  shows "price = None \<or> (\<exists>v. price = Some (Fin v) \<and> 0 < v \<and>
    is_aligned_decimal (Fin v) (ir_tick_size rules) = Inr True)"
proof (cases price)
  case (Some p)
  with assms have "\<not> fle p (Fin 0)" "is_aligned_decimal p (ir_tick_size rules) = Inr True"
    by (auto simp: validate_price_def res_bind_Inr_iff split: if_splits)
  with Some is_aligned_decimal_finite show ?thesis using positive_finite by blast
qed simp

lemma validate_order_Inr_None:
  "validate_order rules q price ty = Inr None \<longleftrightarrow>
     (ty = ''market'' \<longrightarrow> ir_market_order_supported rules) \<and>
     validate_quantity rules q = Inr None \<and> validate_price rules price = Inr None \<and>
     validate_notional rules q price = None"
  by (auto simp: validate_order_def res_bind_Inr_iff split: option.splits)

subsection \<open>Properties\<close>

definition example_rules :: instrument_rules where
  "example_rules = \<lparr>ir_symbol = ''BTCUSDT'', ir_tick_size = Fin 1, ir_step_size = Fin 1,
     ir_min_qty = Fin 1, ir_min_notional = Fin 10, ir_max_qty = Some (Fin 5),
     ir_market_order_supported = False\<rparr>"


lemma example_decimals: "decimal_of 1 = 1" "decimal_of 2 = 2" "decimal_of 100 = 100"
  by (simp_all add: decimal_of_def best_decimal_def sci_exp_def num_digits_def show_nat.simps
      exp10_def Let_def upt_rec)


end
