(* ===== verification/LiveAdapter.thy ===== *)
theory LiveAdapter
  imports Risk Instrument
begin

text \<open>
  The live execution adapters (\<^verbatim>\<open>openpine/execution/binance.py\<close>,
  \<^verbatim>\<open>openpine/execution/bybit.py\<close>) with their shared mixin (\<^verbatim>\<open>ccxt_common.py\<close>) and order
  helper (\<^verbatim>\<open>live_orders.py\<close>). The injected exchange client is not part of the repository: it is a
  record of functions on a client state, which return a response or raise. A response is \<open>None\<close> or
  a dict whose entries are scalars, as in ccxt's order structure. The two adapters differ in their
  status table, in the keys they read an order id from and in how they read \<open>filled\<close>; the
  other methods are the same text and take the venue as an argument.
\<close>

subsection \<open>Exceptions, messages and the client\<close>

datatype venue = Binance | Bybit

datatype live_call = CancelCall | StatusCall | ReconcileCall

datatype exec_exn =
    ClientError string
  | PyError py_exn
  | ExecutionUnavailableError exec_reason
and exec_reason =
    NeedsSymbol venue live_call
  | NeedsClient venue live_call
  | CallFailed venue live_call exec_exn
  | NoAdapterFor account_type
  | AdapterCancelFailed exec_exn

datatype exec_msg =
    NoClientInjected venue
  | ValidationFailed venue rule_msg
  | VenueError venue exec_exn
  | UnknownExchangeStatus pyval
  | VenueUnsuccessful venue
  | EmptyResponse
  | AccountNotFound string
  | RiskRejected risk_msg
  | RiskBlockedOrder
  | NoAdapterRegistered account_type
  | AdapterError exec_exn

type_synonym raw_order = "(string \<times> pyval) list"

record create_request =
  cq_symbol :: string
  cq_type :: string
  cq_side :: string
  cq_amount :: string
  cq_price :: "string option"
  cq_params :: "(string \<times> string) list"

record 'c client_api =
  api_create_order :: "create_request \<Rightarrow> 'c \<Rightarrow> (exec_exn + raw_order option) \<times> 'c"
  api_cancel_order :: "pyval \<Rightarrow> string \<Rightarrow> 'c \<Rightarrow> (exec_exn + raw_order option) \<times> 'c"
  api_fetch_order :: "pyval \<Rightarrow> string \<Rightarrow> 'c \<Rightarrow> (exec_exn + raw_order option) \<times> 'c"
  api_fetch_open_orders :: "'c \<Rightarrow> (exec_exn + raw_order list option) \<times> 'c"

subsection \<open>Adapter state\<close>

text \<open>\<open>instrument_rules or _DEFAULT_RULES\<close>: without rules of its own an adapter refers to the
  module's dict, which is therefore an argument (\<open>g\<close>) and a result of the methods that use it.\<close>

datatype rules_ref = DefaultRules | OwnRules "(string \<times> instrument_rules) list"

record 'c live_adapter =
  la_client :: "'c option"
  la_rules :: rules_ref
  la_order_symbols :: "(pyval \<times> pyval) list"

definition live_init ::
  "'c option \<Rightarrow> (string \<times> instrument_rules) list option \<Rightarrow> 'c live_adapter"
where
  "live_init client rules =
     \<lparr>la_client = client,
      la_rules = (case rules of None \<Rightarrow> DefaultRules
        | Some d \<Rightarrow> if d = [] then DefaultRules else OwnRules d),
      la_order_symbols = []\<rparr>"

definition rules_of :: "(string \<times> instrument_rules) list \<Rightarrow> 'c live_adapter \<Rightarrow> (string \<times> instrument_rules) list" where
  "rules_of g a = (case la_rules a of DefaultRules \<Rightarrow> g | OwnRules d \<Rightarrow> d)"

definition add_instrument_rules ::
  "instrument_rules \<Rightarrow> (string \<times> instrument_rules) list \<Rightarrow> 'c live_adapter
   \<Rightarrow> (string \<times> instrument_rules) list \<times> 'c live_adapter"
where
  "add_instrument_rules r g a =
     (case la_rules a of
        DefaultRules \<Rightarrow> (AList.update (ir_symbol r) r g, a)
      | OwnRules d \<Rightarrow> (g, a\<lparr>la_rules := OwnRules (AList.update (ir_symbol r) r d)\<rparr>))"

definition get_instrument_rules ::
  "string \<Rightarrow> (string \<times> instrument_rules) list \<Rightarrow> 'c live_adapter \<Rightarrow> instrument_rules option"
where
  "get_instrument_rules sy g a = map_of (rules_of g a) sy"

definition track_order_symbol :: "pyval \<Rightarrow> pyval \<Rightarrow> 'c live_adapter \<Rightarrow> 'c live_adapter" where
  "track_order_symbol oid sy a =
     a\<lparr>la_order_symbols := AList.update oid sy (la_order_symbols a)\<rparr>"

definition get_tracked_symbol :: "string \<Rightarrow> 'c live_adapter \<Rightarrow> pyval" where
  "get_tracked_symbol oid a =
     (case map_of (la_order_symbols a) (VStr oid) of Some s \<Rightarrow> s | None \<Rightarrow> VNone)"

subsection \<open>Status tables\<close>

definition binance_status_map :: "(string \<times> string) list" where
  "binance_status_map =
     [(''new'', ''new''), (''filled'', ''filled''), (''partial'', ''partial''),
      (''canceled'', ''cancelled''), (''cancelled'', ''cancelled''), (''rejected'', ''rejected''),
      (''expired'', ''cancelled''), (''pending'', ''pending'')]"

definition bybit_status_map :: "(string \<times> string) list" where
  "bybit_status_map =
     [(''Created'', ''new''), (''New'', ''new''), (''Filled'', ''filled''),
      (''PartiallyFilled'', ''partial''), (''Cancelled'', ''cancelled''),
      (''Canceled'', ''cancelled''), (''Rejected'', ''rejected''), (''Expired'', ''cancelled''),
      (''pending'', ''new'')]"

definition map_binance_status :: "pyval \<Rightarrow> py_exn + string" where
  "map_binance_status raw = res_bind (val_lower raw) (\<lambda>low.
     Inr (case map_of binance_status_map low of Some s \<Rightarrow> s | None \<Rightarrow> low))"

definition map_bybit_status :: "pyval \<Rightarrow> py_exn + string" where
  "map_bybit_status raw = res_bind (val_lower raw) (\<lambda>low.
     Inr (case map_of bybit_status_map (py_str raw) of Some s \<Rightarrow> s | None \<Rightarrow> low))"

primrec map_status :: "venue \<Rightarrow> pyval \<Rightarrow> py_exn + string" where
  "map_status Binance raw = map_binance_status raw"
| "map_status Bybit raw = map_bybit_status raw"

subsection \<open>Submitting\<close>

text \<open>\<open>rejected_live_order\<close>.\<close>

definition rejected_live_order :: "order_intent \<Rightarrow> string \<Rightarrow> ms \<Rightarrow> exec_msg \<Rightarrow> exec_msg order" where
  "rejected_live_order oi oid now e = order_of_intent oi oid REJECTED (Fin 0) None now (Some e)"

definition live_validate_order ::
  "order_intent \<Rightarrow> (string \<times> instrument_rules) list \<Rightarrow> py_exn + rule_msg option"
where
  "live_validate_order oi rules =
     (case map_of rules (oi_symbol oi) of
        None \<Rightarrow> Inr (Some (NoInstrumentRules (oi_symbol oi)))
      | Some r \<Rightarrow> validate_order r (oi_quantity oi) (oi_price oi) (type_value (oi_order_type oi)))"

definition create_request_of :: "order_intent \<Rightarrow> create_request" where
  "create_request_of oi =
     (let ty = type_value (oi_order_type oi);
          p1 = (if oi_client_order_id oi \<noteq> [] then [(''clientOrderId'', oi_client_order_id oi)] else []);
          p2 = (case oi_stop_price oi of
                  Some sp \<Rightarrow> if ty \<in> {''stop'', ''stop_limit'', ''STOP'', ''STOP_LIMIT''}
                    then [(''stopPrice'', float_repr sp)] else []
                | None \<Rightarrow> [])
      in \<lparr>cq_symbol = oi_symbol oi, cq_type = ty, cq_side = side_value (oi_side oi),
          cq_amount = float_repr (oi_quantity oi),
          cq_price = (case oi_price oi of Some p \<Rightarrow> if float_true p then Some (float_repr p) else None
            | None \<Rightarrow> None),
          cq_params = p1 @ p2\<rparr>)"

record live_order_result =
  lr_success :: bool
  lr_order_id :: "string option"
  lr_status :: "string option"
  lr_filled_qty :: pyfloat
  lr_avg_fill_price :: "pyfloat option"
  lr_error :: "exec_msg option"

definition empty_response_result :: live_order_result where
  "empty_response_result = \<lparr>lr_success = False, lr_order_id = None, lr_status = None,
     lr_filled_qty = Fin 0, lr_avg_fill_price = None, lr_error = Some EmptyResponse\<rparr>"

text \<open>The tail of \<open>_parse_client_response\<close>, after the fields were read: the order is tracked, then
  the average price is converted (which may still raise).\<close>

definition finish_parse ::
  "pyval \<Rightarrow> string \<Rightarrow> pyfloat \<Rightarrow> pyval \<Rightarrow> pyval \<Rightarrow> string \<Rightarrow> 'c live_adapter
   \<Rightarrow> (exec_exn + live_order_result) \<times> 'c live_adapter"
where
  "finish_parse oid status filled avg raw_status symbol a =
     (let a1 = (if val_true oid \<and> symbol \<noteq> [] then track_order_symbol (VStr (py_str oid)) (VStr symbol) a else a);
          ok = (status \<in> {''new'', ''filled'', ''partial''});
          err = (if ok then None else Some (UnknownExchangeStatus raw_status));
          price = (if val_true avg then (case py_float avg of Inl e \<Rightarrow> Inl e | Inr x \<Rightarrow> Inr (Some x))
                   else Inr None)
      in (case price of
            Inl e \<Rightarrow> (Inl (PyError e), a1)
          | Inr p \<Rightarrow>
              (Inr \<lparr>lr_success = ok, lr_order_id = (if val_true oid then Some (py_str oid) else None),
                    lr_status = Some status, lr_filled_qty = filled, lr_avg_fill_price = p,
                    lr_error = err\<rparr>, a1)))"

definition binance_parse_response ::
  "raw_order option \<Rightarrow> string \<Rightarrow> 'c live_adapter \<Rightarrow> (exec_exn + live_order_result) \<times> 'c live_adapter"
where
  "binance_parse_response resp symbol a =
     (case resp of
        None \<Rightarrow> (Inr empty_response_result, a)
      | Some d \<Rightarrow>
          (let oid = val_or (dict_get d ''id'' VNone) (dict_get d ''orderId'' VNone);
               raw = dict_get d ''status'' (VStr ''unknown'')
           in case map_binance_status raw of
                Inl e \<Rightarrow> (Inl (PyError e), a)
              | Inr status \<Rightarrow>
                  (case py_float (dict_get d ''filled'' (VInt 0)) of
                     Inl e \<Rightarrow> (Inl (PyError e), a)
                   | Inr filled \<Rightarrow>
                       finish_parse oid status filled
                         (val_or (dict_get d ''average'' VNone) (dict_get d ''avgPrice'' VNone)) raw symbol a)))"

definition bybit_parse_response ::
  "raw_order option \<Rightarrow> string \<Rightarrow> 'c live_adapter \<Rightarrow> (exec_exn + live_order_result) \<times> 'c live_adapter"
where
  "bybit_parse_response resp symbol a =
     (case resp of
        None \<Rightarrow> (Inr empty_response_result, a)
      | Some d \<Rightarrow>
          (let oid = val_or (val_or (dict_get d ''id'' VNone) (dict_get d ''orderId'' VNone))
                       (dict_get d ''order_id'' VNone);
               raw = dict_get d ''status'' (VStr ''unknown'')
           in case map_bybit_status raw of
                Inl e \<Rightarrow> (Inl (PyError e), a)
              | Inr status \<Rightarrow>
                  (case py_float (val_or (dict_get d ''filled'' (VInt 0)) (VInt 0)) of
                     Inl e \<Rightarrow> (Inl (PyError e), a)
                   | Inr filled \<Rightarrow>
                       finish_parse oid status filled
                         (val_or (dict_get d ''average'' VNone) (dict_get d ''avgPrice'' VNone)) raw symbol a)))"

primrec parse_client_response ::
  "venue \<Rightarrow> raw_order option \<Rightarrow> string \<Rightarrow> 'c live_adapter
   \<Rightarrow> (exec_exn + live_order_result) \<times> 'c live_adapter"
where
  "parse_client_response Binance resp sy a = binance_parse_response resp sy a"
| "parse_client_response Bybit resp sy a = bybit_parse_response resp sy a"

text \<open>\<open>_call_create_order\<close>, with the client \<open>c\<close> present.\<close>

definition call_create_order ::
  "venue \<Rightarrow> 'c client_api \<Rightarrow> 'c \<Rightarrow> order_intent \<Rightarrow> 'c live_adapter
   \<Rightarrow> (exec_exn + live_order_result) \<times> 'c live_adapter"
where
  "call_create_order v api c oi a =
     (case api_create_order api (create_request_of oi) c of
        (Inl e, c') \<Rightarrow> (Inl e, a\<lparr>la_client := Some c'\<rparr>)
      | (Inr resp, c') \<Rightarrow> parse_client_response v resp (oi_symbol oi) (a\<lparr>la_client := Some c'\<rparr>))"

definition result_to_order ::
  "venue \<Rightarrow> live_order_result \<Rightarrow> order_intent \<Rightarrow> string \<Rightarrow> ms \<Rightarrow> exec_msg order"
where
  "result_to_order v r oi oid now =
     (if lr_success r
      then order_of_intent oi oid
             (if lr_status r = Some ''new'' then NEW
              else if lr_status r = Some ''partial'' then PARTIAL else FILLED)
             (lr_filled_qty r) (lr_avg_fill_price r) now None
      else rejected_live_order oi oid now
             (case lr_error r of Some e \<Rightarrow> e | None \<Rightarrow> VenueUnsuccessful v))"

definition live_submit_order ::
  "venue \<Rightarrow> 'c client_api \<Rightarrow> (string \<times> instrument_rules) list \<Rightarrow> ms \<Rightarrow> string \<Rightarrow> order_intent
   \<Rightarrow> 'c live_adapter \<Rightarrow> (exec_exn + exec_msg order) \<times> 'c live_adapter"
where
  "live_submit_order v api g now gen oi a =
     (case la_client a of
        None \<Rightarrow> (Inr (rejected_live_order oi gen now (NoClientInjected v)), a)
      | Some c \<Rightarrow>
          (case live_validate_order oi (rules_of g a) of
             Inl e \<Rightarrow> (Inl (PyError e), a)
           | Inr (Some msg) \<Rightarrow> (Inr (rejected_live_order oi gen now (ValidationFailed v msg)), a)
           | Inr None \<Rightarrow>
               (case call_create_order v api c oi a of
                  (Inl e, a') \<Rightarrow> (Inr (rejected_live_order oi gen now (VenueError v e)), a')
                | (Inr r, a') \<Rightarrow> (Inr (result_to_order v r oi gen now), a'))))"

subsection \<open>Cancelling, status and reconciliation\<close>

text \<open>\<open>_call_cancel_order\<close>: \<open>CancelResult.success\<close>.\<close>

definition call_cancel_order ::
  "venue \<Rightarrow> 'c client_api \<Rightarrow> 'c \<Rightarrow> string \<Rightarrow> pyval \<Rightarrow> 'c live_adapter
   \<Rightarrow> (exec_exn + bool) \<times> 'c live_adapter"
where
  "call_cancel_order v api c oid sy a =
     (let (r, c') = api_cancel_order api sy oid c; a' = a\<lparr>la_client := Some c'\<rparr>
      in (case r of
            Inl e \<Rightarrow> (Inl e, a')
          | Inr None \<Rightarrow> (Inr False, a')
          | Inr (Some d) \<Rightarrow>
              (case map_status v (dict_get d ''status'' (VStr [])) of
                 Inl e \<Rightarrow> (Inl (PyError e), a')
               | Inr s \<Rightarrow> (Inr (s = ''cancelled''), a'))))"

definition cancel_order_for_symbol ::
  "venue \<Rightarrow> 'c client_api \<Rightarrow> string \<Rightarrow> pyval \<Rightarrow> 'c live_adapter \<Rightarrow> (exec_exn + bool) \<times> 'c live_adapter"
where
  "cancel_order_for_symbol v api oid sy a =
     (case la_client a of
        None \<Rightarrow> (Inl (ExecutionUnavailableError (NeedsClient v CancelCall)), a)
      | Some c \<Rightarrow>
          (case call_cancel_order v api c oid sy a of
             (Inl e, a') \<Rightarrow> (Inl (ExecutionUnavailableError (CallFailed v CancelCall e)), a')
           | (Inr b, a') \<Rightarrow> (Inr b, a')))"

definition live_cancel_order ::
  "venue \<Rightarrow> 'c client_api \<Rightarrow> string \<Rightarrow> 'c live_adapter \<Rightarrow> (exec_exn + bool) \<times> 'c live_adapter"
where
  "live_cancel_order v api oid a =
     (let sy = get_tracked_symbol oid a
      in if sy = VNone then (Inl (ExecutionUnavailableError (NeedsSymbol v CancelCall)), a)
         else cancel_order_for_symbol v api oid sy a)"

text \<open>The order built from an exchange response keeps the response's raw side, type and ids.\<close>

record status_order =
  so_order_id :: pyval
  so_client_order_id :: pyval
  so_account_id :: pyval
  so_symbol :: pyval
  so_side :: pyval
  so_order_type :: pyval
  so_quantity :: pyfloat
  so_price :: "pyfloat option"
  so_stop_price :: "pyfloat option"
  so_status :: order_status
  so_filled_quantity :: pyfloat
  so_avg_fill_price :: "pyfloat option"
  so_created_at :: pyval
  so_updated_at :: ms
  so_error :: "exec_msg option"

definition nonzero_or_none :: "pyfloat \<Rightarrow> pyfloat option" where
  "nonzero_or_none x = (if float_true x then Some x else None)"

definition response_to_order_status :: "venue \<Rightarrow> ms \<Rightarrow> raw_order \<Rightarrow> py_exn + status_order" where
  "response_to_order_status v now d =
     (let raw = dict_get d ''status'' (VStr ''unknown'')
      in res_bind (map_status v raw) (\<lambda>mapped.
         res_bind (py_float (dict_get d ''amount'' (VInt 0))) (\<lambda>qty.
         res_bind (py_float (dict_get d ''price'' (VInt 0))) (\<lambda>price.
         res_bind (py_float (dict_get d ''stopPrice'' (VInt 0))) (\<lambda>stop.
         res_bind (py_float (val_or (dict_get d ''filled'' (VInt 0)) (VInt 0))) (\<lambda>filled.
         res_bind (py_float (dict_get d ''average'' (VInt 0))) (\<lambda>avg.
           Inr \<lparr>so_order_id = val_or (val_or (dict_get d ''id'' VNone) (dict_get d ''orderId'' VNone)) (VStr []),
                so_client_order_id = dict_get d ''clientOrderId'' (VStr []),
                so_account_id = dict_get d ''account_id'' (VStr []),
                so_symbol = dict_get d ''symbol'' (VStr []),
                so_side = dict_get d ''side'' (VStr ''buy''),
                so_order_type = dict_get d ''type'' (VStr ''limit''),
                so_quantity = qty, so_price = nonzero_or_none price,
                so_stop_price = nonzero_or_none stop,
                so_status = (case status_of mapped of Some s \<Rightarrow> s | None \<Rightarrow> REJECTED),
                so_filled_quantity = filled, so_avg_fill_price = nonzero_or_none avg,
                so_created_at = dict_get d ''timestamp'' (VInt 0), so_updated_at = now,
                so_error = (case status_of mapped of Some s \<Rightarrow> None
                  | None \<Rightarrow> Some (UnknownExchangeStatus raw))\<rparr>)))))))"

definition call_get_order ::
  "venue \<Rightarrow> 'c client_api \<Rightarrow> 'c \<Rightarrow> ms \<Rightarrow> string \<Rightarrow> pyval \<Rightarrow> 'c live_adapter
   \<Rightarrow> (exec_exn + status_order option) \<times> 'c live_adapter"
where
  "call_get_order v api c now oid sy a =
     (let (r, c') = api_fetch_order api sy oid c; a' = a\<lparr>la_client := Some c'\<rparr>
      in (case r of
            Inl e \<Rightarrow> (Inl e, a')
          | Inr None \<Rightarrow> (Inr None, a')
          | Inr (Some d) \<Rightarrow>
              (case response_to_order_status v now d of
                 Inl e \<Rightarrow> (Inl (PyError e), a')
               | Inr ord \<Rightarrow> (Inr (Some ord), a'))))"

definition get_order_status_for_symbol ::
  "venue \<Rightarrow> 'c client_api \<Rightarrow> ms \<Rightarrow> string \<Rightarrow> pyval \<Rightarrow> 'c live_adapter
   \<Rightarrow> (exec_exn + status_order option) \<times> 'c live_adapter"
where
  "get_order_status_for_symbol v api now oid sy a =
     (case la_client a of
        None \<Rightarrow> (Inl (ExecutionUnavailableError (NeedsClient v StatusCall)), a)
      | Some c \<Rightarrow>
          (case call_get_order v api c now oid sy a of
             (Inl e, a') \<Rightarrow> (Inl (ExecutionUnavailableError (CallFailed v StatusCall e)), a')
           | (Inr r, a') \<Rightarrow> (Inr r, a')))"

definition live_get_order_status ::
  "venue \<Rightarrow> 'c client_api \<Rightarrow> ms \<Rightarrow> string \<Rightarrow> 'c live_adapter
   \<Rightarrow> (exec_exn + status_order option) \<times> 'c live_adapter"
where
  "live_get_order_status v api now oid a =
     (let sy = get_tracked_symbol oid a
      in if sy = VNone then (Inl (ExecutionUnavailableError (NeedsSymbol v StatusCall)), a)
         else get_order_status_for_symbol v api now oid sy a)"

text \<open>The loop of \<open>_call_reconcile\<close>: what was tracked before a malformed entry stays tracked.\<close>

fun reconcile_rows ::
  "venue \<Rightarrow> ms \<Rightarrow> raw_order list \<Rightarrow> 'c live_adapter \<Rightarrow> (exec_exn + status_order list) \<times> 'c live_adapter"
where
  "reconcile_rows v now [] a = (Inr [], a)"
| "reconcile_rows v now (d # ds) a =
     (case response_to_order_status v now d of
        Inl e \<Rightarrow> (Inl (PyError e), a)
      | Inr ord \<Rightarrow>
          (let a1 = (if val_true (so_order_id ord) \<and> val_true (so_symbol ord)
                     then track_order_symbol (so_order_id ord) (so_symbol ord) a else a)
           in (case reconcile_rows v now ds a1 of
                 (Inl e, a2) \<Rightarrow> (Inl e, a2)
               | (Inr ords, a2) \<Rightarrow> (Inr (ord # ords), a2))))"

definition call_reconcile ::
  "venue \<Rightarrow> 'c client_api \<Rightarrow> 'c \<Rightarrow> ms \<Rightarrow> 'c live_adapter
   \<Rightarrow> (exec_exn + status_order list) \<times> 'c live_adapter"
where
  "call_reconcile v api c now a =
     (let (r, c') = api_fetch_open_orders api c; a' = a\<lparr>la_client := Some c'\<rparr>
      in (case r of
            Inl e \<Rightarrow> (Inl e, a')
          | Inr None \<Rightarrow> (Inl (PyError PyTypeError), a')
          | Inr (Some ds) \<Rightarrow> reconcile_rows v now ds a'))"

definition live_reconcile ::
  "venue \<Rightarrow> 'c client_api \<Rightarrow> ms \<Rightarrow> 'c live_adapter
   \<Rightarrow> (exec_exn + status_order list) \<times> 'c live_adapter"
where
  "live_reconcile v api now a =
     (case la_client a of
        None \<Rightarrow> (Inl (ExecutionUnavailableError (NeedsClient v ReconcileCall)), a)
      | Some c \<Rightarrow>
          (case call_reconcile v api c now a of
             (Inl e, a') \<Rightarrow> (Inl (ExecutionUnavailableError (CallFailed v ReconcileCall e)), a')
           | (Inr os, a') \<Rightarrow> (Inr os, a')))"

text \<open>The methods of \<open>BybitLiveExecutionAdapter\<close>, which repeat those of the Binance adapter.\<close>

definition bybit_submit_order where
  "bybit_submit_order api g now gen oi a = live_submit_order Bybit api g now gen oi a"

definition bybit_cancel_order where
  "bybit_cancel_order api oid a = live_cancel_order Bybit api oid a"

definition bybit_cancel_order_for_symbol where
  "bybit_cancel_order_for_symbol api oid sy a = cancel_order_for_symbol Bybit api oid sy a"

definition bybit_call_cancel_order where
  "bybit_call_cancel_order api c oid sy a = call_cancel_order Bybit api c oid sy a"

definition bybit_get_order_status where
  "bybit_get_order_status api now oid a = live_get_order_status Bybit api now oid a"

definition bybit_get_order_status_for_symbol where
  "bybit_get_order_status_for_symbol api now oid sy a = get_order_status_for_symbol Bybit api now oid sy a"

definition bybit_response_to_order_status where
  "bybit_response_to_order_status now d = response_to_order_status Bybit now d"

definition bybit_result_to_order where
  "bybit_result_to_order r oi oid now = result_to_order Bybit r oi oid now"

definition bybit_reconcile where
  "bybit_reconcile api now a = live_reconcile Bybit api now a"

subsection \<open>Facts about submission\<close>

lemma parse_keeps_client [simp]:
  "la_client (snd (parse_client_response v resp sy a)) = la_client a"
  by (cases v)
    (auto simp: binance_parse_response_def bybit_parse_response_def finish_parse_def
      track_order_symbol_def Let_def split: option.splits sum.splits)

lemma call_create_client [simp]:
  "la_client (snd (call_create_order v api c oi a)) =
     Some (snd (api_create_order api (create_request_of oi) c))"
  by (auto simp: call_create_order_def split: prod.splits sum.splits)

lemma result_to_order_carries [simp]:
  "carries (result_to_order v r oi gen now) oi" "o_order_id (result_to_order v r oi gen now) = gen"
  by (simp_all add: result_to_order_def rejected_live_order_def)

lemma live_submit_cases:
  obtains
    (refused) r where "live_submit_order v api g now gen oi a = (r, a)"
      and "\<And>ord. r = Inr ord \<Longrightarrow> o_status ord = REJECTED \<and> carries ord oi \<and> o_order_id ord = gen"
  | (called) c rules ord where "la_client a = Some c"
      and "map_of (rules_of g a) (oi_symbol oi) = Some rules"
      and "validate_order rules (oi_quantity oi) (oi_price oi) (type_value (oi_order_type oi)) = Inr None"
      and "live_submit_order v api g now gen oi a = (Inr ord, snd (call_create_order v api c oi a))"
      and "carries ord oi" and "o_order_id ord = gen"
proof (cases "la_client a")
  case None
  show ?thesis
    by (rule refused) (auto simp: live_submit_order_def None rejected_live_order_def)
next
  case (Some c)
  show ?thesis
  proof (cases "live_validate_order oi (rules_of g a) = Inr None")
    case False
    then consider (exn) e where "live_validate_order oi (rules_of g a) = Inl e"
      | (msg) e where "live_validate_order oi (rules_of g a) = Inr (Some e)"
      by (metis option.exhaust sum.exhaust)
    then show ?thesis
    proof cases
      case exn
      show ?thesis by (rule refused) (auto simp: live_submit_order_def Some exn)
    next
      case msg
      show ?thesis
        by (rule refused) (auto simp: live_submit_order_def Some msg rejected_live_order_def)
    qed
  next
    case True
    then obtain rules where rules: "map_of (rules_of g a) (oi_symbol oi) = Some rules"
      "validate_order rules (oi_quantity oi) (oi_price oi) (type_value (oi_order_type oi)) = Inr None"
      by (auto simp: live_validate_order_def split: option.splits)
    obtain r a' where call: "call_create_order v api c oi a = (r, a')" by (metis surj_pair)
    show ?thesis
      by (cases r; rule called [OF Some rules])
        (auto simp: live_submit_order_def Some True call rejected_live_order_def)
  qed
qed

text \<open>The id under which the exchange knows an order.\<close>

primrec exchange_order_id :: "venue \<Rightarrow> raw_order \<Rightarrow> pyval" where
  "exchange_order_id Binance d = val_or (dict_get d ''id'' VNone) (dict_get d ''orderId'' VNone)"
| "exchange_order_id Bybit d = val_or (val_or (dict_get d ''id'' VNone) (dict_get d ''orderId'' VNone))
     (dict_get d ''order_id'' VNone)"

lemma parse_tracks_exchange_id:
  assumes "i \<noteq> py_str (exchange_order_id v d)"
  shows "get_tracked_symbol i (snd (parse_client_response v (Some d) sy a)) = get_tracked_symbol i a"
  using assms
  by (cases v)
    (auto simp: binance_parse_response_def bybit_parse_response_def finish_parse_def
      track_order_symbol_def get_tracked_symbol_def map_of_update Let_def split: sum.splits)

lemma get_tracked_client [simp]: "get_tracked_symbol i (a\<lparr>la_client := c\<rparr>) = get_tracked_symbol i a"
  by (simp add: get_tracked_symbol_def)

subsection \<open>Properties\<close>

text \<open>A client that acknowledges every order and remembers the requests.\<close>

definition recording_api :: "create_request list client_api" where
  "recording_api = \<lparr>
     api_create_order = (\<lambda>r c. (Inr (Some [(''id'', VStr ''X1''), (''status'', VStr ''new'')]), c @ [r])),
     api_cancel_order = (\<lambda>_ _ c. (Inr None, c)),
     api_fetch_order = (\<lambda>_ _ c. (Inr None, c)),
     api_fetch_open_orders = (\<lambda>c. (Inr (Some []), c))\<rparr>"

definition example_live :: "create_request list live_adapter" where
  "example_live = live_init (Some []) (Some [(''BTCUSDT'', example_rules)])"

text \<open>C3: The live adapters fail closed. If submitting an order changes anything in the adapter or
  its exchange client, or yields an order that is not REJECTED, then a client was injected, rules
  for the order's symbol were known, the order passed \<open>validate_order\<close> under them, and the client
  received exactly one \<open>create_order\<close> call, with the request built from this order.\<close>

theorem live_fail_closed:
  assumes "live_submit_order v api g now gen oi a = (r, a')"
    and "a' \<noteq> a \<or> (\<exists>ord. r = Inr ord \<and> o_status ord \<noteq> REJECTED)"
  shows "\<exists>c rules. la_client a = Some c \<and> map_of (rules_of g a) (oi_symbol oi) = Some rules \<and>
    validate_order rules (oi_quantity oi) (oi_price oi) (type_value (oi_order_type oi)) = Inr None \<and>
    la_client a' = Some (snd (api_create_order api (create_request_of oi) c))"
proof (cases rule: live_submit_cases [where v = v and api = api and g = g and now = now and gen = gen and oi = oi and a = a])
  case (refused r')
  with assms show ?thesis by auto
next
  case (called c rules ord)
  with assms(1) have "a' = snd (call_create_order v api c oi a)" by simp
  with called(1-3) show ?thesis by simp
qed

text \<open>C10: An order returned by a live adapter cannot be cancelled under the id the adapter gave it.
  The adapter files the symbol under the exchange's id but returns the order under its own
  generated id, so \<open>cancel_order\<close> with the id of the returned order raises for want of a tracked
  symbol, whatever status the exchange reported.\<close>

theorem live_order_id_not_cancellable:
  assumes "la_client a = Some c"
    and "api_create_order api (create_request_of oi) c = (Inr (Some d), c')"
    and "gen \<noteq> py_str (exchange_order_id v d)" and "get_tracked_symbol gen a = VNone"
    and "live_submit_order v api g now gen oi a = (Inr ord, a')"
  shows "live_cancel_order v api (o_order_id ord) a' =
    (Inl (ExecutionUnavailableError (NeedsSymbol v CancelCall)), a')"
proof -
  have "o_order_id ord = gen \<and> get_tracked_symbol gen a' = VNone"
  proof (cases rule: live_submit_cases [where v = v and api = api and g = g and now = now and gen = gen and oi = oi and a = a])
    case (refused r)
    with assms(4,5) show ?thesis by simp
  next
    case (called c2 rules ord2)
    with assms(1,5) have "a' = snd (call_create_order v api c oi a)" "ord = ord2" by simp_all
    then have "get_tracked_symbol gen a' = VNone"
      using assms(2-4) by (simp add: call_create_order_def parse_tracks_exchange_id)
    with called(6) \<open>ord = ord2\<close> show ?thesis by simp
  qed
  then show ?thesis by (simp add: live_cancel_order_def)
qed

lemma example_live_validates:
  "live_validate_order (example_intent ''c1'') (rules_of [] example_live) = Inr None"
  by (simp add: live_validate_order_def rules_of_def example_live_def live_init_def example_intent_def
      example_rules_def validate_order_Inr_None validate_quantity_def validate_price_def
      validate_notional_def is_aligned_decimal_def decimal_rem_def trunc_div_def remainder_ok_def
      example_decimals fle_def)

definition example_live_after :: "create_request list live_adapter" where
  "example_live_after = example_live\<lparr>la_client := Some [create_request_of (example_intent ''c1'')],
     la_order_symbols := [(VStr ''X1'', VStr ''BTCUSDT'')]\<rparr>"

definition example_live_order :: "exec_msg order" where
  "example_live_order = order_of_intent (example_intent ''c1'') ''ord_1'' NEW (Fin 0) None 9 None"

lemma example_live_call:
  "call_create_order Binance recording_api [] (example_intent ''c1'') example_live =
    (Inr \<lparr>lr_success = True, lr_order_id = Some ''X1'', lr_status = Some ''new'',
       lr_filled_qty = Fin 0, lr_avg_fill_price = None, lr_error = None\<rparr>, example_live_after)"
  by (simp add: call_create_order_def recording_api_def example_live_def live_init_def
      example_live_after_def binance_parse_response_def dict_get_def val_or_def
      map_binance_status_def binance_status_map_def finish_parse_def track_order_symbol_def
      lower_def char_lower_def float_of_int_def Let_def)
    (simp add: example_intent_def)

lemma example_live_submit:
  "live_submit_order Binance recording_api [] 9 ''ord_1'' (example_intent ''c1'') example_live =
    (Inr example_live_order, example_live_after)"
proof -
  have "la_client example_live = Some []" by (simp add: example_live_def live_init_def)
  then show ?thesis
    by (simp add: live_submit_order_def example_live_validates example_live_call result_to_order_def
        example_live_order_def)
qed

theorem live_fail_closed_witness:
  "live_submit_order Binance recording_api [] 9 ''ord_1'' (example_intent ''c1'') example_live =
     (Inr example_live_order, example_live_after) \<and>
   o_status example_live_order \<noteq> REJECTED \<and>
   (\<exists>c rules. la_client example_live = Some c \<and>
      map_of (rules_of [] example_live) ''BTCUSDT'' = Some rules \<and>
      validate_order rules (Fin 2) (Some (Fin 100)) ''limit'' = Inr None \<and>
      la_client example_live_after =
        Some (snd (api_create_order recording_api (create_request_of (example_intent ''c1'')) c)))"
proof -
  have st: "o_status example_live_order \<noteq> REJECTED" by (simp add: example_live_order_def)
  then have "example_live_after \<noteq> example_live \<or>
      (\<exists>ord. Inr example_live_order = (Inr ord :: exec_exn + exec_msg order) \<and> o_status ord \<noteq> REJECTED)"
    by blast
  from live_fail_closed [OF example_live_submit this] example_live_submit st
  show ?thesis by (simp add: example_intent_def)
qed

theorem live_order_id_not_cancellable_witness:
  "live_submit_order Binance recording_api [] 9 ''ord_1'' (example_intent ''c1'') example_live =
     (Inr example_live_order, example_live_after) \<and> o_status example_live_order = NEW \<and>
   live_cancel_order Binance recording_api (o_order_id example_live_order) example_live_after =
     (Inl (ExecutionUnavailableError (NeedsSymbol Binance CancelCall)), example_live_after)"
proof -
  have "live_cancel_order Binance recording_api (o_order_id example_live_order) example_live_after =
     (Inl (ExecutionUnavailableError (NeedsSymbol Binance CancelCall)), example_live_after)"
    by (rule live_order_id_not_cancellable [where c = "[]"
          and d = "[(''id'', VStr ''X1''), (''status'', VStr ''new'')]", OF _ _ _ _ example_live_submit])
      (simp_all add: example_live_def live_init_def recording_api_def dict_get_def val_or_def
        get_tracked_symbol_def)
  with example_live_submit show ?thesis by (simp add: example_live_order_def)
qed

end
