(* ===== verification/Execution.thy ===== *)
theory Execution
  imports LiveAdapter
begin

text \<open>
  The paper adapter (\<^verbatim>\<open>openpine/execution/paper.py\<close>) and the router
  (\<^verbatim>\<open>openpine/execution/router.py\<close>), with the adapter protocol as a locale that the paper
  adapter, the live adapters and their union implement, and over which the router is verified.
\<close>

subsection \<open>The adapter protocol\<close>

locale execution_adapter =
  fixes submit :: "ms \<Rightarrow> string \<Rightarrow> order_intent \<Rightarrow> 's \<Rightarrow> (exec_exn + exec_msg order) \<times> 's"
    and cancel :: "ms \<Rightarrow> string \<Rightarrow> 's \<Rightarrow> (exec_exn + bool) \<times> 's"
    and inv :: "'s \<Rightarrow> bool"
  assumes submit_inv: "inv s \<Longrightarrow> inv (snd (submit now gen oi s))"
    and cancel_inv: "inv s \<Longrightarrow> inv (snd (cancel now oid s))"
    and submit_carries: "inv s \<Longrightarrow> submit now gen oi s = (Inr ord, s') \<Longrightarrow> carries ord oi"

subsection \<open>The paper adapter\<close>

record fill =
  fl_fill_id :: string
  fl_order_id :: string
  fl_strategy_id :: string
  fl_account_id :: string
  fl_symbol :: string
  fl_side :: string
  fl_qty :: pyfloat
  fl_price :: pyfloat
  fl_fee :: pyfloat
  fl_fee_asset :: "string option"
  fl_fill_time :: ms
  fl_created_at :: ms

text \<open>The two dicts share the order objects, so they hold references into \<open>pa_heap\<close>.\<close>

record paper =
  pa_heap :: "exec_msg order list"
  pa_orders :: "(string \<times> nat) list"
  pa_client_orders :: "(string \<times> nat) list"
  pa_fills :: "fill list"

definition paper_init :: paper where
  "paper_init = \<lparr>pa_heap = [], pa_orders = [], pa_client_orders = [], pa_fills = []\<rparr>"

definition fill_price :: "order_intent \<Rightarrow> pyfloat" where
  "fill_price oi = (case oi_price oi of Some p \<Rightarrow> p | None \<Rightarrow> Fin 0)"

definition fill_record :: "order_intent \<Rightarrow> exec_msg order \<Rightarrow> pyfloat \<Rightarrow> ms \<Rightarrow> fill" where
  "fill_record oi filled price t =
     \<lparr>fl_fill_id = ''fill_'' @ o_order_id filled, fl_order_id = o_order_id filled,
      fl_strategy_id = oi_strategy_id oi, fl_account_id = oi_account_id oi,
      fl_symbol = oi_symbol oi, fl_side = side_value (oi_side oi), fl_qty = oi_quantity oi,
      fl_price = price, fl_fee = Fin 0, fl_fee_asset = None, fl_fill_time = t,
      fl_created_at = t\<rparr>"

definition paper_submit_order :: "ms \<Rightarrow> string \<Rightarrow> order_intent \<Rightarrow> paper \<Rightarrow> exec_msg order \<times> paper" where
  "paper_submit_order now gen oi p =
     (let price = fill_price oi;
          filled = order_of_intent oi gen FILLED (oi_quantity oi) (Some price) now None;
          ref = length (pa_heap p)
      in (filled,
          p\<lparr>pa_heap := pa_heap p @ [filled],
            pa_orders := AList.update gen ref (pa_orders p),
            pa_client_orders := AList.update (oi_client_order_id oi) ref (pa_client_orders p),
            pa_fills := pa_fills p @ [fill_record oi filled price now]\<rparr>))"

definition paper_cancel_order :: "ms \<Rightarrow> string \<Rightarrow> paper \<Rightarrow> bool \<times> paper" where
  "paper_cancel_order now oid p =
     (case map_of (pa_orders p) oid of
        None \<Rightarrow> (False, p)
      | Some ref \<Rightarrow>
          (let ord = pa_heap p ! ref
           in if o_status ord = FILLED \<or> o_status ord = CANCELLED then (False, p)
              else (True, p\<lparr>pa_heap := (pa_heap p)[ref :=
                      ord\<lparr>o_status := CANCELLED, o_updated_at := now\<rparr>]\<rparr>)))"

definition paper_get_order_status :: "string \<Rightarrow> paper \<Rightarrow> exec_msg order option" where
  "paper_get_order_status oid p = map_option (\<lambda>ref. pa_heap p ! ref) (map_of (pa_orders p) oid)"

definition get_fills :: "string option \<Rightarrow> paper \<Rightarrow> fill list" where
  "get_fills aid p = (case aid of None \<Rightarrow> pa_fills p
     | Some a \<Rightarrow> filter (\<lambda>f. fl_account_id f = a) (pa_fills p))"

definition get_orders :: "string option \<Rightarrow> paper \<Rightarrow> exec_msg order list" where
  "get_orders aid p =
     (let orders = map (\<lambda>(_, ref). pa_heap p ! ref) (pa_orders p)
      in case aid of None \<Rightarrow> orders | Some a \<Rightarrow> filter (\<lambda>ord. o_account_id ord = a) orders)"

text \<open>Every stored order is filled, and every stored order has its fill.\<close>

definition paper_inv :: "paper \<Rightarrow> bool" where
  "paper_inv p \<longleftrightarrow>
     list_all (\<lambda>ord. o_status ord = FILLED) (pa_heap p) \<and>
     list_all (\<lambda>(oid, ref). ref < length (pa_heap p) \<and> o_order_id (pa_heap p ! ref) = oid) (pa_orders p) \<and>
     map fl_order_id (pa_fills p) = map o_order_id (pa_heap p) \<and>
     fst ` set (pa_orders p) = set (map o_order_id (pa_heap p))"

lemma paper_init_inv [inv_intros]: "paper_inv paper_init"
  by (simp add: paper_inv_def paper_init_def)

lemma update_subset: "set (AList.update k v xs) \<subseteq> insert (k, v) (set xs)"
  by (induction xs) auto

lemma paper_submit_inv [inv_intros]:
  assumes "paper_inv p" shows "paper_inv (snd (paper_submit_order now gen oi p))"
proof -
  let ?filled = "order_of_intent oi gen FILLED (oi_quantity oi) (Some (fill_price oi)) now None :: exec_msg order"
  have refs: "ref < length (pa_heap p @ [?filled]) \<and> o_order_id ((pa_heap p @ [?filled]) ! ref) = oid"
    if "(oid, ref) \<in> set (AList.update gen (length (pa_heap p)) (pa_orders p))" for oid ref
  proof -
    from that update_subset have "(oid, ref) = (gen, length (pa_heap p)) \<or> (oid, ref) \<in> set (pa_orders p)"
      by fastforce
    with assms show ?thesis by (auto simp: paper_inv_def list_all_iff nth_append)
  qed
  have keys: "fst ` set (AList.update gen (length (pa_heap p)) (pa_orders p)) = insert gen (fst ` set (pa_orders p))"
    by (simp add: dom_update)
  from assms refs keys show ?thesis
    by (auto simp: paper_inv_def paper_submit_order_def fill_record_def Let_def list_all_iff)
qed

lemma paper_cancel_refused:
  assumes "paper_inv p" shows "paper_cancel_order now oid p = (False, p)"
proof (cases "map_of (pa_orders p) oid")
  case (Some ref)
  then have "(oid, ref) \<in> set (pa_orders p)" by (rule map_of_SomeD)
  with assms have "ref < length (pa_heap p)" by (auto simp: paper_inv_def list_all_iff)
  with assms have "o_status (pa_heap p ! ref) = FILLED" by (simp add: paper_inv_def list_all_length)
  with Some show ?thesis by (simp add: paper_cancel_order_def)
qed (simp add: paper_cancel_order_def)

definition paper_submit where
  "paper_submit now gen oi p = (case paper_submit_order now gen oi p of (ord, p') \<Rightarrow> (Inr ord :: exec_exn + exec_msg order, p'))"

definition paper_cancel where
  "paper_cancel now oid p = (case paper_cancel_order now oid p of (b, p') \<Rightarrow> (Inr b :: exec_exn + bool, p'))"

interpretation pap: execution_adapter paper_submit paper_cancel paper_inv
proof
  fix p :: paper and now :: ms and gen :: string and oi :: order_intent
  assume "paper_inv p"
  from paper_submit_inv [OF this] show "paper_inv (snd (paper_submit now gen oi p))"
    by (simp add: paper_submit_def split_beta)
next
  fix p :: paper and now :: ms and oid :: string
  assume "paper_inv p"
  then show "paper_inv (snd (paper_cancel now oid p))"
    by (simp add: paper_cancel_def paper_cancel_refused)
next
  fix p p' :: paper and now :: ms and gen :: string and oi :: order_intent and ord :: "exec_msg order"
  assume "paper_submit now gen oi p = (Inr ord, p')"
  then show "carries ord oi" by (auto simp: paper_submit_def paper_submit_order_def Let_def)
qed

text \<open>The live adapters implement the protocol for every client, whatever it does.\<close>

lemma live_submit_carries: "live_submit_order v api g now gen oi a = (Inr ord, a') \<Longrightarrow> carries ord oi"
  by (cases rule: live_submit_cases [where v = v and api = api and g = g and now = now and gen = gen
        and oi = oi and a = a]) auto

interpretation live: execution_adapter "live_submit_order v api g" "\<lambda>now. live_cancel_order v api" "\<lambda>_. True"
  for v :: venue and api :: "'c client_api" and g :: "(string \<times> instrument_rules) list"
  by unfold_locales (auto dest: live_submit_carries)

datatype paper_op = PaperSubmit ms string order_intent | PaperCancel ms string

primrec paper_step :: "paper_op \<Rightarrow> paper \<Rightarrow> paper" where
  "paper_step (PaperSubmit now gen oi) p = snd (paper_submit_order now gen oi p)"
| "paper_step (PaperCancel now oid) p = snd (paper_cancel_order now oid p)"

interpretation pm: invariant_machine paper_step paper_inv
proof
  fix p op
  assume "paper_inv p"
  then show "paper_inv (paper_step op p)"
    by (cases op) (simp_all add: paper_submit_inv paper_cancel_refused)
qed

subsection \<open>The router\<close>

text \<open>Registered adapters are objects: the same one may serve several account types, so the
  registry holds references into \<open>ro_heap\<close>.\<close>

record 'a router =
  ro_risk :: risk_manager
  ro_accounts :: "account_row list"
  ro_adapters :: "account_type \<Rightarrow> nat option"
  ro_heap :: "'a list"

definition router_init :: "risk_manager \<Rightarrow> account_row list \<Rightarrow> 'a list \<Rightarrow> 'a router" where
  "router_init rm t heap = \<lparr>ro_risk = rm, ro_accounts = t, ro_adapters = (\<lambda>_. None), ro_heap = heap\<rparr>"

definition register_adapter :: "account_type \<Rightarrow> nat \<Rightarrow> 'a router \<Rightarrow> 'a router" where
  "register_adapter ty ref r = r\<lparr>ro_adapters := (ro_adapters r)(ty := Some ref)\<rparr>"

definition rejected_order :: "order_intent \<Rightarrow> string \<Rightarrow> exec_msg \<Rightarrow> ms \<Rightarrow> exec_msg order" where
  "rejected_order oi gen e now = order_of_intent oi gen REJECTED (Fin 0) None now (Some e)"

text \<open>What one call reads from outside: the clocks of the router, the risk rules and the adapter,
  and the ids the router and the adapter draw.\<close>

record router_env =
  en_now :: ms
  en_now_s :: int
  en_adapter_now :: ms
  en_gen :: string
  en_adapter_gen :: string

text \<open>\<open>submit_order\<close>; \<open>submit\<close> is the adapter's own method.\<close>

definition router_submit ::
  "(ms \<Rightarrow> string \<Rightarrow> order_intent \<Rightarrow> 'a \<Rightarrow> (exec_exn + exec_msg order) \<times> 'a) \<Rightarrow> router_env
   \<Rightarrow> order_intent \<Rightarrow> 'a router \<Rightarrow> (exec_exn + exec_msg order) \<times> 'a router"
where
  "router_submit submit en oi r =
     (case get_account (en_gen en) (oi_account_id oi) (ro_accounts r) of
        Inl e \<Rightarrow> (Inl (PyError PyValueError), r)
      | Inr None \<Rightarrow>
          (Inr (rejected_order oi (en_gen en) (AccountNotFound (oi_account_id oi)) (en_now en)), r)
      | Inr (Some acc) \<Rightarrow>
          (let ((allowed, msg), rm) = check_order (en_now_s en) oi acc (ro_risk r);
               r1 = r\<lparr>ro_risk := rm\<rparr>
           in if \<not> allowed
              then (Inr (rejected_order oi (en_gen en)
                      (if msg_true msg then RiskRejected (the msg) else RiskBlockedOrder) (en_now en)), r1)
              else (case ro_adapters r1 (acc_account_type acc) of
                      None \<Rightarrow>
                        (Inr (rejected_order oi (en_gen en)
                           (NoAdapterRegistered (acc_account_type acc)) (en_now en)), r1)
                    | Some ref \<Rightarrow>
                        (case submit (en_adapter_now en) (en_adapter_gen en) oi (ro_heap r1 ! ref) of
                           (Inr ord, a') \<Rightarrow> (Inr ord, r1\<lparr>ro_heap := (ro_heap r1)[ref := a']\<rparr>)
                         | (Inl e, a') \<Rightarrow>
                             (Inr (rejected_order oi (en_gen en) (AdapterError e) (en_now en)),
                              r1\<lparr>ro_heap := (ro_heap r1)[ref := a']\<rparr>)))))"

definition router_cancel ::
  "(ms \<Rightarrow> string \<Rightarrow> 'a \<Rightarrow> (exec_exn + bool) \<times> 'a) \<Rightarrow> router_env
   \<Rightarrow> string \<Rightarrow> string \<Rightarrow> 'a router \<Rightarrow> (exec_exn + bool) \<times> 'a router"
where
  "router_cancel cancel en oid aid r =
     (case get_account (en_gen en) aid (ro_accounts r) of
        Inl e \<Rightarrow> (Inl (PyError PyValueError), r)
      | Inr None \<Rightarrow> (Inr False, r)
      | Inr (Some acc) \<Rightarrow>
          (case ro_adapters r (acc_account_type acc) of
             None \<Rightarrow> (Inl (ExecutionUnavailableError (NoAdapterFor (acc_account_type acc))), r)
           | Some ref \<Rightarrow>
               (case cancel (en_adapter_now en) oid (ro_heap r ! ref) of
                  (Inr b, a') \<Rightarrow> (Inr b, r\<lparr>ro_heap := (ro_heap r)[ref := a']\<rparr>)
                | (Inl (ExecutionUnavailableError e), a') \<Rightarrow>
                    (Inl (ExecutionUnavailableError e), r\<lparr>ro_heap := (ro_heap r)[ref := a']\<rparr>)
                | (Inl e, a') \<Rightarrow>
                    (Inl (ExecutionUnavailableError (AdapterCancelFailed e)),
                     r\<lparr>ro_heap := (ro_heap r)[ref := a']\<rparr>))))"

text \<open>Accounts written by the account manager always read back.\<close>

lemma row_to_account_readable: "mode_of (ar_mode r) \<noteq> None \<Longrightarrow> \<exists>a. row_to_account gen r = Inr a"
  by (auto simp: row_to_account_def account_init_def str_or_def mode_of_def Let_def split: if_splits)

lemma get_account_readable:
  assumes "accounts_ok t" shows "\<exists>x. get_account gen aid t = Inr x"
proof (cases "filter (matches_id aid) t")
  case (Cons r rs)
  then have "r \<in> set t" by (metis filter_is_subset list.set_intros(1) subsetD)
  with assms have "mode_of (ar_mode r) \<noteq> None" by (auto simp: accounts_ok_def list_all_iff)
  with row_to_account_readable [of r gen] Cons show ?thesis by (auto simp: get_account_def)
qed (simp add: get_account_def)

text \<open>The possible courses of a submission.\<close>

lemma router_submit_cases [consumes 1, case_names refused routed]:
  assumes "accounts_ok (ro_accounts r)"
  obtains
    (refused) e rm where "router_submit submit en oi r =
        (Inr (rejected_order oi (en_gen en) e (en_now en)), r\<lparr>ro_risk := rm\<rparr>)"
  | (routed) acc msg rm ref res a' where
      "get_account (en_gen en) (oi_account_id oi) (ro_accounts r) = Inr (Some acc)"
      and "check_order (en_now_s en) oi acc (ro_risk r) = ((True, msg), rm)"
      and "ro_adapters r (acc_account_type acc) = Some ref"
      and "submit (en_adapter_now en) (en_adapter_gen en) oi (ro_heap r ! ref) = (res, a')"
      and "router_submit submit en oi r =
        (Inr (case res of Inr ord \<Rightarrow> ord | Inl e \<Rightarrow> rejected_order oi (en_gen en) (AdapterError e) (en_now en)),
         r\<lparr>ro_risk := rm, ro_heap := (ro_heap r)[ref := a']\<rparr>)"
proof -
  obtain x where x: "get_account (en_gen en) (oi_account_id oi) (ro_accounts r) = Inr x"
    using get_account_readable [OF assms] by blast
  show ?thesis
  proof (cases x)
    case None
    show ?thesis by (rule refused [of _ "ro_risk r"]) (simp add: router_submit_def x None)
  next
    case (Some acc)
    obtain allowed msg rm where ck: "check_order (en_now_s en) oi acc (ro_risk r) = ((allowed, msg), rm)"
      by (metis surj_pair)
    show ?thesis
    proof (cases "allowed \<and> ro_adapters r (acc_account_type acc) \<noteq> None")
      case True
      then obtain ref where ref: "ro_adapters r (acc_account_type acc) = Some ref" by auto
      obtain res a' where sub: "submit (en_adapter_now en) (en_adapter_gen en) oi (ro_heap r ! ref) = (res, a')"
        by (metis surj_pair)
      from True ck have ck': "check_order (en_now_s en) oi acc (ro_risk r) = ((True, msg), rm)" by simp
      show ?thesis
        by (rule routed [OF x [unfolded Some] ck' ref sub])
          (simp add: router_submit_def x Some ck' ref sub split: sum.split)
    next
      case False
      show ?thesis
        by (rule refused [of "if \<not> allowed
              then (if msg_true msg then RiskRejected (the msg) else RiskBlockedOrder)
              else NoAdapterRegistered (acc_account_type acc)" rm])
          (use False in \<open>auto simp: router_submit_def x Some ck Let_def\<close>)
    qed
  qed
qed

lemma router_cancel_cases:
  "snd (router_cancel cancel en oid aid r) = r \<or>
   (\<exists>ty ref. ro_adapters r ty = Some ref \<and> snd (router_cancel cancel en oid aid r) =
      r\<lparr>ro_heap := (ro_heap r)[ref := snd (cancel (en_adapter_now en) oid (ro_heap r ! ref))]\<rparr>)"
proof (cases "get_account (en_gen en) aid (ro_accounts r)")
  case (Inr x)
  show ?thesis
  proof (cases x)
    case (Some acc)
    show ?thesis
    proof (cases "ro_adapters r (acc_account_type acc)")
      case (Some ref)
      with Inr \<open>x = Some acc\<close> have "snd (router_cancel cancel en oid aid r) =
        r\<lparr>ro_heap := (ro_heap r)[ref := snd (cancel (en_adapter_now en) oid (ro_heap r ! ref))]\<rparr>"
        by (simp add: router_cancel_def split: prod.split sum.split exec_exn.split)
      with Some show ?thesis by blast
    qed (simp add: router_cancel_def Inr Some)
  qed (simp add: router_cancel_def Inr)
qed (simp add: router_cancel_def)

definition router_ok :: "('a \<Rightarrow> bool) \<Rightarrow> 'a router \<Rightarrow> bool" where
  "router_ok ok r \<longleftrightarrow> accounts_ok (ro_accounts r) \<and> list_all ok (ro_heap r) \<and>
     (\<forall>ty ref. ro_adapters r ty = Some ref \<longrightarrow> ref < length (ro_heap r))"

context execution_adapter
begin

lemma heap_update_inv:
  "list_all inv heap \<Longrightarrow> inv a \<Longrightarrow> list_all inv (heap[ref := a])"
  by (auto simp: list_all_iff dest: subsetD [OF set_update_subset_insert])

lemma router_answers:
  assumes ok: "router_ok inv r"
  shows "\<exists>ord r'. router_submit submit en oi r = (Inr ord, r') \<and> carries ord oi \<and> router_ok inv r'"
proof -
  from ok have acc: "accounts_ok (ro_accounts r)" by (simp add: router_ok_def)
  then show ?thesis
  proof (cases rule: router_submit_cases [where submit = submit and en = en and oi = oi])
    case (refused e rm)
    with ok show ?thesis by (simp add: rejected_order_def router_ok_def)
  next
    case (routed acc msg rm ref res a')
    with ok have i: "inv (ro_heap r ! ref)" by (auto simp: router_ok_def list_all_length)
    with submit_inv [OF i, of "en_adapter_now en" "en_adapter_gen en" oi] routed(4)
    have "inv a'" by simp
    with ok have "router_ok inv (r\<lparr>ro_risk := rm, ro_heap := (ro_heap r)[ref := a']\<rparr>)"
      by (simp add: router_ok_def heap_update_inv)
    moreover have "carries (case res of Inr ord \<Rightarrow> ord
        | Inl e \<Rightarrow> rejected_order oi (en_gen en) (AdapterError e) (en_now en)) oi"
      using submit_carries [OF i] routed(4) by (auto simp: rejected_order_def split: sum.split)
    ultimately show ?thesis using routed(5) by simp
  qed
qed

lemma router_cancel_ok:
  assumes ok: "router_ok inv r"
  shows "router_ok inv (snd (router_cancel cancel en oid aid r))"
proof -
  have "router_ok inv (r\<lparr>ro_heap := (ro_heap r)[ref := snd (cancel now oid (ro_heap r ! ref))]\<rparr>)"
    if "ro_adapters r ty = Some ref" for now ty ref
  proof -
    from ok that have "inv (ro_heap r ! ref)" by (auto simp: router_ok_def list_all_length)
    with ok show ?thesis by (simp add: router_ok_def heap_update_inv cancel_inv)
  qed
  then show ?thesis using ok router_cancel_cases [of cancel en oid aid r] by auto
qed

end

text \<open>The adapters the gateway registers: paper or live, behind one interface.\<close>

datatype 'c adapter = AdPaper paper | AdLive venue "'c live_adapter"

fun adapter_submit ::
  "'c client_api \<Rightarrow> (string \<times> instrument_rules) list \<Rightarrow> ms \<Rightarrow> string \<Rightarrow> order_intent \<Rightarrow> 'c adapter
   \<Rightarrow> (exec_exn + exec_msg order) \<times> 'c adapter"
where
  "adapter_submit api g now gen oi (AdPaper p) = map_prod id AdPaper (paper_submit now gen oi p)"
| "adapter_submit api g now gen oi (AdLive v a) =
     map_prod id (AdLive v) (live_submit_order v api g now gen oi a)"

fun adapter_cancel ::
  "'c client_api \<Rightarrow> ms \<Rightarrow> string \<Rightarrow> 'c adapter \<Rightarrow> (exec_exn + bool) \<times> 'c adapter"
where
  "adapter_cancel api now oid (AdPaper p) = map_prod id AdPaper (paper_cancel now oid p)"
| "adapter_cancel api now oid (AdLive v a) = map_prod id (AdLive v) (live_cancel_order v api oid a)"

fun adapter_inv :: "'c adapter \<Rightarrow> bool" where
  "adapter_inv (AdPaper p) = paper_inv p"
| "adapter_inv (AdLive v a) = True"

interpretation ad: execution_adapter "adapter_submit api g" "adapter_cancel api" adapter_inv
  for api :: "'c client_api" and g :: "(string \<times> instrument_rules) list"
proof
  fix a :: "'c adapter" and now :: ms and gen :: string and oi :: order_intent
  assume "adapter_inv a"
  then show "adapter_inv (snd (adapter_submit api g now gen oi a))"
    by (cases a) (auto intro: pap.submit_inv)
next
  fix a :: "'c adapter" and now :: ms and oid :: string
  assume "adapter_inv a"
  then show "adapter_inv (snd (adapter_cancel api now oid a))"
    by (cases a) (auto intro: pap.cancel_inv)
next
  fix a a' :: "'c adapter" and now :: ms and gen :: string and oi :: order_intent
    and ord :: "exec_msg order"
  assume i: "adapter_inv a" and s: "adapter_submit api g now gen oi a = (Inr ord, a')"
  show "carries ord oi"
  proof (cases a)
    case (AdPaper p)
    with s obtain p' where "paper_submit now gen oi p = (Inr ord, p')"
      by (cases "paper_submit now gen oi p") auto
    with i AdPaper show ?thesis by (auto intro: pap.submit_carries)
  next
    case (AdLive v l)
    with s obtain l' where "live_submit_order v api g now gen oi l = (Inr ord, l')"
      by (cases "live_submit_order v api g now gen oi l") auto
    then show ?thesis by (rule live_submit_carries)
  qed
qed

datatype router_op =
    RouterSubmit router_env order_intent
  | RouterCancel router_env string string
  | RouterRisk risk_op
  | RouterAccounts account_op
  | RouterRegister account_type nat

fun router_step ::
  "(ms \<Rightarrow> string \<Rightarrow> order_intent \<Rightarrow> 'a \<Rightarrow> (exec_exn + exec_msg order) \<times> 'a)
   \<Rightarrow> (ms \<Rightarrow> string \<Rightarrow> 'a \<Rightarrow> (exec_exn + bool) \<times> 'a) \<Rightarrow> router_op \<Rightarrow> 'a router \<Rightarrow> 'a router"
where
  "router_step submit cancel (RouterSubmit en oi) r = snd (router_submit submit en oi r)"
| "router_step submit cancel (RouterCancel en oid aid) r = snd (router_cancel cancel en oid aid r)"
| "router_step submit cancel (RouterRisk op) r = r\<lparr>ro_risk := risk_step op (ro_risk r)\<rparr>"
| "router_step submit cancel (RouterAccounts op) r = r\<lparr>ro_accounts := account_step op (ro_accounts r)\<rparr>"
| "router_step submit cancel (RouterRegister ty ref) r = register_adapter ty ref r"

definition gate_inv :: "'a router \<Rightarrow> bool" where
  "gate_inv r \<longleftrightarrow> accounts_ok (ro_accounts r) \<and> kill_switch_first (ro_risk r)"

lemma router_submit_risk:
  "ro_risk (snd (router_submit submit en oi r)) = ro_risk r \<or>
   (\<exists>acc. ro_risk (snd (router_submit submit en oi r)) = snd (check_order (en_now_s en) oi acc (ro_risk r)))"
proof (cases "get_account (en_gen en) (oi_account_id oi) (ro_accounts r)")
  case (Inr x)
  show ?thesis
  proof (cases x)
    case (Some acc)
    have "ro_risk (snd (router_submit submit en oi r)) = snd (check_order (en_now_s en) oi acc (ro_risk r))"
      by (simp add: router_submit_def Inr Some Let_def split: prod.split option.split sum.split)
    then show ?thesis by blast
  qed (simp add: router_submit_def Inr)
qed (simp add: router_submit_def)

lemma router_accounts [frame_simps]:
  "ro_accounts (snd (router_submit submit en oi r)) = ro_accounts r"
  "ro_accounts (snd (router_cancel cancel en oid aid r)) = ro_accounts r"
  "ro_risk (snd (router_cancel cancel en oid aid r)) = ro_risk r"
  by (auto simp: router_submit_def router_cancel_def Let_def
      split: sum.splits option.splits prod.splits exec_exn.splits)

interpretation rt: invariant_machine "router_step submit cancel" gate_inv
  for submit :: "ms \<Rightarrow> string \<Rightarrow> order_intent \<Rightarrow> 'a \<Rightarrow> (exec_exn + exec_msg order) \<times> 'a"
    and cancel :: "ms \<Rightarrow> string \<Rightarrow> 'a \<Rightarrow> (exec_exn + bool) \<times> 'a"
proof
  fix r :: "'a router" and op
  assume i: "gate_inv r"
  show "gate_inv (router_step submit cancel op r)"
  proof (cases op)
    case (RouterSubmit en oi)
    with i router_submit_risk [of submit en oi r] show ?thesis
      by (auto simp: gate_inv_def frame_simps check_order_inv)
  qed (use i in \<open>auto simp: gate_inv_def frame_simps register_adapter_def
        intro: rk.step_inv am.step_inv\<close>)
qed

subsection \<open>Properties\<close>

definition example_env :: router_env where
  "example_env = \<lparr>en_now = 1000, en_now_s = 1, en_adapter_now = 1001, en_gen = ''ord_r'',
     en_adapter_gen = ''ord_a''\<rparr>"

definition example_adapters :: "create_request list adapter list" where
  "example_adapters = [AdPaper paper_init, AdLive Binance example_live]"

definition example_router :: "create_request list adapter router" where
  "example_router = fold (router_step (adapter_submit recording_api []) (adapter_cancel recording_api))
     [RouterAccounts (CreateAccount 5 ''a1'' (example_spec\<lparr>as_mode := Some PAPER\<rparr>)),
      RouterRegister PAPER 0, RouterRegister LIVE 1]
     (router_init (risk_manager_init False) [] example_adapters)"

lemma example_router_account:
  "\<exists>acc. get_account ''ord_r'' ''a1'' (ro_accounts example_router) = Inr (Some acc) \<and> acc_mode acc = PAPER"
  by (simp add: example_router_def router_init_def register_adapter_def create_account_def
      insert_account_row_def get_account_def matches_id_def new_account_row_def resolved_mode_def
      example_spec_def row_to_account_def account_init_def str_or_def mode_of_def Let_def)

lemma example_router_fields:
  "ro_adapters example_router PAPER = Some 0" "ro_risk example_router = risk_manager_init False"
  "ro_heap example_router = example_adapters"
  by (simp_all add: example_router_def router_init_def register_adapter_def)

lemma example_router_ok: "router_ok adapter_inv example_router"
  by (simp add: router_ok_def example_router_def router_init_def register_adapter_def
      create_account_ok accounts_ok_def [of "[]"] example_adapters_def paper_init_inv)

lemma example_router_submit:
  "\<exists>r'. router_submit (adapter_submit recording_api []) example_env (example_intent ''c1'') example_router =
    (Inr (order_of_intent (example_intent ''c1'') ''ord_a'' FILLED (Fin 2) (Some (Fin 100)) 1001 None), r')"
proof -
  obtain acc where "get_account ''ord_r'' ''a1'' (ro_accounts example_router) = Inr (Some acc)"
    "acc_mode acc = PAPER"
    using example_router_account by blast
  moreover have "oi_account_id (example_intent ''c1'') = ''a1''" by (simp add: example_intent_def)
  moreover have "fst (paper_submit_order 1001 ''ord_a'' (example_intent ''c1'') paper_init) =
    order_of_intent (example_intent ''c1'') ''ord_a'' FILLED (Fin 2) (Some (Fin 100)) 1001 None"
    by (simp add: paper_submit_order_def fill_price_def example_intent_def Let_def)
  moreover obtain rm where "check_order 1 (example_intent ''c1'') acc (risk_manager_init False) = ((True, None), rm)"
    using default_manager_allows by (metis surj_pair fst_conv)
  ultimately show ?thesis
    by (simp add: router_submit_def example_env_def example_router_fields acc_account_type_def
        example_adapters_def paper_submit_def split_beta)
qed

text \<open>C1: Nothing reaches an adapter except through the risk gate. For any adapter implementation, if
  a submission changes an adapter or returns an order that is not REJECTED, then the order's
  account exists, the risk manager allowed the order for that account, an adapter is registered
  for the account's mode, and exactly that adapter received exactly this order.\<close>

theorem router_gate:
  assumes "accounts_ok (ro_accounts r)"
    and "router_submit submit en oi r = (res, r')"
    and "ro_heap r' \<noteq> ro_heap r \<or> (\<exists>ord. res = Inr ord \<and> o_status ord \<noteq> REJECTED)"
  shows "\<exists>acc ref. get_account (en_gen en) (oi_account_id oi) (ro_accounts r) = Inr (Some acc) \<and>
    fst (fst (check_order (en_now_s en) oi acc (ro_risk r))) \<and>
    ro_adapters r (acc_account_type acc) = Some ref \<and>
    ro_heap r' = (ro_heap r)[ref :=
      snd (submit (en_adapter_now en) (en_adapter_gen en) oi (ro_heap r ! ref))]"
  using assms(1)
proof (cases rule: router_submit_cases [where submit = submit and en = en and oi = oi])
  case (refused e rm)
  with assms(2,3) show ?thesis by (auto simp: rejected_order_def)
next
  case (routed acc msg rm ref result a')
  with assms(2) show ?thesis by auto
qed

theorem router_gate_witness:
  "\<exists>res r'. router_submit (adapter_submit recording_api []) example_env (example_intent ''c1'') example_router = (res, r') \<and>
     (\<exists>ord. res = Inr ord \<and> o_status ord = FILLED) \<and>
     (\<exists>acc ref. get_account ''ord_r'' ''a1'' (ro_accounts example_router) = Inr (Some acc) \<and>
        fst (fst (check_order 1 (example_intent ''c1'') acc (ro_risk example_router))) \<and>
        ro_adapters example_router (acc_account_type acc) = Some ref)"
proof -
  obtain r' where r': "router_submit (adapter_submit recording_api []) example_env (example_intent ''c1'') example_router =
    (Inr (order_of_intent (example_intent ''c1'') ''ord_a'' FILLED (Fin 2) (Some (Fin 100)) 1001 None), r')"
    using example_router_submit by blast
  have acc: "accounts_ok (ro_accounts example_router)" using example_router_ok by (simp add: router_ok_def)
  from router_gate [OF acc r'] r' show ?thesis
    by (auto simp: example_env_def example_intent_def)
qed



text \<open>C2: Over any sequence of submissions, account changes, registrations and risk-manager calls
  that do not switch the kill switch off, a router whose kill switch was turned on sends nothing
  to any adapter: all adapters are left exactly as they were.\<close>

theorem kill_switch_stops_execution:
  assumes r: "r = router_step submit cancel (RouterRisk (SetKillSwitch True))
      (fold (router_step submit cancel) before (router_init (risk_manager_init ks) [] heap))"
    and ops: "\<And>op. op \<in> set ops \<Longrightarrow> op \<noteq> RouterRisk (SetKillSwitch False) \<and>
      (\<forall>en oid aid. op \<noteq> RouterCancel en oid aid)"
  shows "ro_heap (fold (router_step submit cancel) ops r) = ro_heap r"
proof -
  have "gate_inv (router_init (risk_manager_init ks) [] heap)"
    by (simp add: gate_inv_def router_init_def accounts_ok_def risk_init_inv)
  then have i: "gate_inv r" unfolding r by (intro rt.step_inv rt.run_inv)
  have "ro_heap (fold (router_step submit cancel) ops r) = ro_heap r \<and>
    rm_kill_switch (ro_risk (fold (router_step submit cancel) ops r))"
  proof (rule rt.run_stable [OF i])
    show "ro_heap r = ro_heap r \<and> rm_kill_switch (ro_risk r)"
      by (simp add: r set_kill_switch_def)
    fix s op
    assume i: "gate_inv s" and s: "ro_heap s = ro_heap r \<and> rm_kill_switch (ro_risk s)"
      and op: "op \<in> set ops"
    show "ro_heap (router_step submit cancel op s) = ro_heap r \<and>
      rm_kill_switch (ro_risk (router_step submit cancel op s))"
    proof (cases op)
      case (RouterSubmit en oi)
      have a: "accounts_ok (ro_accounts s)" and k: "kill_switch_first (ro_risk s)"
        using i by (simp_all add: gate_inv_def)
      from a have "ro_heap (snd (router_submit submit en oi s)) = ro_heap s"
      proof (cases rule: router_submit_cases [where submit = submit and en = en and oi = oi])
        case (routed acc msg rm ref res a')
        with killed_check_order [OF k, of "en_now_s en" oi acc] s show ?thesis by simp
      qed simp
      with router_submit_risk [of submit en oi s] RouterSubmit s show ?thesis
        by (auto simp: frame_simps)
    next
      case (RouterRisk rop)
      with ops [OF op] s show ?thesis
        by (cases rop) (auto simp: add_rule_def set_kill_switch_def clear_violations_def frame_simps)
    qed (use ops [OF op] s in \<open>auto simp: register_adapter_def\<close>)
  qed
  then show ?thesis by blast
qed

theorem kill_switch_stops_execution_witness:
  "let step = router_step (adapter_submit recording_api []) (adapter_cancel recording_api);
       r = step (RouterRisk (SetKillSwitch True)) (fold step [] (router_init (risk_manager_init False) [] example_adapters))
   in ro_heap (fold step [RouterRegister PAPER 0, RouterSubmit example_env (example_intent ''c1'')] r) = example_adapters"
  unfolding Let_def
  by (subst kill_switch_stops_execution [OF refl]) (auto simp: router_init_def)

text \<open>After any run of the paper adapter, a submitted order is found under its generated id as
  FILLED for its full quantity at the requested price (zero for an order without one), exactly one
  fill record for it is appended, and orders under other ids are unchanged.\<close>

theorem paper_submit_visible:
  assumes "p = fold paper_step ops paper_init" and "paper_submit_order now gen oi p = (ord, p')"
  shows "paper_get_order_status gen p' = Some ord \<and> carries ord oi \<and> o_status ord = FILLED \<and>
    o_filled_quantity ord = oi_quantity oi \<and>
    o_avg_fill_price ord = Some (case oi_price oi of Some x \<Rightarrow> x | None \<Rightarrow> Fin 0) \<and>
    get_fills None p' = get_fills None p @ [fill_record oi ord (fill_price oi) now] \<and>
    (\<forall>other. other \<noteq> gen \<longrightarrow> paper_get_order_status other p' = paper_get_order_status other p)"
proof -
  have i: "paper_inv p" unfolding assms(1) by (rule pm.run_inv [OF paper_init_inv])
  have "paper_get_order_status other p' = paper_get_order_status other p" if "other \<noteq> gen" for other
  proof (cases "map_of (pa_orders p) other")
    case (Some ref)
    with i have "ref < length (pa_heap p)" by (auto simp: paper_inv_def list_all_iff dest: map_of_SomeD)
    with Some assms(2) that show ?thesis
      by (auto simp: paper_get_order_status_def paper_submit_order_def map_of_update Let_def nth_append)
  qed (use assms(2) that in \<open>auto simp: paper_get_order_status_def paper_submit_order_def map_of_update Let_def\<close>)
  with assms(2) show ?thesis
    by (auto simp: paper_get_order_status_def paper_submit_order_def map_of_update get_fills_def
        fill_price_def Let_def)
qed

theorem paper_submit_visible_witness:
  "\<exists>ord p'. paper_submit_order 9 ''ord_2'' (example_intent ''c2'')
       (fold paper_step [PaperSubmit 8 ''ord_1'' (example_intent ''c1'')] paper_init) = (ord, p') \<and>
     paper_get_order_status ''ord_2'' p' = Some ord \<and> o_status ord = FILLED"
  using paper_submit_visible [OF refl, of 9 "''ord_2''" "example_intent ''c2''"
      "[PaperSubmit 8 ''ord_1'' (example_intent ''c1'')]"]
  by (metis surj_pair)

text \<open>A paper order can never be cancelled: after any run, \<open>cancel_order\<close> returns False for
  every id and changes nothing, because limit and stop orders too are filled on submission.\<close>

theorem paper_cancel_never_succeeds:
  "paper_cancel_order now oid (fold paper_step ops paper_init) = (False, fold paper_step ops paper_init)"
  by (intro paper_cancel_refused pm.run_inv paper_init_inv)

end
