(* ===== verification/Jobs.thy ===== *)
theory Jobs
  imports PyNum
begin

text \<open>
  The in-memory job scheduler (\<^verbatim>\<open>openpine/jobs/scheduler.py\<close>) with its job model
  (\<^verbatim>\<open>jobs/models.py\<close>) and the retry policy (\<^verbatim>\<open>jobs/retry.py\<close>). The queue and the job dict share
  \<open>Job\<close> objects, so both hold references into a heap. Each method holds the reentrant lock, so it
  is one atomic step; the clock and generated ids are arguments.
\<close>

subsection \<open>Jobs\<close>

datatype job_type =
    BacktestJob | OptimizerJob | BackfillJob | LiveBarJob | PaperBarJob | ObserveBarJob | ReportJob

datatype job_status = JPending | JRunning | JDone | JFailed | JCancelled

record job =
  j_type :: job_type
  j_id :: string
  j_strategy_id :: "string option"
  j_status :: job_status
  j_idempotency_key :: "string option"
  j_serialization_key :: "string option"
  j_priority :: int
  j_created_at :: ms
  j_updated_at :: ms
  j_scheduled_at :: "ms option"
  j_started_at :: "ms option"
  j_finished_at :: "ms option"
  j_error :: "string option"
  j_input :: "json option"
  j_result :: "json option"
  j_worker_id :: "string option"
  j_attempt :: int
  j_max_retries :: int

definition touch :: "ms \<Rightarrow> job \<Rightarrow> job" where
  "touch now j = j\<lparr>j_updated_at := now\<rparr>"

lemma touch_status [simp]: "j_status (touch now j) = j_status j"
  by (simp add: touch_def)

subsection \<open>The scheduler\<close>

record scheduler =
  sc_heap :: "job list"
  sc_queue :: "nat list"
  sc_jobs :: "(string \<times> nat) list"
  sc_running :: "(string \<times> string) list"
  sc_locks :: "(string \<times> string \<times> ms) list"
  sc_idempotency :: "(string \<times> string) list"

definition scheduler_init :: scheduler where
  "scheduler_init = \<lparr>sc_heap = [], sc_queue = [], sc_jobs = [], sc_running = [], sc_locks = [],
     sc_idempotency = []\<rparr>"

text \<open>The caller's \<open>Job(...)\<close>: a new object.\<close>

definition new_job :: "job \<Rightarrow> scheduler \<Rightarrow> nat \<times> scheduler" where
  "new_job j s = (length (sc_heap s), s\<lparr>sc_heap := sc_heap s @ [j]\<rparr>)"

definition queue_key :: "job list \<Rightarrow> nat \<Rightarrow> int \<times> int" where
  "queue_key heap ref = (- j_priority (heap ! ref), j_created_at (heap ! ref))"

definition requeue_sort :: "scheduler \<Rightarrow> scheduler" where
  "requeue_sort s = s\<lparr>sc_queue := sort_key (queue_key (sc_heap s)) (sc_queue s)\<rparr>"

definition existing_job :: "job \<Rightarrow> scheduler \<Rightarrow> nat option" where
  "existing_job j s =
     (if truthy (j_idempotency_key j)
      then Option.bind (map_of (sc_idempotency s) (the (j_idempotency_key j))) (map_of (sc_jobs s))
      else None)"

definition enqueue :: "string \<Rightarrow> nat \<Rightarrow> scheduler \<Rightarrow> nat \<times> scheduler" where
  "enqueue uuid ref s =
     (let j = sc_heap s ! ref
      in case existing_job j s of
           Some r \<Rightarrow> (r, s)
         | None \<Rightarrow>
             (let jid = (if j_id j \<noteq> [] then j_id j else uuid);
                  s1 = s\<lparr>sc_heap := (sc_heap s)[ref := j\<lparr>j_id := jid\<rparr>],
                         sc_jobs := AList.update jid ref (sc_jobs s)\<rparr>;
                  s2 = (if truthy (j_idempotency_key j)
                        then s1\<lparr>sc_idempotency :=
                          AList.update (the (j_idempotency_key j)) jid (sc_idempotency s1)\<rparr> else s1);
                  s3 = s2\<lparr>sc_queue := sc_queue s2 @ [ref]\<rparr>
              in (ref, requeue_sort s3)))"

definition eligible :: "scheduler \<Rightarrow> nat \<Rightarrow> bool" where
  "eligible s ref \<longleftrightarrow>
     (let j = sc_heap s ! ref
      in j_status j = JPending \<and>
         \<not> (truthy (j_serialization_key j) \<and> the (j_serialization_key j) \<in> fst ` set (sc_running s)))"

text \<open>The loop of \<open>dequeue\<close>: the first eligible entry and the queue without it.\<close>

fun take_first :: "('a \<Rightarrow> bool) \<Rightarrow> 'a list \<Rightarrow> ('a \<times> 'a list) option" where
  "take_first P [] = None"
| "take_first P (x # xs) =
     (if P x then Some (x, xs) else map_option (\<lambda>(y, ys). (y, x # ys)) (take_first P xs))"

definition dequeue :: "scheduler \<Rightarrow> nat option \<times> scheduler" where
  "dequeue s =
     (case take_first (eligible s) (sc_queue s) of
        Some (ref, rest) \<Rightarrow> (Some ref, s\<lparr>sc_queue := rest\<rparr>)
      | None \<Rightarrow> (None, s))"

definition update_job :: "(job \<Rightarrow> job) \<Rightarrow> nat \<Rightarrow> scheduler \<Rightarrow> scheduler" where
  "update_job f ref s = s\<lparr>sc_heap := (sc_heap s)[ref := f (sc_heap s ! ref)]\<rparr>"

definition mark_running :: "ms \<Rightarrow> string \<Rightarrow> scheduler \<Rightarrow> scheduler" where
  "mark_running now jid s =
     (case map_of (sc_jobs s) jid of
        None \<Rightarrow> s
      | Some ref \<Rightarrow>
          (let s1 = update_job (\<lambda>j. touch now (j\<lparr>j_status := JRunning, j_started_at := Some now\<rparr>)) ref s;
               key = j_serialization_key (sc_heap s ! ref)
           in if truthy key then s1\<lparr>sc_running := AList.update (the key) jid (sc_running s1)\<rparr> else s1))"

text \<open>The common tail of the three terminal transitions: free the serialization key if this job
  holds it.\<close>

definition release_key :: "nat \<Rightarrow> string \<Rightarrow> scheduler \<Rightarrow> scheduler" where
  "release_key ref jid s =
     (let key = j_serialization_key (sc_heap s ! ref)
      in if truthy key \<and> map_of (sc_running s) (the key) = Some jid
         then s\<lparr>sc_running := AList.delete (the key) (sc_running s)\<rparr> else s)"

definition mark_done :: "ms \<Rightarrow> string \<Rightarrow> json option \<Rightarrow> scheduler \<Rightarrow> scheduler" where
  "mark_done now jid res s =
     (case map_of (sc_jobs s) jid of
        None \<Rightarrow> s
      | Some ref \<Rightarrow> release_key ref jid (update_job (\<lambda>j. touch now
          (j\<lparr>j_status := JDone, j_finished_at := Some now, j_result := res\<rparr>)) ref s))"

definition mark_failed :: "ms \<Rightarrow> string \<Rightarrow> string \<Rightarrow> scheduler \<Rightarrow> scheduler" where
  "mark_failed now jid e s =
     (case map_of (sc_jobs s) jid of
        None \<Rightarrow> s
      | Some ref \<Rightarrow> release_key ref jid (update_job (\<lambda>j. touch now
          (j\<lparr>j_status := JFailed, j_finished_at := Some now, j_error := Some e\<rparr>)) ref s))"

definition cancel :: "ms \<Rightarrow> string \<Rightarrow> scheduler \<Rightarrow> scheduler" where
  "cancel now jid s =
     (case map_of (sc_jobs s) jid of
        None \<Rightarrow> s
      | Some ref \<Rightarrow>
          if j_status (sc_heap s ! ref) \<in> {JDone, JFailed, JCancelled} then s
          else release_key ref jid (update_job (\<lambda>j. touch now
            (j\<lparr>j_status := JCancelled, j_finished_at := Some now\<rparr>)) ref s))"

definition get_job :: "string \<Rightarrow> scheduler \<Rightarrow> job option" where
  "get_job jid s = map_option (\<lambda>ref. sc_heap s ! ref) (map_of (sc_jobs s) jid)"

definition list_jobs :: "job_status option \<Rightarrow> scheduler \<Rightarrow> job list" where
  "list_jobs st s =
     (let jobs = map (\<lambda>(_, ref). sc_heap s ! ref) (sc_jobs s);
          sel = (case st of None \<Rightarrow> jobs | Some x \<Rightarrow> filter (\<lambda>j. j_status j = x) jobs)
      in sort_key (\<lambda>j. - j_created_at j) sel)"

definition is_running :: "string \<Rightarrow> scheduler \<Rightarrow> bool" where
  "is_running key s \<longleftrightarrow> key \<in> fst ` set (sc_running s)"

subsection \<open>Locks\<close>

definition acquire_lock :: "ms \<Rightarrow> string \<Rightarrow> string \<Rightarrow> int \<Rightarrow> scheduler \<Rightarrow> bool \<times> scheduler" where
  "acquire_lock now resource owner ttl s =
     (let fresh = s\<lparr>sc_locks := AList.update resource (owner, now + ttl * 1000) (sc_locks s)\<rparr>
      in case map_of (sc_locks s) resource of
           Some (holder, expiry) \<Rightarrow>
             if holder = owner then (True, fresh)
             else if expiry > now then (False, s) else (True, fresh)
         | None \<Rightarrow> (True, fresh))"

definition release_lock :: "string \<Rightarrow> string \<Rightarrow> scheduler \<Rightarrow> scheduler" where
  "release_lock resource owner s =
     (case map_of (sc_locks s) resource of
        Some (holder, _) \<Rightarrow>
          if holder = owner then s\<lparr>sc_locks := AList.delete resource (sc_locks s)\<rparr> else s
      | None \<Rightarrow> s)"

definition recover_stale_locks :: "ms \<Rightarrow> scheduler \<Rightarrow> nat \<times> scheduler" where
  "recover_stale_locks now s =
     (let stale = map fst (filter (\<lambda>(_, _, expiry). expiry \<le> now) (sc_locks s))
      in (length stale, s\<lparr>sc_locks := fold AList.delete stale (sc_locks s)\<rparr>))"

subsection \<open>Retry policy\<close>

record retry_policy =
  rp_max_attempts :: int
  rp_base_delay :: pyfloat
  rp_multiplier :: pyfloat
  rp_max_delay :: pyfloat

definition default_policy :: retry_policy where
  "default_policy = \<lparr>rp_max_attempts = 3, rp_base_delay = Fin 1, rp_multiplier = Fin 2,
     rp_max_delay = Fin 60\<rparr>"

text \<open>\<open>x ** n\<close> of a float and a non-negative integer, which raises when the result of finite
  operands is too large.\<close>

fun fpow :: "pyfloat \<Rightarrow> nat \<Rightarrow> py_exn + pyfloat" where
  "fpow (Fin a) n = (case rnd (a ^ n) of Fin v \<Rightarrow> Inr (Fin v) | _ \<Rightarrow> Inl PyOverflowError)"
| "fpow NaN n = Inr (if n = 0 then Fin 1 else NaN)"
| "fpow PInf n = Inr (if n = 0 then Fin 1 else PInf)"
| "fpow NInf n = Inr (if n = 0 then Fin 1 else if even n then PInf else NInf)"

definition get_delay :: "retry_policy \<Rightarrow> int \<Rightarrow> py_exn + pyfloat" where
  "get_delay p attempt =
     (if attempt \<le> 0 then Inr (Fin 0)
      else res_bind (fpow (rp_multiplier p) (nat (attempt - 1))) (\<lambda>m.
             Inr (fmin (fmul (rp_base_delay p) m) (rp_max_delay p))))"

definition should_retry :: "retry_policy \<Rightarrow> int \<Rightarrow> bool" where
  "should_retry p attempt \<longleftrightarrow> attempt < rp_max_attempts p"

subsection \<open>Steps and reachable states\<close>

text \<open>The calls the program makes: a freshly constructed job is enqueued under an id not yet in
  use; a worker claims a job by \<open>dequeue\<close> and \<open>mark_running\<close> of what it got; the other methods are
  called with any arguments.\<close>

inductive sched_step :: "scheduler \<Rightarrow> scheduler \<Rightarrow> bool" where
  submit: "new_job j s = (ref, s1) \<Longrightarrow> j_status j = JPending \<Longrightarrow>
    (if j_id j \<noteq> [] then j_id j else uuid) \<notin> dom (map_of (sc_jobs s)) \<Longrightarrow>
    sched_step s (snd (enqueue uuid ref s1))"
| claim: "dequeue s = (Some ref, s1) \<Longrightarrow> sched_step s (mark_running now (j_id (sc_heap s1 ! ref)) s1)"
| finish: "sched_step s (mark_done now jid res s)"
| fail: "sched_step s (mark_failed now jid e s)"
| cancel: "sched_step s (cancel now jid s)"
| lock: "sched_step s (snd (acquire_lock now resource owner ttl s))"
| unlock: "sched_step s (release_lock resource owner s)"
| recover: "sched_step s (snd (recover_stale_locks now s))"

inductive_cases sched_stepE: "sched_step s s'"

definition jobs_ok :: "job list \<Rightarrow> (string \<times> nat) list \<Rightarrow> bool" where
  "jobs_ok heap jobs \<longleftrightarrow> (\<forall>jid ref. map_of jobs jid = Some ref \<longrightarrow>
     ref < length heap \<and> j_id (heap ! ref) = jid)"

definition queue_ok :: "job list \<Rightarrow> (string \<times> nat) list \<Rightarrow> nat list \<Rightarrow> bool" where
  "queue_ok heap jobs q \<longleftrightarrow> distinct q \<and> sorted (map (queue_key heap) q) \<and>
     (\<forall>ref \<in> set q. map_of jobs (j_id (heap ! ref)) = Some ref)"

definition running_ok :: "job list \<Rightarrow> (string \<times> nat) list \<Rightarrow> (string \<times> string) list \<Rightarrow> bool" where
  "running_ok heap jobs running \<longleftrightarrow> (\<forall>jid ref key. map_of jobs jid = Some ref \<longrightarrow>
     j_status (heap ! ref) = JRunning \<longrightarrow> j_serialization_key (heap ! ref) = Some key \<longrightarrow> key \<noteq> [] \<longrightarrow>
     map_of running key = Some jid)"

definition idem_ok :: "(string \<times> nat) list \<Rightarrow> (string \<times> string) list \<Rightarrow> bool" where
  "idem_ok jobs idem \<longleftrightarrow> ran (map_of idem) \<subseteq> dom (map_of jobs)"

definition sched_inv :: "scheduler \<Rightarrow> bool" where
  "sched_inv s \<longleftrightarrow> jobs_ok (sc_heap s) (sc_jobs s) \<and> queue_ok (sc_heap s) (sc_jobs s) (sc_queue s) \<and>
     running_ok (sc_heap s) (sc_jobs s) (sc_running s) \<and> idem_ok (sc_jobs s) (sc_idempotency s)"

lemma truthy_Some: "truthy k \<longleftrightarrow> (\<exists>s. k = Some s \<and> s \<noteq> [])"
  by (cases k) auto

lemma take_first_Some:
  "take_first P xs = Some (y, ys) \<Longrightarrow>
   \<exists>us vs. xs = us @ y # vs \<and> ys = us @ vs \<and> P y \<and> (\<forall>u \<in> set us. \<not> P u)"
proof (induction xs arbitrary: y ys)
  case (Cons x xs)
  show ?case
  proof (cases "P x")
    case True
    with Cons.prems show ?thesis by (intro exI [of _ "[]"] exI [of _ xs]) auto
  next
    case False
    with Cons.prems obtain zs where "take_first P xs = Some (y, zs)" and ys: "ys = x # zs" by auto
    from Cons.IH [OF this(1)] obtain us vs where "xs = us @ y # vs" "zs = us @ vs" "P y" "\<forall>u \<in> set us. \<not> P u"
      by blast
    with False ys show ?thesis by (intro exI [of _ "x # us"] exI [of _ vs]) auto
  qed
qed simp

lemma take_first_None: "take_first P xs = None \<longleftrightarrow> (\<forall>x \<in> set xs. \<not> P x)"
  by (induction xs) auto

lemma dequeue_Some:
  assumes "dequeue s = (Some ref, s1)"
  obtains us vs where "sc_queue s = us @ ref # vs" and "s1 = s\<lparr>sc_queue := us @ vs\<rparr>"
    and "eligible s ref" and "\<forall>u \<in> set us. \<not> eligible s u"
proof -
  from assms obtain rest where "take_first (eligible s) (sc_queue s) = Some (ref, rest)"
    and s1: "s1 = s\<lparr>sc_queue := rest\<rparr>"
    by (auto simp: dequeue_def split: option.splits)
  from take_first_Some [OF this(1)] s1 that show thesis by blast
qed

text \<open>Updates that keep what the invariant reads of a job other than its status.\<close>

definition keeps_identity :: "(job \<Rightarrow> job) \<Rightarrow> bool" where
  "keeps_identity f \<longleftrightarrow> (\<forall>j. j_id (f j) = j_id j \<and> j_priority (f j) = j_priority j \<and>
     j_created_at (f j) = j_created_at j \<and> j_serialization_key (f j) = j_serialization_key j \<and>
     j_idempotency_key (f j) = j_idempotency_key j)"

lemma keeps_identityD:
  assumes "keeps_identity f"
  shows "j_id (f j) = j_id j" "j_priority (f j) = j_priority j" "j_created_at (f j) = j_created_at j"
    "j_serialization_key (f j) = j_serialization_key j" "j_idempotency_key (f j) = j_idempotency_key j"
  using assms unfolding keeps_identity_def by blast+

lemma keeps_identity_update:
  assumes "keeps_identity f"
  shows "j_id (heap[ref := f (heap ! ref)] ! r) = j_id (heap ! r)"
    and "queue_key (heap[ref := f (heap ! ref)]) r = queue_key heap r"
    and "j_serialization_key (heap[ref := f (heap ! ref)] ! r) = j_serialization_key (heap ! r)"
proof -
  have "heap[ref := f (heap ! ref)] ! r = heap ! r \<or> heap[ref := f (heap ! ref)] ! r = f (heap ! r)"
    by (cases "ref < length heap") (auto simp: nth_list_update list_update_beyond)
  then show "j_id (heap[ref := f (heap ! ref)] ! r) = j_id (heap ! r)"
    and "queue_key (heap[ref := f (heap ! ref)]) r = queue_key heap r"
    and "j_serialization_key (heap[ref := f (heap ! ref)] ! r) = j_serialization_key (heap ! r)"
    unfolding queue_key_def by (auto simp: keeps_identityD [OF assms])
qed
lemma update_job_frame:
  assumes "keeps_identity f"
  shows "jobs_ok heap jobs \<Longrightarrow> jobs_ok (heap[ref := f (heap ! ref)]) jobs"
    and "queue_ok heap jobs q \<Longrightarrow> queue_ok (heap[ref := f (heap ! ref)]) jobs q"
proof -
  have m: "map (queue_key (heap[ref := f (heap ! ref)])) q = map (queue_key heap) q"
    by (simp add: keeps_identity_update [OF assms])
  show "jobs_ok heap jobs \<Longrightarrow> jobs_ok (heap[ref := f (heap ! ref)]) jobs"
    by (simp add: jobs_ok_def keeps_identity_update [OF assms])
  show "queue_ok heap jobs q \<Longrightarrow> queue_ok (heap[ref := f (heap ! ref)]) jobs q"
    unfolding queue_ok_def m by (simp add: keeps_identity_update [OF assms])
qed

lemma status_updates_keep_identity [simp]:
  "keeps_identity (\<lambda>j. touch now (j\<lparr>j_status := st, j_started_at := a\<rparr>))"
  "keeps_identity (\<lambda>j. touch now (j\<lparr>j_status := st, j_finished_at := a\<rparr>))"
  "keeps_identity (\<lambda>j. touch now (j\<lparr>j_status := st, j_finished_at := a, j_result := b\<rparr>))"
  "keeps_identity (\<lambda>j. touch now (j\<lparr>j_status := st, j_finished_at := a, j_error := c\<rparr>))"
  by (simp_all add: keeps_identity_def touch_def)

text \<open>Ending a job frees at most its own key.\<close>

lemma end_job_inv:
  assumes inv: "sched_inv s" and ref: "map_of (sc_jobs s) jid = Some ref"
    and f: "keeps_identity f" and st: "\<And>j. j_status (f j) \<noteq> JRunning"
  shows "sched_inv (release_key ref jid (update_job f ref s))"
proof -
  let ?h = "(sc_heap s)[ref := f (sc_heap s ! ref)]"
  have J: "jobs_ok (sc_heap s) (sc_jobs s)" and R: "running_ok (sc_heap s) (sc_jobs s) (sc_running s)"
    using inv by (simp_all add: sched_inv_def)
  from J ref have lt: "ref < length (sc_heap s)" by (simp add: jobs_ok_def)
  have old: "map_of (sc_running s) key = Some jid'" and neq: "jid' \<noteq> jid"
    if "map_of (sc_jobs s) jid' = Some ref'" "j_status (?h ! ref') = JRunning"
      "j_serialization_key (?h ! ref') = Some key" "key \<noteq> []" for jid' ref' key
  proof -
    from that(2) st lt have "ref' \<noteq> ref" by auto
    with that R show "map_of (sc_running s) key = Some jid'" by (simp add: running_ok_def)
    from \<open>ref' \<noteq> ref\<close> that(1) ref show "jid' \<noteq> jid" by auto
  qed
  have r1: "running_ok ?h (sc_jobs s) (sc_running s)" using old by (simp add: running_ok_def)
  have r2: "running_ok ?h (sc_jobs s) (AList.delete key (sc_running s))"
    if "map_of (sc_running s) key = Some jid" for key
    unfolding running_ok_def
  proof (intro allI impI)
    fix jid' ref' key'
    assume a: "map_of (sc_jobs s) jid' = Some ref'" "j_status (?h ! ref') = JRunning"
      "j_serialization_key (?h ! ref') = Some key'" "key' \<noteq> []"
    from old [OF a] neq [OF a] that have "key' \<noteq> key" by auto
    with old [OF a] show "map_of (AList.delete key (sc_running s)) key' = Some jid'"
      by (simp add: map_of_delete)
  qed
  from inv have "jobs_ok ?h (sc_jobs s)" "queue_ok ?h (sc_jobs s) (sc_queue s)"
    "idem_ok (sc_jobs s) (sc_idempotency s)"
    unfolding sched_inv_def using update_job_frame [OF f] by blast+
  then show ?thesis
    unfolding sched_inv_def release_key_def update_job_def Let_def
    using r1 r2 by (cases "truthy (j_serialization_key (?h ! ref))";
      cases "map_of (sc_running s) (the (j_serialization_key (?h ! ref))) = Some jid") simp_all
qed

lemma claim_inv:
  assumes inv: "sched_inv s" and d: "dequeue s = (Some ref, s1)"
  shows "sched_inv (mark_running now (j_id (sc_heap s1 ! ref)) s1)"
proof -
  from d obtain us vs where q: "sc_queue s = us @ ref # vs" and s1: "s1 = s\<lparr>sc_queue := us @ vs\<rparr>"
    and el: "eligible s ref" by (rule dequeue_Some)
  let ?jid = "j_id (sc_heap s ! ref)" and ?key = "j_serialization_key (sc_heap s ! ref)"
  let ?f = "\<lambda>j. touch now (j\<lparr>j_status := JRunning, j_started_at := Some now\<rparr>)"
  let ?h = "(sc_heap s)[ref := ?f (sc_heap s ! ref)]"
  have J: "jobs_ok (sc_heap s) (sc_jobs s)" and Q: "queue_ok (sc_heap s) (sc_jobs s) (us @ ref # vs)"
    and R: "running_ok (sc_heap s) (sc_jobs s) (sc_running s)" and I: "idem_ok (sc_jobs s) (sc_idempotency s)"
    using inv q by (simp_all add: sched_inv_def)
  from Q have ref: "map_of (sc_jobs s) ?jid = Some ref" by (simp add: queue_ok_def)
  have Q': "queue_ok (sc_heap s) (sc_jobs s) (us @ vs)"
    using Q by (auto simp: queue_ok_def sorted_append)
  have other: "map_of (sc_running s) key = Some jid"
    if "map_of (sc_jobs s) jid = Some r" "r \<noteq> ref" "j_status (?h ! r) = JRunning"
      "j_serialization_key (?h ! r) = Some key" "key \<noteq> []" for jid r key
    using that R by (simp add: running_ok_def)
  have new: "running_ok ?h (sc_jobs s) (if truthy ?key
      then AList.update (the ?key) ?jid (sc_running s) else sc_running s)"
    unfolding running_ok_def
  proof (intro allI impI)
    fix jid r key
    assume a: "map_of (sc_jobs s) jid = Some r" "j_status (?h ! r) = JRunning"
      "j_serialization_key (?h ! r) = Some key" "key \<noteq> []"
    have key: "j_serialization_key (sc_heap s ! r) = Some key"
      using a(3) by (simp only: keeps_identity_update(3) [OF status_updates_keep_identity(1)])
    show "map_of (if truthy ?key then AList.update (the ?key) ?jid (sc_running s) else sc_running s) key = Some jid"
    proof (cases "r = ref")
      case True
      with a(1) J have "jid = ?jid" by (simp add: jobs_ok_def)
      with True key a(4) show ?thesis by simp
    next
      case False
      from other [OF a(1) False a(2-4)] have k: "map_of (sc_running s) key = Some jid" .
      then have "key \<in> fst ` set (sc_running s)" by (metis domI dom_map_of_conv_image_fst)
      with el have "\<not> (truthy ?key \<and> the ?key = key)" unfolding eligible_def Let_def by blast
      with k show ?thesis by auto
    qed
  qed
  have "jobs_ok ?h (sc_jobs s)" "queue_ok ?h (sc_jobs s) (us @ vs)"
    using J Q' update_job_frame [OF status_updates_keep_identity(1) [where now = now and st = JRunning and a = "Some now"]] by blast+
  with new I ref show ?thesis
    unfolding s1 mark_running_def update_job_def Let_def sched_inv_def by (cases "truthy ?key") simp_all
qed

lemma existing_job_heap [simp]: "existing_job j (s\<lparr>sc_heap := h\<rparr>) = existing_job j s"
  by (simp add: existing_job_def)

lemma submit_inv:
  assumes inv: "sched_inv s" and n: "new_job j s = (ref, s1)" and st: "j_status j = JPending"
    and fresh: "(if j_id j \<noteq> [] then j_id j else uuid) \<notin> dom (map_of (sc_jobs s))"
  shows "sched_inv (snd (enqueue uuid ref s1))"
proof -
  define jid where "jid = (if j_id j \<noteq> [] then j_id j else uuid)"
  let ?j = "j\<lparr>j_id := jid\<rparr>"
  from n have ref: "ref = length (sc_heap s)" and s1: "s1 = s\<lparr>sc_heap := sc_heap s @ [j]\<rparr>"
    by (simp_all add: new_job_def)
  have J: "jobs_ok (sc_heap s) (sc_jobs s)" and Q: "queue_ok (sc_heap s) (sc_jobs s) (sc_queue s)"
    and R: "running_ok (sc_heap s) (sc_jobs s) (sc_running s)" and I: "idem_ok (sc_jobs s) (sc_idempotency s)"
    using inv by (simp_all add: sched_inv_def)
  have lt: "r < length (sc_heap s)" if "map_of (sc_jobs s) i = Some r" for i r
    using J that by (simp add: jobs_ok_def)
  have qlt: "r < length (sc_heap s)" if "r \<in> set (sc_queue s)" for r
    using Q lt that by (auto simp: queue_ok_def)
  have keep: "jobs_ok (sc_heap s @ [x]) (sc_jobs s)" "queue_ok (sc_heap s @ [x]) (sc_jobs s) (sc_queue s)"
    "running_ok (sc_heap s @ [x]) (sc_jobs s) (sc_running s)" for x
  proof -
    have m: "map (queue_key (sc_heap s @ [x])) (sc_queue s) = map (queue_key (sc_heap s)) (sc_queue s)"
      using qlt by (simp add: queue_key_def nth_append)
    show "jobs_ok (sc_heap s @ [x]) (sc_jobs s)" using J by (fastforce simp: jobs_ok_def nth_append)
    show "queue_ok (sc_heap s @ [x]) (sc_jobs s) (sc_queue s)"
      unfolding queue_ok_def m using Q qlt by (simp add: queue_ok_def nth_append)
    show "running_ok (sc_heap s @ [x]) (sc_jobs s) (sc_running s)"
      using R lt by (fastforce simp: running_ok_def nth_append)
  qed
  show ?thesis
  proof (cases "existing_job j s")
    case (Some r)
    with keep [of j] I show ?thesis
      by (simp add: enqueue_def ref s1 sched_inv_def Let_def)
  next
    case None
    let ?h = "sc_heap s @ [?j]" and ?jobs = "AList.update jid ref (sc_jobs s)"
    let ?idem = "if truthy (j_idempotency_key j)
      then AList.update (the (j_idempotency_key j)) jid (sc_idempotency s) else sc_idempotency s"
    have neq: "i \<noteq> jid" if "map_of (sc_jobs s) i = Some r" for i r
      using fresh that by (auto simp: jid_def)
    have 1: "jobs_ok ?h ?jobs" using keep(1) [of ?j] by (auto simp: jobs_ok_def ref nth_append)
    have 2: "running_ok ?h ?jobs (sc_running s)"
      using keep(3) [of ?j] st by (auto simp: running_ok_def ref)
    have qids: "map_of ?jobs (j_id (?h ! r)) = Some r" if "r \<in> set (sc_queue s @ [ref])" for r
      using that keep(2) [of ?j] neq by (fastforce simp: queue_ok_def ref)
    have 3: "queue_ok ?h ?jobs (sort_key (queue_key ?h) (sc_queue s @ [ref]))"
      using Q qlt qids by (auto simp: queue_ok_def ref)
    have 4: "idem_ok ?jobs ?idem" using I by (auto simp: idem_ok_def ran_def)
    have "snd (enqueue uuid ref s1) = s\<lparr>sc_heap := ?h, sc_jobs := ?jobs, sc_idempotency := ?idem,
        sc_queue := sort_key (queue_key ?h) (sc_queue s @ [ref])\<rparr>"
      using None by (simp add: enqueue_def ref s1 requeue_sort_def jid_def Let_def)
    with 1 2 3 4 show ?thesis unfolding sched_inv_def by simp
  qed
qed

lemma locks_inv [inv_intros]:
  "sched_inv s \<Longrightarrow> sched_inv (snd (acquire_lock now resource owner ttl s))"
  "sched_inv s \<Longrightarrow> sched_inv (release_lock resource owner s)"
  "sched_inv s \<Longrightarrow> sched_inv (snd (recover_stale_locks now s))"
  by (simp_all add: sched_inv_def acquire_lock_def release_lock_def recover_stale_locks_def Let_def
      split: option.split)

lemma sched_step_inv: "sched_step s s' \<Longrightarrow> sched_inv s \<Longrightarrow> sched_inv s'"
  by (induction rule: sched_step.induct)
    (auto simp: mark_done_def mark_failed_def Jobs.cancel_def submit_inv claim_inv locks_inv
      intro!: end_job_inv split: option.split)

lemma reachable_inv: "sched_step\<^sup>*\<^sup>* scheduler_init s \<Longrightarrow> sched_inv s"
proof (induction rule: rtranclp_induct)
  case base
  show ?case
    by (simp add: sched_inv_def scheduler_init_def jobs_ok_def queue_ok_def running_ok_def idem_ok_def)
next
  case (step s s')
  then show ?case by (simp add: sched_step_inv)
qed

subsection \<open>Facts over runs\<close>

lemma enqueue_idempotency:
  assumes "truthy (j_idempotency_key (sc_heap s ! ref))"
  shows "\<exists>jid. map_of (sc_idempotency (snd (enqueue uuid ref s))) (the (j_idempotency_key (sc_heap s ! ref))) = Some jid"
  using assms
  by (auto simp: enqueue_def existing_job_def requeue_sort_def Let_def bind_eq_Some_conv
      split: option.split)

lemma sched_step_idempotency:
  assumes "sched_step s s'" and inv: "sched_inv s" and k: "map_of (sc_idempotency s) k = Some jid"
  shows "map_of (sc_idempotency s') k = Some jid"
  using assms(1)
proof cases
  case (submit j ref s1 uuid)
  from submit(2) have s1: "s1 = s\<lparr>sc_heap := sc_heap s @ [j]\<rparr>" "ref = length (sc_heap s)"
    by (simp_all add: new_job_def)
  have "existing_job j s \<noteq> None" if "truthy (j_idempotency_key j)" "the (j_idempotency_key j) = k"
    using that k inv by (auto simp: existing_job_def sched_inv_def idem_ok_def ran_def)
  with submit(1) k show ?thesis
    by (auto simp: enqueue_def s1 requeue_sort_def Let_def split: option.splits)
next
  case (claim ref s1 now)
  then show ?thesis using k
    by (auto simp: dequeue_def mark_running_def update_job_def Let_def split: option.splits)
qed (use k in \<open>auto simp: mark_done_def mark_failed_def Jobs.cancel_def release_key_def update_job_def
    acquire_lock_def release_lock_def recover_stale_locks_def Let_def split: option.splits\<close>)

lemma run_idempotency:
  assumes "sched_step\<^sup>*\<^sup>* s s'" and "sched_inv s" and "map_of (sc_idempotency s) k = Some jid"
  shows "map_of (sc_idempotency s') k = Some jid \<and> sched_inv s'"
  using assms
  by (induction rule: rtranclp_induct) (auto dest: sched_step_idempotency sched_step_inv)

lemma fold_delete_map_of: "map_of (fold AList.delete ks xs) k = (if k \<in> set ks then None else map_of xs k)"
  by (induction ks arbitrary: xs) auto

lemma fold_delete_distinct: "distinct (map fst xs) \<Longrightarrow> distinct (map fst (fold AList.delete ks xs))"
  by (induction ks arbitrary: xs) (simp_all add: distinct_delete)

lemma sched_step_locks:
  "sched_step s s' \<Longrightarrow> distinct (map fst (sc_locks s)) \<Longrightarrow> distinct (map fst (sc_locks s'))"
proof (induction rule: sched_step.induct)
  case (submit j s ref s1 uuid)
  then show ?case
    by (auto simp: new_job_def enqueue_def requeue_sort_def Let_def split: option.splits)
next
  case (claim s ref s1 now)
  then show ?case
    by (auto simp: dequeue_def mark_running_def update_job_def Let_def split: option.splits)
qed (auto simp: mark_done_def mark_failed_def Jobs.cancel_def release_key_def update_job_def
    acquire_lock_def release_lock_def recover_stale_locks_def distinct_update distinct_delete
    fold_delete_distinct Let_def split: option.splits)

lemma reachable_locks: "sched_step\<^sup>*\<^sup>* scheduler_init s \<Longrightarrow> distinct (map fst (sc_locks s))"
  by (induction rule: rtranclp_induct) (auto simp: scheduler_init_def intro: sched_step_locks)

lemma recover_map_of:
  assumes "distinct (map fst (sc_locks s))"
  shows "map_of (sc_locks (snd (recover_stale_locks now s))) r =
    (case map_of (sc_locks s) r of Some (ow, ex) \<Rightarrow> if ex \<le> now then None else Some (ow, ex) | None \<Rightarrow> None)"
proof -
  have "r \<in> set (map fst (filter (\<lambda>(_, _, ex). ex \<le> now) (sc_locks s))) \<longleftrightarrow>
    (\<exists>ow ex. map_of (sc_locks s) r = Some (ow, ex) \<and> ex \<le> now)"
    using map_of_eq_Some_iff [OF assms] by force
  then show ?thesis
    by (auto simp: recover_stale_locks_def Let_def fold_delete_map_of split: option.splits)
qed

subsection \<open>Properties\<close>

definition example_job :: "string \<Rightarrow> string \<Rightarrow> string \<Rightarrow> int \<Rightarrow> job" where
  "example_job jid key strat prio = \<lparr>j_type = LiveBarJob, j_id = jid, j_strategy_id = Some strat,
     j_status = JPending, j_idempotency_key = Some key, j_serialization_key = Some strat,
     j_priority = prio, j_created_at = 10, j_updated_at = 10, j_scheduled_at = None,
     j_started_at = None, j_finished_at = None, j_error = None, j_input = None, j_result = None,
     j_worker_id = None, j_attempt = 1, j_max_retries = 3\<rparr>"

definition submit_job :: "job \<Rightarrow> scheduler \<Rightarrow> scheduler" where
  "submit_job j s = (case new_job j s of (ref, s1) \<Rightarrow> snd (enqueue [] ref s1))"

lemma submit_job_step:
  "j_status j = JPending \<Longrightarrow> j_id j \<noteq> [] \<Longrightarrow> j_id j \<notin> dom (map_of (sc_jobs s)) \<Longrightarrow>
   sched_step s (submit_job j s)"
  unfolding submit_job_def using sched_step.submit [where uuid = "[]"] by (auto split: prod.split)

definition two_jobs :: scheduler where
  "two_jobs = submit_job (example_job ''j2'' ''k2'' ''s1'' 5) (submit_job (example_job ''j1'' ''k1'' ''s1'' 1) scheduler_init)"

lemma two_jobs_eq:
  "two_jobs = \<lparr>sc_heap = [example_job ''j1'' ''k1'' ''s1'' 1, example_job ''j2'' ''k2'' ''s1'' 5],
     sc_queue = [1, 0], sc_jobs = [(''j1'', 0), (''j2'', 1)], sc_running = [], sc_locks = [],
     sc_idempotency = [(''k1'', ''j1''), (''k2'', ''j2'')]\<rparr>"
  by (simp add: two_jobs_def submit_job_def new_job_def enqueue_def existing_job_def requeue_sort_def
      scheduler_init_def example_job_def queue_key_def Let_def)

lemma two_jobs_reachable: "sched_step\<^sup>*\<^sup>* scheduler_init two_jobs"
proof -
  let ?s1 = "submit_job (example_job ''j1'' ''k1'' ''s1'' 1) scheduler_init"
  have 1: "sched_step scheduler_init ?s1"
    by (rule submit_job_step) (simp_all add: example_job_def scheduler_init_def)
  have "sched_step ?s1 two_jobs" unfolding two_jobs_def
    by (rule submit_job_step)
      (simp_all add: example_job_def scheduler_init_def submit_job_def new_job_def enqueue_def
        existing_job_def requeue_sort_def Let_def)
  with 1 show ?thesis by (meson converse_rtranclp_into_rtranclp rtranclp.rtrancl_refl)
qed



text \<open>C21: \<open>dequeue\<close> serves the best job: in every reachable state it returns an eligible job (pending,
  its strategy not running) such that no other eligible queued job has a higher priority, or the same
  priority and an earlier creation time, and removes exactly that one from the queue; it returns None
  exactly when no queued job is eligible, and then changes nothing.\<close>

theorem dequeue_best:
  assumes "sched_step\<^sup>*\<^sup>* scheduler_init s"
  shows "case dequeue s of
      (Some ref, s') \<Rightarrow> ref \<in> set (sc_queue s) \<and> eligible s ref \<and>
        (\<forall>r \<in> set (sc_queue s). eligible s r \<longrightarrow>
           j_priority (sc_heap s ! r) < j_priority (sc_heap s ! ref) \<or>
           j_priority (sc_heap s ! r) = j_priority (sc_heap s ! ref) \<and>
           j_created_at (sc_heap s ! ref) \<le> j_created_at (sc_heap s ! r)) \<and>
        s' = s\<lparr>sc_queue := remove1 ref (sc_queue s)\<rparr>
    | (None, s') \<Rightarrow> (\<forall>r \<in> set (sc_queue s). \<not> eligible s r) \<and> s' = s"
proof (cases "dequeue s")
  case (Pair res s')
  show ?thesis
  proof (cases res)
    case None
    with Pair show ?thesis by (auto simp: dequeue_def take_first_None split: option.splits)
  next
    case (Some ref)
    with Pair obtain us vs where q: "sc_queue s = us @ ref # vs" and s': "s' = s\<lparr>sc_queue := us @ vs\<rparr>"
      and el: "eligible s ref" and no: "\<forall>u \<in> set us. \<not> eligible s u" by (auto elim: dequeue_Some)
    have Q: "queue_ok (sc_heap s) (sc_jobs s) (us @ ref # vs)"
      using reachable_inv [OF assms] q by (simp add: sched_inv_def)
    then have "queue_key (sc_heap s) ref \<le> queue_key (sc_heap s) r" if "r \<in> set (ref # vs)" for r
      using that by (auto simp: queue_ok_def sorted_append)
    then have "\<forall>r \<in> set (sc_queue s). eligible s r \<longrightarrow> queue_key (sc_heap s) ref \<le> queue_key (sc_heap s) r"
      using no q by auto
    moreover have "remove1 ref (sc_queue s) = us @ vs"
      using Q by (simp add: q queue_ok_def remove1_append)
    ultimately show ?thesis
      using Pair Some q el s' by (auto simp: queue_key_def less_eq_prod_def)
  qed
qed

theorem dequeue_best_witness:
  "fst (dequeue two_jobs) = Some 1 \<and>
   j_priority (sc_heap two_jobs ! 0) < j_priority (sc_heap two_jobs ! 1)"
proof -
  have "fst (dequeue two_jobs) = Some 1"
    by (simp add: dequeue_def two_jobs_eq eligible_def example_job_def)
  with dequeue_best [OF two_jobs_reachable] show ?thesis
    by (auto simp: two_jobs_eq eligible_def example_job_def split: prod.splits)
qed

text \<open>Enqueueing is idempotent for good: once a job with a non-empty idempotency key was enqueued,
  then after any further steps enqueueing another job with that key returns the job registered for it
  (under the same id as then) and leaves the queue and the job registry as they are.\<close>

theorem enqueue_idempotent:
  assumes "sched_step\<^sup>*\<^sup>* scheduler_init s" and "j_idempotency_key j = Some key" and "key \<noteq> []"
    and "j_status j = JPending" and "j_id j \<noteq> []" and "j_id j \<notin> dom (map_of (sc_jobs s))"
    and "sched_step\<^sup>*\<^sup>* (submit_job j s) s2" and "j_idempotency_key j2 = Some key"
    and "new_job j2 s2 = (ref2, s3)"
  shows "\<exists>ref jid. enqueue uuid ref2 s3 = (ref, s3) \<and> j_id (sc_heap s3 ! ref) = jid \<and>
    map_of (sc_idempotency (submit_job j s)) key = Some jid"
proof -
  let ?s1 = "submit_job j s"
  obtain ref s0 where n: "new_job j s = (ref, s0)" by (metis surj_pair)
  have k1: "sc_heap s0 ! ref = j" using n by (auto simp: new_job_def)
  with assms(2,3) enqueue_idempotency [of s0 ref "[]"] obtain jid
    where jid: "map_of (sc_idempotency ?s1) key = Some jid"
    by (auto simp: submit_job_def n)
  have "sched_inv ?s1"
    using reachable_inv [OF assms(1)] submit_job_step [OF assms(4-6)] by (rule sched_step_inv [rotated])
  with run_idempotency [OF assms(7)] jid have k2: "map_of (sc_idempotency s2) key = Some jid"
    and i2: "sched_inv s2" by blast+
  from assms(9) have s3: "s3 = s2\<lparr>sc_heap := sc_heap s2 @ [j2]\<rparr>" "sc_heap s3 ! ref2 = j2"
    by (auto simp: new_job_def)
  from i2 k2 obtain r where r: "map_of (sc_jobs s2) jid = Some r"
    by (auto simp: sched_inv_def idem_ok_def ran_def)
  with i2 have "r < length (sc_heap s2)" "j_id (sc_heap s2 ! r) = jid"
    by (auto simp: sched_inv_def jobs_ok_def)
  moreover have "existing_job j2 s3 = Some r"
    using assms(3,8) k2 r s3(1) by (simp add: existing_job_def)
  ultimately show ?thesis using jid s3 by (simp add: enqueue_def Let_def nth_append)
qed

theorem enqueue_idempotent_witness:
  "\<exists>ref. enqueue [] 1 (snd (new_job (example_job ''j9'' ''k1'' ''s9'' 0) (submit_job (example_job ''j1'' ''k1'' ''s1'' 1) scheduler_init)))
     = (ref, snd (new_job (example_job ''j9'' ''k1'' ''s9'' 0) (submit_job (example_job ''j1'' ''k1'' ''s1'' 1) scheduler_init)))"
proof -
  let ?j = "example_job ''j1'' ''k1'' ''s1'' 1" and ?j9 = "example_job ''j9'' ''k1'' ''s9'' 0"
  have len: "length (sc_heap (submit_job ?j scheduler_init)) = 1"
    by (simp add: submit_job_def new_job_def enqueue_def existing_job_def requeue_sort_def
        scheduler_init_def example_job_def Let_def)
  have "\<exists>ref jid. enqueue [] 1 (snd (new_job ?j9 (submit_job ?j scheduler_init))) =
      (ref, snd (new_job ?j9 (submit_job ?j scheduler_init))) \<and>
    j_id (sc_heap (snd (new_job ?j9 (submit_job ?j scheduler_init))) ! ref) = jid \<and>
    map_of (sc_idempotency (submit_job ?j scheduler_init)) ''k1'' = Some jid"
    by (rule enqueue_idempotent [where s = scheduler_init and j = ?j and ?j2.0 = ?j9
          and ?s2.0 = "submit_job ?j scheduler_init"])
      (use len in \<open>simp_all add: example_job_def scheduler_init_def new_job_def\<close>)
  then show ?thesis by blast
qed

datatype lock_op = Acquire ms string string int | Release string string | Recover ms

primrec lock_step :: "lock_op \<Rightarrow> scheduler \<Rightarrow> scheduler" where
  "lock_step (Acquire now r ow ttl) s = snd (acquire_lock now r ow ttl s)"
| "lock_step (Release r ow) s = release_lock r ow s"
| "lock_step (Recover now) s = snd (recover_stale_locks now s)"

text \<open>The operations that leave a lock of \<open>owner\<close> on \<open>resource\<close> alone until \<open>limit\<close>: none of the
  owner's own on it, and none at or after the limit.\<close>

fun foreign_op :: "string \<Rightarrow> string \<Rightarrow> ms \<Rightarrow> lock_op \<Rightarrow> bool" where
  "foreign_op resource owner limit (Acquire now r ow ttl) \<longleftrightarrow> (r \<noteq> resource \<or> ow \<noteq> owner) \<and> now < limit"
| "foreign_op resource owner limit (Release r ow) \<longleftrightarrow> r \<noteq> resource \<or> ow \<noteq> owner"
| "foreign_op resource owner limit (Recover now) \<longleftrightarrow> now < limit"

definition holds_until :: "string \<Rightarrow> string \<Rightarrow> ms \<Rightarrow> scheduler \<Rightarrow> bool" where
  "holds_until resource owner limit s \<longleftrightarrow> distinct (map fst (sc_locks s)) \<and>
     map_of (sc_locks s) resource = Some (owner, limit)"

lemma foreign_op_holds:
  assumes "holds_until resource owner limit s" and "foreign_op resource owner limit op"
  shows "holds_until resource owner limit (lock_step op s)"
proof -
  have d: "distinct (map fst (sc_locks s))" and m: "map_of (sc_locks s) resource = Some (owner, limit)"
    using assms(1) by (simp_all add: holds_until_def)
  have "distinct (map fst (sc_locks (lock_step op s)))"
    using d by (cases op) (simp_all add: acquire_lock_def release_lock_def recover_stale_locks_def
        distinct_update distinct_delete fold_delete_distinct Let_def split: option.split)
  moreover have "map_of (sc_locks (lock_step op s)) resource = Some (owner, limit)"
  proof (cases op)
    case (Acquire now r ow ttl)
    with assms(2) m show ?thesis
      by (cases "map_of (sc_locks s) r"; cases "r = resource") (auto simp: acquire_lock_def Let_def)
  next
    case (Release r ow)
    with assms(2) m show ?thesis
      by (cases "map_of (sc_locks s) r"; cases "r = resource") (auto simp: release_lock_def)
  next
    case (Recover now)
    with assms(2) recover_map_of [OF d, of now resource] m show ?thesis by simp
  qed
  ultimately show ?thesis unfolding holds_until_def by blast
qed

lemma foreign_run_holds:
  "holds_until resource owner limit s \<Longrightarrow> list_all (foreign_op resource owner limit) ops \<Longrightarrow>
   holds_until resource owner limit (fold lock_step ops s)"
  by (induction ops arbitrary: s) (simp_all add: foreign_op_holds)

text \<open>C22: A lock excludes other owners until it expires: after a successful \<open>acquire_lock\<close> of a
  reachable scheduler, whatever lock operations other owners perform before the expiry time (acquiring,
  releasing, recovering stale locks), another owner's \<open>acquire_lock\<close> of that resource before the
  expiry is refused and changes nothing.\<close>

theorem lock_excludes:
  assumes "sched_step\<^sup>*\<^sup>* scheduler_init s" and "acquire_lock now resource owner ttl s = (True, s1)"
    and "list_all (foreign_op resource owner (now + ttl * 1000)) ops"
    and "other \<noteq> owner" and "later < now + ttl * 1000"
  shows "acquire_lock later resource other ttl2 (fold lock_step ops s1) = (False, fold lock_step ops s1)"
proof -
  have "sc_locks s1 = AList.update resource (owner, now + ttl * 1000) (sc_locks s)"
    using assms(2) by (auto simp: acquire_lock_def Let_def split: option.splits if_splits)
  with reachable_locks [OF assms(1)] have "holds_until resource owner (now + ttl * 1000) s1"
    by (simp add: holds_until_def distinct_update)
  from foreign_run_holds [OF this assms(3)] assms(4,5) show ?thesis
    by (simp add: holds_until_def acquire_lock_def)
qed

theorem lock_excludes_witness:
  "\<exists>s1. acquire_lock 1000 ''r'' ''a'' 60 scheduler_init = (True, s1) \<and>
     acquire_lock 60999 ''r'' ''b'' 5 (fold lock_step [Acquire 2000 ''r'' ''c'' 9, Release ''r'' ''b'', Recover 50000] s1)
       = (False, fold lock_step [Acquire 2000 ''r'' ''c'' 9, Release ''r'' ''b'', Recover 50000] s1)"
proof -
  obtain s1 where s1: "acquire_lock 1000 ''r'' ''a'' 60 scheduler_init = (True, s1)"
    by (simp add: acquire_lock_def scheduler_init_def)
  have "acquire_lock 60999 ''r'' ''b'' 5 (fold lock_step [Acquire 2000 ''r'' ''c'' 9, Release ''r'' ''b'', Recover 50000] s1)
       = (False, fold lock_step [Acquire 2000 ''r'' ''c'' 9, Release ''r'' ''b'', Recover 50000] s1)"
    by (rule lock_excludes [OF _ s1]) simp_all
  with s1 show ?thesis by blast
qed

text \<open>Serialization is only as good as its callers: \<open>dequeue\<close> does not reserve the key it checks,
  so two calls before the first job is marked running hand out two jobs of the same strategy.\<close>

theorem dequeue_does_not_reserve:
  "\<exists>s r1 s1 r2 s2 key. sched_step\<^sup>*\<^sup>* scheduler_init s \<and> dequeue s = (Some r1, s1) \<and>
     dequeue s1 = (Some r2, s2) \<and> r1 \<noteq> r2 \<and> key \<noteq> [] \<and>
     j_serialization_key (sc_heap s ! r1) = Some key \<and> j_serialization_key (sc_heap s ! r2) = Some key"
proof -
  have d1: "dequeue two_jobs = (Some 1, two_jobs\<lparr>sc_queue := [0]\<rparr>)"
    by (simp add: dequeue_def two_jobs_eq eligible_def example_job_def)
  have d2: "dequeue (two_jobs\<lparr>sc_queue := [0]\<rparr>) = (Some 0, two_jobs\<lparr>sc_queue := []\<rparr>)"
    by (simp add: dequeue_def two_jobs_eq eligible_def example_job_def)
  have "j_serialization_key (sc_heap two_jobs ! 1) = Some ''s1''"
    "j_serialization_key (sc_heap two_jobs ! 0) = Some ''s1''"
    by (simp_all add: two_jobs_eq example_job_def)
  with two_jobs_reachable d1 d2 show ?thesis
    by (intro exI [of _ two_jobs] exI [of _ "1 :: nat"] exI [of _ "two_jobs\<lparr>sc_queue := [0]\<rparr>"]
        exI [of _ "0 :: nat"] exI [of _ "two_jobs\<lparr>sc_queue := []\<rparr>"] exI [of _ "''s1''"]) simp
qed

subsection \<open>Delays of the retry policy\<close>

lemma bitlen_power: "bitlen (2 ^ k) = int k + 1"
  using bitlen_pow2 [of 1 k] by (simp add: bitlen_alt_def)

lemma binade_power: "binade (2 ^ k) = int k"
proof -
  have q: "quotient_of (2 ^ k) = (2 ^ k, 1)"
    using quotient_of_int [of "2 ^ k"] by (simp add: Rat.of_int_def)
  have "bitlen 1 = 1" using bitlen_power [of 0] by simp
  with q bitlen_power [of k] show ?thesis by (simp add: binade_def exp2_def)
qed

lemma power_52: "52 \<le> k \<Longrightarrow> (2 :: rat) ^ k = 2 ^ 52 * 2 ^ (k - 52)"
  using power_add [of "2 :: rat" 52 "k - 52"] by simp

lemma rnd_power:
  assumes "k < 1024" shows "rnd (2 ^ k) = Fin (2 ^ k)"
proof (rule rnd_exact)
  have u: "ulp (2 ^ k) = exp2 (int k - 52)" by (simp add: ulp_def binade_power)
  show "(2 ^ k :: rat) = of_int (2 ^ 52) * ulp (2 ^ k)"
  proof (cases "52 \<le> k")
    case True
    then have "nat (int k - 52) = k - 52" by simp
    with True u show ?thesis using power_52 [OF True] by (simp add: exp2_def)
  next
    case False
    then have "nat (52 - int k) = 52 - k" by simp
    with False u show ?thesis by (simp add: exp2_def power_diff)
  qed
  have "(2 :: rat) ^ k < 2 ^ 1024" using assms by (rule power_strict_increasing) simp
  then show "\<bar>2 ^ k :: rat\<bar> < 2 ^ 1024" by (simp only: power_abs abs_numeral)
qed

lemma rnd_power_overflow:
  assumes "1024 \<le> k" shows "rnd (2 ^ k) = PInf"
proof -
  have u: "ulp (2 ^ k) = exp2 (int k - 52)" by (simp add: ulp_def binade_power)
  have k: "nat (int k - 52) = k - 52" using assms by simp
  have "(2 ^ k :: rat) / ulp (2 ^ k) = of_int (2 ^ 52)"
    using assms u k by (simp add: exp2_def flip: power_diff)
  then have "of_int (round_half_even ((2 ^ k :: rat) / ulp (2 ^ k))) * ulp (2 ^ k) = (2 ^ k :: rat)"
    using assms u k power_52 [of k] by (simp only: round_half_even_of_int) (simp add: exp2_def)
  moreover have "(2 ^ 1024 :: rat) \<le> 2 ^ k" using assms by (rule power_increasing) simp
  ultimately show ?thesis by (simp add: rnd_def Let_def)
qed

text \<open>The default retry policy waits \<open>1, 2, 4, ...\<close> seconds, capped at 60, for attempts 1 to 1024;
  from attempt 1025 on the power overflows and \<open>get_delay\<close> raises instead of returning the cap.\<close>

theorem default_policy_delays:
  "get_delay default_policy (int n + 1) =
     (if n < 1024 then Inr (Fin (min (2 ^ n) 60)) else Inl PyOverflowError)"
proof (cases "n < 1024")
  case True
  then have "fmul (Fin 1) (Fin (2 ^ n)) = Fin (2 ^ n)" by (simp add: rnd_power)
  with True show ?thesis
    by (simp add: get_delay_def default_policy_def rnd_power fmin_def min_def)
next
  case False
  then show ?thesis by (simp add: get_delay_def default_policy_def rnd_power_overflow)
qed

end
