(* ===== verification/JobStore.thy ===== *)
theory JobStore
  imports PyFloat
begin

text \<open>
  The transactional job store (\<^verbatim>\<open>openpine/jobs/transactional_store.py\<close>): the \<open>jobs\<close> and \<open>events\<close>
  tables, transactions that roll back on any exception, the job state machine with optimistic
  versions and leases, and the append-only event log. The contract package is not part of the
  repository: its sealing and validation functions are the record \<open>contracts\<close>, of which the
  development assumes only that sealing changes nothing but the content hash. The build identity,
  the clock and the ids are arguments.
\<close>

subsection \<open>Payloads\<close>

datatype job_state = QUEUED | RUNNING | SUCCEEDED | FAILED | CANCELED | LOST | RETRY_WAIT

text \<open>\<open>_ALLOWED_TRANSITIONS\<close>.\<close>

fun allowed_transitions :: "job_state \<Rightarrow> job_state list" where
  "allowed_transitions QUEUED = [RUNNING, FAILED, CANCELED]"
| "allowed_transitions RUNNING = [SUCCEEDED, FAILED, CANCELED, LOST]"
| "allowed_transitions FAILED = [QUEUED, CANCELED]"
| "allowed_transitions LOST = [QUEUED, CANCELED]"
| "allowed_transitions RETRY_WAIT = [QUEUED, CANCELED]"
| "allowed_transitions SUCCEEDED = []"
| "allowed_transitions CANCELED = []"

definition job_kinds :: "string list" where
  "job_kinds = [''backtest'', ''backfill'', ''compile'', ''optimize'', ''parity'', ''report'']"

record envelope =
  ev_schema_id :: string
  ev_schema_version :: string
  ev_producer :: string
  ev_producer_version :: string
  ev_producer_commit :: string
  ev_stack_id :: string
  ev_created_at :: ms
  ev_serializer_id :: string
  ev_content_hash_alg :: string

record jobv1 =
  jp_envelope :: envelope
  jp_content_hash :: string
  jp_job_id :: string
  jp_kind :: string
  jp_state :: job_state
  jp_version :: int
  jp_progress :: int
  jp_started_at :: "ms option"
  jp_updated_at :: ms
  jp_finished_at :: "ms option"
  jp_actor :: "string option"
  jp_input_refs :: "string list"
  jp_result_refs :: "string list"
  jp_error_code :: "string option"
  jp_idempotency_key :: "string option"
  jp_lease_owner :: "string option"
  jp_lease_deadline :: "ms option"
  jp_retry_count :: int
  jp_max_retries :: "int option"
  jp_parent_job_id :: "string option"
  jp_child_job_ids :: "string list"
  jp_event_cursor :: "string option"
  jp_run_id :: "string option"

record contracts =
  ct_seal :: "jobv1 \<Rightarrow> jobv1"
  ct_valid :: "jobv1 \<Rightarrow> bool"
  ct_serializer_id :: string

definition seal_frame :: "contracts \<Rightarrow> bool" where
  "seal_frame K \<longleftrightarrow> (\<forall>p. ct_seal K p = p\<lparr>jp_content_hash := jp_content_hash (ct_seal K p)\<rparr>)"

subsection \<open>Tables and transactions\<close>

text \<open>A payload column: what \<open>json.loads\<close> makes of the text.\<close>

datatype payload_text = Payload jobv1 | NotJson | NotDict

record job_row =
  jr_job_id :: string
  jr_payload :: payload_text
  jr_idempotency_key :: "string option"
  jr_state :: "job_state option"
  jr_version :: int

record job_event =
  je_event_id :: string
  je_sequence :: int
  je_type :: string
  je_job_id :: string
  je_state :: job_state
  je_version :: int

record job_store =
  st_jobs :: "job_row list"
  st_events :: "job_event list"
  st_last_seq :: int

definition store_init :: job_store where
  "store_init = \<lparr>st_jobs = [], st_events = [], st_last_seq = 0\<rparr>"

datatype job_error =
    JobIdRequired
  | UnknownKind string
  | MaxRetriesNegative
  | JobAlreadyExists string
  | JobNotFound string
  | CorruptJob string
  | CorruptIdempotencyRow
  | SchemaInvalid
  | IdentityUnavailable
  | LeaseOwnerRequired
  | LeaseDeadlinePast
  | LeaseOwnerMismatch
  | LeaseExpired
  | TransitionNotAllowed job_state job_state
  | VersionConflict int int
  | VersionConflictStoring
  | RetryLimitReached
  | SqlIntegrity
  | JsonDecode
  | NotADict

type_synonym 'a tx = "job_store \<Rightarrow> job_error + 'a \<times> job_store"

definition tx_return :: "'a \<Rightarrow> 'a tx" where
  "tx_return x s = Inr (x, s)"

definition tx_fail :: "job_error \<Rightarrow> 'a tx" where
  "tx_fail e s = Inl e"

definition tx_bind :: "'a tx \<Rightarrow> ('a \<Rightarrow> 'b tx) \<Rightarrow> 'b tx" where
  "tx_bind m f s = res_bind (m s) (\<lambda>(x, s'). f x s')"

definition tx_guard :: "bool \<Rightarrow> job_error \<Rightarrow> unit tx" where
  "tx_guard b e = (if b then tx_return () else tx_fail e)"

text \<open>\<open>_transaction\<close>: commit on success, roll back on any exception.\<close>

definition transaction :: "'a tx \<Rightarrow> job_store \<Rightarrow> (job_error + 'a) \<times> job_store" where
  "transaction m s = (case m s of Inl e \<Rightarrow> (Inl e, s) | Inr (x, s') \<Rightarrow> (Inr x, s'))"

subsection \<open>Reading\<close>

definition get_in_transaction :: "contracts \<Rightarrow> string \<Rightarrow> jobv1 tx" where
  "get_in_transaction K jid s =
     (case filter (\<lambda>r. jr_job_id r = jid) (st_jobs s) of
        [] \<Rightarrow> Inl (JobNotFound jid)
      | r # _ \<Rightarrow>
          (case jr_payload r of
             Payload p \<Rightarrow> if ct_valid K p then Inr (p, s) else Inl SchemaInvalid
           | _ \<Rightarrow> Inl (CorruptJob jid)))"

definition v1_get :: "contracts \<Rightarrow> string \<Rightarrow> job_store \<Rightarrow> job_error + jobv1" where
  "v1_get K jid s =
     (if jid = [] then Inl JobIdRequired
      else res_bind (get_in_transaction K jid s) (\<lambda>(p, _). Inr p))"

definition by_idempotency :: "string \<Rightarrow> jobv1 option tx" where
  "by_idempotency key s =
     (case filter (\<lambda>r. jr_idempotency_key r = Some key) (st_jobs s) of
        [] \<Rightarrow> Inr (None, s)
      | r # _ \<Rightarrow>
          (case jr_payload r of
             Payload p \<Rightarrow> Inr (Some p, s)
           | NotDict \<Rightarrow> Inl CorruptIdempotencyRow
           | NotJson \<Rightarrow> Inl JsonDecode))"

subsection \<open>Writing\<close>

definition rehash :: "contracts \<Rightarrow> jobv1 \<Rightarrow> job_error + jobv1" where
  "rehash K p = (if ct_valid K (ct_seal K p) then Inr (ct_seal K p) else Inl SchemaInvalid)"

text \<open>\<open>UPDATE jobs SET ... WHERE job_id = ? AND version = ?\<close> on one row.\<close>

definition put_row :: "jobv1 \<Rightarrow> int \<Rightarrow> job_row \<Rightarrow> job_row" where
  "put_row p expected r =
     (if jr_job_id r = jp_job_id p \<and> jr_version r = expected
      then \<lparr>jr_job_id = jr_job_id r, jr_payload = Payload p, jr_idempotency_key = jp_idempotency_key p,
            jr_state = Some (jp_state p), jr_version = jp_version p\<rparr>
      else r)"

definition store_job :: "contracts \<Rightarrow> jobv1 \<Rightarrow> int \<Rightarrow> jobv1 tx" where
  "store_job K p0 expected s =
     res_bind (rehash K p0) (\<lambda>p.
       let hits = filter (\<lambda>r. jr_job_id r = jp_job_id p \<and> jr_version r = expected) (st_jobs s);
           clash = (hits \<noteq> [] \<and> (\<exists>r \<in> set (st_jobs s). jr_job_id r \<noteq> jp_job_id p \<and>
             jp_idempotency_key p \<noteq> None \<and> jr_idempotency_key r = jp_idempotency_key p))
       in if clash then Inl SqlIntegrity
          else if length hits \<noteq> 1 then Inl VersionConflictStoring
          else Inr (p, s\<lparr>st_jobs := map (put_row p expected) (st_jobs s)\<rparr>))"

definition stable_event_id :: "string \<Rightarrow> string \<Rightarrow> int \<Rightarrow> string option \<Rightarrow> string" where
  "stable_event_id jid ty version event_id =
     str_or event_id (jid @ '':'' @ ty @ '':v'' @ show_int version)"

definition append_event ::
  "contracts \<Rightarrow> string \<Rightarrow> string \<Rightarrow> jobv1 \<Rightarrow> string option \<Rightarrow> jobv1 tx"
where
  "append_event K jid ty p event_id s =
     (let eid = stable_event_id jid ty (jp_version p) event_id;
          p1 = p\<lparr>jp_event_cursor := Some eid\<rparr>
      in if eid \<in> je_event_id ` set (st_events s) then Inr (p1, s)
         else if jid \<notin> jr_job_id ` set (st_jobs s) then Inl SqlIntegrity
         else
           (let seq = st_last_seq s + 1;
                event = \<lparr>je_event_id = eid, je_sequence = seq, je_type = ty, je_job_id = jid,
                         je_state = jp_state p, je_version = jp_version p\<rparr>;
                s1 = s\<lparr>st_events := st_events s @ [event], st_last_seq := seq\<rparr>
            in res_bind (rehash K p1) (\<lambda>p2.
                 Inr (p2, s1\<lparr>st_jobs := map (\<lambda>r. if jr_job_id r = jid \<and> jr_version r = jp_version p2
                    then r\<lparr>jr_payload := Payload p2\<rparr> else r) (st_jobs s1)\<rparr>))))"

text \<open>The new identity of a job in \<open>_transition_in_transaction\<close>: \<open>updates\<close> first, then state, time
  and version.\<close>

definition transition_payload :: "job_state \<Rightarrow> ms \<Rightarrow> (jobv1 \<Rightarrow> jobv1) \<Rightarrow> jobv1 \<Rightarrow> jobv1" where
  "transition_payload target now updates p =
     (updates p)\<lparr>jp_state := target, jp_updated_at := now, jp_version := jp_version p + 1\<rparr>"

definition transition_in_transaction ::
  "contracts \<Rightarrow> jobv1 \<Rightarrow> job_state \<Rightarrow> string \<Rightarrow> ms \<Rightarrow> (jobv1 \<Rightarrow> jobv1) \<Rightarrow> string option \<Rightarrow> jobv1 tx"
where
  "transition_in_transaction K p target ty now updates event_id =
     tx_bind (tx_guard (target \<in> set (allowed_transitions (jp_state p)))
       (TransitionNotAllowed (jp_state p) target)) (\<lambda>_.
     tx_bind (store_job K (transition_payload target now updates p) (jp_version p)) (\<lambda>p1.
       append_event K (jp_job_id p1) ty p1 event_id))"

definition require_version :: "jobv1 \<Rightarrow> int option \<Rightarrow> unit tx" where
  "require_version p expected = tx_guard (expected = None \<or> expected = Some (jp_version p))
     (VersionConflict (the expected) (jp_version p))"

definition require_live_lease :: "jobv1 \<Rightarrow> string option \<Rightarrow> ms \<Rightarrow> unit tx" where
  "require_live_lease p owner now =
     tx_bind (tx_guard (truthy owner \<and> jp_lease_owner p = owner) LeaseOwnerMismatch) (\<lambda>_.
       tx_guard (case jp_lease_deadline p of None \<Rightarrow> False | Some d \<Rightarrow> now \<le> d) LeaseExpired)"

definition transition ::
  "contracts \<Rightarrow> string \<Rightarrow> job_state \<Rightarrow> string \<Rightarrow> int option \<Rightarrow> ms \<Rightarrow> (jobv1 \<Rightarrow> jobv1) \<Rightarrow> jobv1 tx"
where
  "transition K jid target ty expected now updates =
     tx_bind (get_in_transaction K jid) (\<lambda>p.
     tx_bind (require_version p expected) (\<lambda>_.
       transition_in_transaction K p target ty now updates None))"

subsection \<open>Operations\<close>

text \<open>\<open>_envelope\<close>; \<open>ident\<close> is what \<open>current_build_identity\<close> gives: the contract version and commit, or
  \<open>None\<close> when it raises.\<close>

definition envelope_of ::
  "contracts \<Rightarrow> (string \<times> string) option \<Rightarrow> ms \<Rightarrow> string \<Rightarrow> (envelope \<Rightarrow> jobv1) \<Rightarrow> job_error + jobv1"
where
  "envelope_of K ident created stack body =
     (case ident of
        None \<Rightarrow> Inl IdentityUnavailable
      | Some (version, commit) \<Rightarrow> rehash K (body
          \<lparr>ev_schema_id = ''openpine.job.v1'', ev_schema_version = ''1.0.0'', ev_producer = ''openpine'',
           ev_producer_version = version, ev_producer_commit = commit, ev_stack_id = stack,
           ev_created_at = created, ev_serializer_id = ct_serializer_id K,
           ev_content_hash_alg = ''sha256''\<rparr>))"

text \<open>The arguments of \<open>create\<close>.\<close>

record create_args =
  ca_job_id :: "string option"
  ca_kind :: string
  ca_actor :: "string option"
  ca_idempotency_key :: "string option"
  ca_parent_job_id :: "string option"
  ca_input_refs :: "string list"
  ca_stack_id :: string
  ca_max_retries :: int

definition new_payload :: "create_args \<Rightarrow> ms \<Rightarrow> envelope \<Rightarrow> jobv1" where
  "new_payload a now en =
     \<lparr>jp_envelope = en, jp_content_hash = [], jp_job_id = the (ca_job_id a), jp_kind = ca_kind a,
      jp_state = QUEUED, jp_version = 1, jp_progress = 0, jp_started_at = None, jp_updated_at = now,
      jp_finished_at = None, jp_actor = ca_actor a, jp_input_refs = ca_input_refs a,
      jp_result_refs = [], jp_error_code = None, jp_idempotency_key = ca_idempotency_key a,
      jp_lease_owner = None, jp_lease_deadline = None, jp_retry_count = 0,
      jp_max_retries = Some (ca_max_retries a), jp_parent_job_id = ca_parent_job_id a,
      jp_child_job_ids = [], jp_event_cursor = None, jp_run_id = None\<rparr>"

definition insert_job_row :: "string \<Rightarrow> jobv1 \<Rightarrow> string option \<Rightarrow> job_store \<Rightarrow> job_store option" where
  "insert_job_row jid p key s =
     (if jid \<in> jr_job_id ` set (st_jobs s) \<or> (key \<noteq> None \<and> key \<in> jr_idempotency_key ` set (st_jobs s))
      then None
      else Some (s\<lparr>st_jobs := st_jobs s @
        [\<lparr>jr_job_id = jid, jr_payload = Payload p, jr_idempotency_key = key, jr_state = Some QUEUED,
          jr_version = 1\<rparr>]\<rparr>))"

text \<open>The linking of a child to its parent.\<close>

definition link_child :: "contracts \<Rightarrow> string \<Rightarrow> string \<Rightarrow> ms \<Rightarrow> unit tx" where
  "link_child K parent_id jid now =
     tx_bind (get_in_transaction K parent_id) (\<lambda>parent.
       if jid \<in> set (jp_child_job_ids parent) then tx_return ()
       else tx_bind (store_job K (parent\<lparr>jp_child_job_ids := jp_child_job_ids parent @ [jid],
              jp_updated_at := now, jp_version := jp_version parent + 1\<rparr>) (jp_version parent)) (\<lambda>p1.
            tx_bind (append_event K parent_id ''child_linked'' p1 None) (\<lambda>_. tx_return ())))"

definition insert_and_link ::
  "contracts \<Rightarrow> (string \<times> string) option \<Rightarrow> ms \<Rightarrow> create_args \<Rightarrow> jobv1 tx"
where
  "insert_and_link K ident now a s =
     (let jid = the (ca_job_id a)
      in res_bind (envelope_of K ident now (ca_stack_id a) (new_payload a now)) (\<lambda>p.
         case insert_job_row jid p (ca_idempotency_key a) s of
           None \<Rightarrow>
             (if truthy (ca_idempotency_key a)
              then res_bind (by_idempotency (the (ca_idempotency_key a)) s) (\<lambda>(found, s0).
                     case found of Some q \<Rightarrow> Inr (q, s0) | None \<Rightarrow> Inl (JobAlreadyExists jid))
              else Inl (JobAlreadyExists jid))
         | Some s1 \<Rightarrow>
             tx_bind (if truthy (ca_parent_job_id a) then link_child K (the (ca_parent_job_id a)) jid now
                      else tx_return ()) (\<lambda>_. append_event K jid ''created'' p None) s1))"

definition v1_create ::
  "contracts \<Rightarrow> (string \<times> string) option \<Rightarrow> ms \<Rightarrow> create_args \<Rightarrow> job_store \<Rightarrow> (job_error + jobv1) \<times> job_store"
where
  "v1_create K ident now a s =
     (if \<not> truthy (ca_job_id a) then (Inl JobIdRequired, s)
      else if ca_kind a \<notin> set job_kinds then (Inl (UnknownKind (ca_kind a)), s)
      else if ca_max_retries a < 0 then (Inl MaxRetriesNegative, s)
      else transaction (tx_bind
             (if truthy (ca_idempotency_key a) then by_idempotency (the (ca_idempotency_key a))
              else tx_return None)
             (\<lambda>found. case found of Some q \<Rightarrow> tx_return q | None \<Rightarrow> insert_and_link K ident now a)) s)"

definition v1_mark_running ::
  "contracts \<Rightarrow> string \<Rightarrow> string \<Rightarrow> ms \<Rightarrow> ms \<Rightarrow> int option \<Rightarrow> job_store \<Rightarrow> (job_error + jobv1) \<times> job_store"
where
  "v1_mark_running K jid owner deadline now expected s =
     (if owner = [] then (Inl LeaseOwnerRequired, s)
      else if deadline \<le> now then (Inl LeaseDeadlinePast, s)
      else transaction (transition K jid RUNNING ''running'' expected now (\<lambda>p. p\<lparr>
        jp_started_at := Some now, jp_lease_owner := Some owner, jp_lease_deadline := Some deadline\<rparr>)) s)"

definition v1_renew_lease ::
  "contracts \<Rightarrow> string \<Rightarrow> string \<Rightarrow> ms \<Rightarrow> ms \<Rightarrow> int option \<Rightarrow> job_store \<Rightarrow> (job_error + jobv1) \<times> job_store"
where
  "v1_renew_lease K jid owner deadline now expected s =
     (if deadline \<le> now then (Inl LeaseDeadlinePast, s)
      else transaction (tx_bind (get_in_transaction K jid) (\<lambda>p.
        tx_bind (require_version p expected) (\<lambda>_.
        tx_bind (require_live_lease p (Some owner) now) (\<lambda>_.
        tx_bind (store_job K (p\<lparr>jp_lease_deadline := Some deadline, jp_updated_at := now,
            jp_version := jp_version p + 1\<rparr>) (jp_version p)) (\<lambda>p1.
          append_event K jid ''lease_renewed'' p1 None))))) s)"

definition v1_mark_succeeded ::
  "contracts \<Rightarrow> string \<Rightarrow> string \<Rightarrow> int option \<Rightarrow> ms \<Rightarrow> string list \<Rightarrow> job_store
   \<Rightarrow> (job_error + jobv1) \<times> job_store"
where
  "v1_mark_succeeded K jid owner expected now refs =
     transaction (tx_bind (get_in_transaction K jid) (\<lambda>p.
       tx_bind (require_version p expected) (\<lambda>_.
       tx_bind (tx_guard (jp_state p = RUNNING) (TransitionNotAllowed (jp_state p) SUCCEEDED)) (\<lambda>_.
       tx_bind (require_live_lease p (Some owner) now) (\<lambda>_.
         transition_in_transaction K p SUCCEEDED ''succeeded'' now (\<lambda>q. q\<lparr>jp_progress := 100,
           jp_finished_at := Some now, jp_result_refs := refs, jp_lease_owner := None,
           jp_lease_deadline := None\<rparr>) None)))))"

definition v1_mark_failed ::
  "contracts \<Rightarrow> string \<Rightarrow> string \<Rightarrow> string option \<Rightarrow> int option \<Rightarrow> ms \<Rightarrow> job_store
   \<Rightarrow> (job_error + jobv1) \<times> job_store"
where
  "v1_mark_failed K jid err owner expected now =
     transaction (tx_bind (get_in_transaction K jid) (\<lambda>p.
       tx_bind (require_version p expected) (\<lambda>_.
       tx_bind (if jp_state p = RUNNING then require_live_lease p owner now else tx_return ()) (\<lambda>_.
         transition_in_transaction K p FAILED ''failed'' now (\<lambda>q. q\<lparr>jp_finished_at := Some now,
           jp_error_code := Some err, jp_lease_owner := None, jp_lease_deadline := None\<rparr>) None))))"

definition v1_cancel ::
  "contracts \<Rightarrow> string \<Rightarrow> string option \<Rightarrow> ms \<Rightarrow> job_store \<Rightarrow> (job_error + jobv1) \<times> job_store"
where
  "v1_cancel K jid key now =
     transaction (tx_bind (get_in_transaction K jid) (\<lambda>p.
       if jp_state p = CANCELED then tx_return p
       else transition_in_transaction K p CANCELED ''canceled'' now (\<lambda>q. q\<lparr>jp_finished_at := Some now,
              jp_lease_owner := None, jp_lease_deadline := None\<rparr>) key))"

definition v1_retry :: "contracts \<Rightarrow> string \<Rightarrow> ms \<Rightarrow> job_store \<Rightarrow> (job_error + jobv1) \<times> job_store" where
  "v1_retry K jid now =
     transaction (tx_bind (get_in_transaction K jid) (\<lambda>p.
       if jp_state p = QUEUED \<and> jp_retry_count p > 0 then tx_return p
       else tx_bind (tx_guard (case jp_max_retries p of None \<Rightarrow> True | Some m \<Rightarrow> jp_retry_count p + 1 \<le> m)
              RetryLimitReached) (\<lambda>_.
            transition_in_transaction K p QUEUED ''retried'' now (\<lambda>q. q\<lparr>jp_retry_count := jp_retry_count p + 1,
              jp_finished_at := None, jp_error_code := None\<rparr>) None)))"

text \<open>The loop of \<open>recover_lost_leases\<close> over the rows selected before it.\<close>

fun recover_rows :: "contracts \<Rightarrow> ms \<Rightarrow> job_row list \<Rightarrow> nat tx" where
  "recover_rows K now [] = tx_return 0"
| "recover_rows K now (r # rs) =
     (case jr_payload r of
        NotJson \<Rightarrow> tx_fail JsonDecode
      | NotDict \<Rightarrow> tx_fail NotADict
      | Payload p \<Rightarrow>
          if (case jp_lease_deadline p of None \<Rightarrow> True | Some d \<Rightarrow> now \<le> d)
          then recover_rows K now rs
          else tx_bind (transition_in_transaction K p LOST ''lost'' now (\<lambda>q. q\<lparr>jp_finished_at := Some now,
                 jp_lease_owner := None, jp_lease_deadline := None\<rparr>) None) (\<lambda>_.
               tx_bind (recover_rows K now rs) (\<lambda>n. tx_return (Suc n))))"

definition recover_lost_leases :: "contracts \<Rightarrow> ms \<Rightarrow> job_store \<Rightarrow> (job_error + nat) \<times> job_store" where
  "recover_lost_leases K now s =
     transaction (recover_rows K now
       (sort_key jr_job_id (filter (\<lambda>r. jr_state r = Some RUNNING) (st_jobs s)))) s"

definition v1_events :: "string \<Rightarrow> job_store \<Rightarrow> job_event list" where
  "v1_events after s =
     (if after \<noteq> []
      then (case filter (\<lambda>e. je_event_id e = after) (st_events s) of
              [] \<Rightarrow> []
            | anchor # _ \<Rightarrow> filter (\<lambda>e. je_sequence e > je_sequence anchor) (sort_key je_sequence (st_events s)))
      else sort_key je_sequence (st_events s))"

definition needs_resync :: "string \<Rightarrow> job_store \<Rightarrow> bool" where
  "needs_resync after s \<longleftrightarrow> after \<noteq> [] \<and> after \<notin> je_event_id ` set (st_events s)"

subsection \<open>Listing\<close>

fun load_payloads :: "job_row list \<Rightarrow> job_error + jobv1 list" where
  "load_payloads [] = Inr []"
| "load_payloads (r # rs) =
     (case jr_payload r of
        NotJson \<Rightarrow> Inl JsonDecode
      | NotDict \<Rightarrow> Inl NotADict
      | Payload p \<Rightarrow> res_bind (load_payloads rs) (\<lambda>ps. Inr (p # ps)))"

definition list_key :: "jobv1 \<Rightarrow> int \<times> string" where
  "list_key p = (- ev_created_at (jp_envelope p), jp_job_id p)"

text \<open>The entries after the cursor; an unknown cursor leaves the list as it is.\<close>

definition after_cursor :: "string option \<Rightarrow> jobv1 list \<Rightarrow> jobv1 list" where
  "after_cursor c ps =
     (if truthy c \<and> (\<exists>p \<in> set ps. jp_job_id p = the c)
      then tl (dropWhile (\<lambda>p. jp_job_id p \<noteq> the c) ps) else ps)"

definition select_jobs :: "string option \<Rightarrow> job_state option \<Rightarrow> jobv1 list \<Rightarrow> jobv1 list" where
  "select_jobs kind state ps =
     (let sorted = sort_key list_key ps;
          ks = (if truthy kind then filter (\<lambda>p. jp_kind p = the kind) sorted else sorted)
      in case state of None \<Rightarrow> ks | Some st \<Rightarrow> filter (\<lambda>p. jp_state p = st) ks)"

definition page_of :: "string option \<Rightarrow> int \<Rightarrow> jobv1 list \<Rightarrow> jobv1 list \<times> string option" where
  "page_of cursor limit sel =
     (let jobs = after_cursor cursor sel;
          page = take (nat (max 1 (min limit 1000))) jobs
      in (page, if length jobs > length page then Some (jp_job_id (last page)) else None))"

definition v1_list_jobs ::
  "string option \<Rightarrow> job_state option \<Rightarrow> string option \<Rightarrow> int \<Rightarrow> job_store
   \<Rightarrow> job_error + jobv1 list \<times> string option"
where
  "v1_list_jobs kind state cursor limit s =
     res_bind (load_payloads (st_jobs s)) (\<lambda>ps. Inr (page_of cursor limit (select_jobs kind state ps)))"

end
