(* ===== verification/JobStoreInv.thy ===== *)
theory JobStoreInv
  imports JobStore
begin

text \<open>
  The consistency of the job store: the table as the image of a list of payloads, the effect of
  every write on that list, and the preservation of the invariant by every operation.
\<close>

subsection \<open>The store as a list of payloads\<close>

text \<open>In a consistent store every row is determined by its payload, so the table is the image of
  the list of payloads.\<close>

definition row_of :: "jobv1 \<Rightarrow> job_row" where
  "row_of p = \<lparr>jr_job_id = jp_job_id p, jr_payload = Payload p,
     jr_idempotency_key = jp_idempotency_key p, jr_state = Some (jp_state p), jr_version = jp_version p\<rparr>"

lemma row_of_simps [simp]:
  "jr_job_id (row_of p) = jp_job_id p" "jr_payload (row_of p) = Payload p"
  "jr_idempotency_key (row_of p) = jp_idempotency_key p" "jr_state (row_of p) = Some (jp_state p)"
  "jr_version (row_of p) = jp_version p"
  by (simp_all add: row_of_def)

definition payloads :: "job_store \<Rightarrow> jobv1 list" where
  "payloads s = concat (map (\<lambda>r. case jr_payload r of Payload p \<Rightarrow> [p] | _ \<Rightarrow> []) (st_jobs s))"

lemma payloads_rows:
  "st_jobs s = map row_of ps \<Longrightarrow> payloads s = ps"
  by (simp add: payloads_def comp_def)

text \<open>The fields other than the content hash and the event cursor, which sealing and the event log
  maintain.\<close>

definition core :: "jobv1 \<Rightarrow> jobv1" where
  "core p = p\<lparr>jp_content_hash := [], jp_event_cursor := None\<rparr>"

lemma core_fields:
  assumes "core p = core q"
  shows "jp_job_id p = jp_job_id q" "jp_state p = jp_state q" "jp_version p = jp_version q"
    "jp_idempotency_key p = jp_idempotency_key q" "jp_retry_count p = jp_retry_count q"
    "jp_max_retries p = jp_max_retries q" "jp_lease_owner p = jp_lease_owner q"
    "jp_lease_deadline p = jp_lease_deadline q" "jp_child_job_ids p = jp_child_job_ids q"
proof -
  have "jp_job_id (core p) = jp_job_id (core q) \<and> jp_state (core p) = jp_state (core q) \<and>
    jp_version (core p) = jp_version (core q) \<and>
    jp_idempotency_key (core p) = jp_idempotency_key (core q) \<and>
    jp_retry_count (core p) = jp_retry_count (core q) \<and>
    jp_max_retries (core p) = jp_max_retries (core q) \<and>
    jp_lease_owner (core p) = jp_lease_owner (core q) \<and>
    jp_lease_deadline (core p) = jp_lease_deadline (core q) \<and>
    jp_child_job_ids (core p) = jp_child_job_ids (core q)"
    by (simp only: assms)
  then show "jp_job_id p = jp_job_id q" "jp_state p = jp_state q" "jp_version p = jp_version q"
    "jp_idempotency_key p = jp_idempotency_key q" "jp_retry_count p = jp_retry_count q"
    "jp_max_retries p = jp_max_retries q" "jp_lease_owner p = jp_lease_owner q"
    "jp_lease_deadline p = jp_lease_deadline q" "jp_child_job_ids p = jp_child_job_ids q"
    by (simp_all add: core_def)
qed

lemma core_seal:
  assumes "seal_frame K" shows "core (ct_seal K p) = core p"
proof -
  obtain h where "ct_seal K p = p\<lparr>jp_content_hash := h\<rparr>"
    using assms unfolding seal_frame_def by blast
  then show ?thesis by (simp add: core_def)
qed

lemma core_cursor [simp]: "core (p\<lparr>jp_event_cursor := c\<rparr>) = core p"
  by (simp add: core_def)

definition job_ok :: "jobv1 \<Rightarrow> bool" where
  "job_ok p \<longleftrightarrow> jp_job_id p \<noteq> [] \<and> 0 \<le> jp_retry_count p \<and>
     (case jp_max_retries p of None \<Rightarrow> True | Some m \<Rightarrow> jp_retry_count p \<le> m)"

lemma job_ok_core:
  assumes "core p = core q" shows "job_ok p = job_ok q"
  unfolding job_ok_def core_fields(1,5,6) [OF assms] ..

definition keys_unique :: "jobv1 list \<Rightarrow> bool" where
  "keys_unique ps \<longleftrightarrow> (\<forall>p \<in> set ps. \<forall>q \<in> set ps. jp_idempotency_key p \<noteq> None \<longrightarrow>
     jp_idempotency_key p = jp_idempotency_key q \<longrightarrow> jp_job_id p = jp_job_id q)"

definition events_ok :: "job_store \<Rightarrow> bool" where
  "events_ok s \<longleftrightarrow> sorted_wrt (<) (map je_sequence (st_events s)) \<and>
     (\<forall>e \<in> set (st_events s). je_sequence e \<le> st_last_seq s \<and> je_job_id e \<in> jr_job_id ` set (st_jobs s)) \<and>
     distinct (map je_event_id (st_events s))"

definition store_ok :: "contracts \<Rightarrow> job_store \<Rightarrow> bool" where
  "store_ok K s \<longleftrightarrow> st_jobs s = map row_of (payloads s) \<and> distinct (map jp_job_id (payloads s)) \<and>
     (\<forall>p \<in> set (payloads s). ct_valid K p \<and> job_ok p) \<and> keys_unique (payloads s) \<and> events_ok s"

definition upd :: "jobv1 \<Rightarrow> jobv1 list \<Rightarrow> jobv1 list" where
  "upd p ps = map (\<lambda>q. if jp_job_id q = jp_job_id p then p else q) ps"

lemma upd_ids [simp]: "map jp_job_id (upd p ps) = map jp_job_id ps"
  by (simp add: upd_def)

lemma set_upd_ids: "jp_job_id ` set (upd p ps) = jp_job_id ` set ps"
  by (metis upd_ids set_map)

lemma set_upd: "q \<in> set ps \<Longrightarrow> jp_job_id q = jp_job_id p \<Longrightarrow> p \<in> set (upd p ps)"
  by (force simp: upd_def)

lemma upd_upd: "jp_job_id p = jp_job_id q \<Longrightarrow> upd p (upd q ps) = upd p ps"
  by (simp add: upd_def)

lemma keys_unique_upd:
  assumes "keys_unique ps" and "q \<in> set ps" and "jp_job_id p = jp_job_id q"
    and "jp_idempotency_key p = jp_idempotency_key q"
  shows "keys_unique (upd p ps)"
proof -
  have "\<exists>y \<in> set ps. jp_job_id y = jp_job_id x \<and> jp_idempotency_key y = jp_idempotency_key x"
    if "x \<in> set (upd p ps)" for x
    using that assms(2-4) by (auto simp: upd_def)
  note old = this
  show ?thesis unfolding keys_unique_def
  proof (intro ballI impI)
    fix x y
    assume x: "x \<in> set (upd p ps)" and y: "y \<in> set (upd p ps)"
      and k: "jp_idempotency_key x \<noteq> None" "jp_idempotency_key x = jp_idempotency_key y"
    obtain x' y' where "x' \<in> set ps" "jp_job_id x' = jp_job_id x" "jp_idempotency_key x' = jp_idempotency_key x"
      "y' \<in> set ps" "jp_job_id y' = jp_job_id y" "jp_idempotency_key y' = jp_idempotency_key y"
      using old [OF x] old [OF y] by blast
    moreover from this k have "jp_idempotency_key x' \<noteq> None" "jp_idempotency_key x' = jp_idempotency_key y'"
      by simp_all
    ultimately show "jp_job_id x = jp_job_id y"
      using assms(1) [unfolded keys_unique_def, rule_format, of x' y'] by simp
  qed
qed

lemma find_filter: "find P xs = (case filter P xs of [] \<Rightarrow> None | x # _ \<Rightarrow> Some x)"
  by (induction xs) simp_all

lemma get_in_transaction_eq:
  assumes "store_ok K s"
  shows "get_in_transaction K jid s =
    (case find (\<lambda>p. jp_job_id p = jid) (payloads s) of None \<Rightarrow> Inl (JobNotFound jid) | Some p \<Rightarrow> Inr (p, s))"
proof -
  from assms have rows: "st_jobs s = map row_of (payloads s)"
    and valid: "\<And>p. p \<in> set (payloads s) \<Longrightarrow> ct_valid K p" by (auto simp: store_ok_def)
  have f: "filter (\<lambda>r. jr_job_id r = jid) (st_jobs s) = map row_of (filter (\<lambda>p. jp_job_id p = jid) (payloads s))"
    unfolding rows filter_map by (simp add: comp_def)
  show ?thesis
  proof (cases "filter (\<lambda>p. jp_job_id p = jid) (payloads s)")
    case Nil
    then show ?thesis by (simp add: get_in_transaction_def f find_filter)
  next
    case (Cons p ps)
    then have "p \<in> set (payloads s)" by (metis filter_is_subset list.set_intros(1) subsetD)
    with Cons show ?thesis by (simp add: get_in_transaction_def f find_filter valid)
  qed
qed
subsection \<open>Success of transactions\<close>

named_theorems ok_iff

lemma tx_ok_iff [ok_iff]:
  "tx_return x s = Inr (y, s') \<longleftrightarrow> y = x \<and> s' = s"
  "tx_fail e s = Inr (y, s') \<longleftrightarrow> False"
  "tx_guard b e s = Inr (u, s') \<longleftrightarrow> b \<and> s' = s"
  "tx_bind m f s = Inr (z, s') \<longleftrightarrow> (\<exists>x s1. m s = Inr (x, s1) \<and> f x s1 = Inr (z, s'))"
  by (auto simp: tx_return_def tx_fail_def tx_guard_def tx_bind_def res_bind_Inr_iff)

lemma transaction_cases:
  "transaction m s = (Inl e, s') \<Longrightarrow> s' = s"
  "transaction m s = (Inr x, s') \<longleftrightarrow> m s = Inr (x, s')"
  by (auto simp: transaction_def split: sum.splits prod.splits)

subsection \<open>The effect of the writes\<close>

text \<open>\<open>s\<close> with the job of \<open>p\<close> replaced by \<open>p\<close>.\<close>

definition put :: "jobv1 \<Rightarrow> job_store \<Rightarrow> job_store" where
  "put p s = s\<lparr>st_jobs := map row_of (upd p (payloads s))\<rparr>"

lemma put_simps [simp]:
  "payloads (put p s) = upd p (payloads s)" "st_events (put p s) = st_events s"
  "st_last_seq (put p s) = st_last_seq s" "st_jobs (put p s) = map row_of (upd p (payloads s))"
  by (simp_all add: put_def payloads_rows)

lemma store_ids:
  assumes "store_ok K s" shows "jr_job_id ` set (st_jobs s) = jp_job_id ` set (payloads s)"
proof -
  have "map jr_job_id (st_jobs s) = map jp_job_id (payloads s)"
    using assms by (metis (no_types, lifting) map_eq_conv map_map comp_apply row_of_simps(1) store_ok_def)
  then show ?thesis by (metis set_map)
qed

lemma put_ids:
  assumes "store_ok K s" shows "jr_job_id ` set (st_jobs (put p s)) = jr_job_id ` set (st_jobs s)"
proof -
  have "jr_job_id ` set (map row_of (upd p (payloads s))) = jp_job_id ` set (upd p (payloads s))"
    by (simp only: set_map image_image row_of_simps)
  then show ?thesis using store_ids [OF assms] set_upd_ids [of p "payloads s"] by (simp only: put_simps(4))
qed

lemma put_ok:
  assumes ok: "store_ok K s" and q: "q \<in> set (payloads s)" "jp_job_id p = jp_job_id q"
    "jp_idempotency_key p = jp_idempotency_key q" and p: "ct_valid K p" "job_ok p"
  shows "store_ok K (put p s)"
proof -
  have "keys_unique (upd p (payloads s))"
    using ok q by (auto simp: store_ok_def intro: keys_unique_upd)
  moreover have "\<forall>x \<in> set (upd p (payloads s)). ct_valid K x \<and> job_ok x"
    using ok p by (auto simp: store_ok_def upd_def)
  moreover have "distinct (map jp_job_id (upd p (payloads s)))" using ok by (simp add: store_ok_def)
  moreover have "events_ok s" using ok by (simp add: store_ok_def)
  then have "events_ok (put p s)" unfolding events_ok_def put_ids [OF ok] put_simps(2,3) .
  ultimately show ?thesis unfolding store_ok_def by simp
qed

lemma store_job_ok:
  assumes ok: "store_ok K s" and fr: "seal_frame K" and q: "q \<in> set (payloads s)"
    and id: "jp_job_id p0 = jp_job_id q" and key: "jp_idempotency_key p0 = jp_idempotency_key q"
    and st: "store_job K p0 (jp_version q) s = Inr (p1, s1)"
  shows "p1 = ct_seal K p0 \<and> ct_valid K p1 \<and> core p1 = core p0 \<and> s1 = put p1 s"
proof -
  from st have p1: "p1 = ct_seal K p0" "ct_valid K p1"
    and s1: "s1 = s\<lparr>st_jobs := map (put_row p1 (jp_version q)) (st_jobs s)\<rparr>"
    by (auto simp: store_job_def rehash_def res_bind_Inr_iff Let_def split: if_splits)
  have c: "core p1 = core p0" unfolding p1 by (rule core_seal [OF fr])
  have rows: "st_jobs s = map row_of (payloads s)" and d: "distinct (map jp_job_id (payloads s))"
    using ok by (auto simp: store_ok_def)
  have "put_row p1 (jp_version q) (row_of x) = row_of (if jp_job_id x = jp_job_id p1 then p1 else x)"
    if "x \<in> set (payloads s)" for x
  proof (cases "x = q")
    case True
    with id core_fields(1) [OF c] show ?thesis by (simp add: put_row_def row_of_def)
  next
    case False
    with d q that have "jp_job_id x \<noteq> jp_job_id q" by (auto simp: distinct_map inj_on_def)
    with id core_fields(1) [OF c] show ?thesis by (simp add: put_row_def)
  qed
  then have "map (put_row p1 (jp_version q)) (st_jobs s) = map row_of (upd p1 (payloads s))"
    unfolding upd_def rows [THEN arg_cong [where f = "map (put_row p1 (jp_version q))"]] by simp
  with p1 c s1 show ?thesis by (simp add: put_def)
qed

text \<open>\<open>s\<close> with one event for \<open>p\<close> appended to the log.\<close>

definition log_event :: "string \<Rightarrow> string \<Rightarrow> jobv1 \<Rightarrow> job_store \<Rightarrow> job_store" where
  "log_event eid ty p s = s\<lparr>st_events := st_events s @
     [\<lparr>je_event_id = eid, je_sequence = st_last_seq s + 1, je_type = ty, je_job_id = jp_job_id p,
       je_state = jp_state p, je_version = jp_version p\<rparr>], st_last_seq := st_last_seq s + 1\<rparr>"

lemma log_event_simps [simp]:
  "payloads (log_event eid ty p s) = payloads s" "st_jobs (log_event eid ty p s) = st_jobs s"
  by (simp_all add: log_event_def payloads_def)

lemma log_event_events: "\<exists>es. st_events (log_event eid ty p s) = st_events s @ es"
  by (simp add: log_event_def)

lemma log_event_ok:
  assumes ok: "store_ok K s" and p: "jp_job_id p \<in> jp_job_id ` set (payloads s)"
    and new: "eid \<notin> je_event_id ` set (st_events s)"
  shows "store_ok K (log_event eid ty p s)"
proof -
  from ok have "events_ok s" by (simp add: store_ok_def)
  moreover have "jp_job_id p \<in> jr_job_id ` set (st_jobs s)" using p store_ids [OF ok] by simp
  ultimately have "events_ok (log_event eid ty p s)"
    using new unfolding events_ok_def log_event_def by (fastforce simp: sorted_wrt_append)
  with ok show ?thesis unfolding store_ok_def by simp
qed

lemma append_event_ok:
  assumes ok: "store_ok K s" and fr: "seal_frame K" and p: "p \<in> set (payloads s)"
    and ap: "append_event K (jp_job_id p) ty p event_id s = Inr (p2, s2)"
  shows "core p2 = core p \<and>
    (s2 = s \<or> (\<exists>eid. eid \<notin> je_event_id ` set (st_events s) \<and> ct_valid K p2 \<and>
       eid = stable_event_id (jp_job_id p) ty (jp_version p) event_id \<and>
       s2 = put p2 (log_event eid ty p s)))"
proof -
  let ?eid = "stable_event_id (jp_job_id p) ty (jp_version p) event_id"
  let ?p1 = "p\<lparr>jp_event_cursor := Some ?eid\<rparr>"
  show ?thesis
  proof (cases "?eid \<in> je_event_id ` set (st_events s)")
    case True
    with ap show ?thesis by (auto simp: append_event_def Let_def)
  next
    case False
    with ap have p2: "p2 = ct_seal K ?p1" "ct_valid K p2" and s2: "s2 = (log_event ?eid ty p s)\<lparr>st_jobs :=
        map (\<lambda>r. if jr_job_id r = jp_job_id p \<and> jr_version r = jp_version p2
          then r\<lparr>jr_payload := Payload p2\<rparr> else r) (st_jobs s)\<rparr>"
      by (auto simp: append_event_def rehash_def res_bind_Inr_iff log_event_def Let_def split: if_splits)
    have c: "core p2 = core p" unfolding p2 using core_seal [OF fr, of ?p1] by simp
    have rows: "st_jobs s = map row_of (payloads s)" and d: "distinct (map jp_job_id (payloads s))"
      using ok by (auto simp: store_ok_def)
    have "(if jr_job_id (row_of x) = jp_job_id p \<and> jr_version (row_of x) = jp_version p2
        then (row_of x)\<lparr>jr_payload := Payload p2\<rparr> else row_of x) =
      row_of (if jp_job_id x = jp_job_id p2 then p2 else x)" if "x \<in> set (payloads s)" for x
    proof (cases "x = p")
      case True
      with core_fields(1-4) [OF c] show ?thesis by (simp add: row_of_def)
    next
      case False
      with d p that have "jp_job_id x \<noteq> jp_job_id p" by (auto simp: distinct_map inj_on_def)
      with core_fields(1) [OF c] show ?thesis by simp
    qed
    then have "map (\<lambda>r. if jr_job_id r = jp_job_id p \<and> jr_version r = jp_version p2
          then r\<lparr>jr_payload := Payload p2\<rparr> else r) (map row_of (payloads s)) = map row_of (upd p2 (payloads s))"
      by (simp add: upd_def)
    with s2 rows have "s2 = put p2 (log_event ?eid ty p s)" by (simp add: put_def)
    with False c p2 show ?thesis by blast
  qed
qed

text \<open>An event for a payload that is no longer the stored version leaves the table alone.\<close>

lemma append_event_stale:
  assumes ok: "store_ok K s" and q: "q \<in> set (payloads s)" "jp_job_id q = jp_job_id p"
    and fr: "seal_frame K" and v: "jp_version q \<noteq> jp_version p"
    and ap: "append_event K (jp_job_id p) ty p event_id s = Inr (p2, s2)"
  shows "core p2 = core p \<and> store_ok K s2 \<and> payloads s2 = payloads s \<and>
    (\<exists>es. st_events s2 = st_events s @ es)"
proof -
  let ?eid = "stable_event_id (jp_job_id p) ty (jp_version p) event_id"
  let ?p1 = "p\<lparr>jp_event_cursor := Some ?eid\<rparr>"
  show ?thesis
  proof (cases "?eid \<in> je_event_id ` set (st_events s)")
    case True
    with ap ok show ?thesis by (auto simp: append_event_def Let_def)
  next
    case False
    with ap have p2: "p2 = ct_seal K ?p1" and s2: "s2 = (log_event ?eid ty p s)\<lparr>st_jobs :=
        map (\<lambda>r. if jr_job_id r = jp_job_id p \<and> jr_version r = jp_version p2
          then r\<lparr>jr_payload := Payload p2\<rparr> else r) (st_jobs s)\<rparr>"
      by (auto simp: append_event_def rehash_def res_bind_Inr_iff log_event_def Let_def split: if_splits)
    have c: "core p2 = core p" unfolding p2 using core_seal [OF fr, of ?p1] by simp
    have rows: "st_jobs s = map row_of (payloads s)" and d: "distinct (map jp_job_id (payloads s))"
      using ok by (auto simp: store_ok_def)
    have "\<not> (jr_job_id (row_of x) = jp_job_id p \<and> jr_version (row_of x) = jp_version p2)"
      if "x \<in> set (payloads s)" for x
      using that d q v core_fields(3) [OF c] by (auto simp: distinct_map inj_on_def)
    then have "map (\<lambda>r. if jr_job_id r = jp_job_id p \<and> jr_version r = jp_version p2
          then r\<lparr>jr_payload := Payload p2\<rparr> else r) (map row_of (payloads s)) = map row_of (payloads s)"
      by fastforce
    with s2 rows have s2': "s2 = log_event ?eid ty p s" by (simp add: log_event_def)
    have "store_ok K s2" unfolding s2' by (rule log_event_ok [OF ok _ False]) (use q imageI in metis)
    moreover have "payloads s2 = payloads s" "\<exists>es. st_events s2 = st_events s @ es"
      by (simp_all add: s2' log_event_events)
    ultimately show ?thesis using c by blast
  qed
qed

subsection \<open>Committing a new version of a job\<close>

text \<open>The pattern of every update: store the payload under the version it was read with, then log
  an event for it.\<close>

definition commit :: "contracts \<Rightarrow> jobv1 \<Rightarrow> int \<Rightarrow> string \<Rightarrow> string option \<Rightarrow> jobv1 tx" where
  "commit K p0 v ty event_id =
     tx_bind (store_job K p0 v) (\<lambda>p1. append_event K (jp_job_id p1) ty p1 event_id)"

text \<open>What a commit of \<open>p0\<close> leaves: a sealed version of \<open>p0\<close> in place of the job, and at most one more
  event, which describes it.\<close>

definition committed :: "contracts \<Rightarrow> jobv1 \<Rightarrow> string \<Rightarrow> job_store \<Rightarrow> job_store \<Rightarrow> bool" where
  "committed K p0 ty s s' \<longleftrightarrow> store_ok K s' \<and>
     (\<exists>p'. core p' = core p0 \<and> payloads s' = upd p' (payloads s)) \<and>
     (st_events s' = st_events s \<or> (\<exists>e. st_events s' = st_events s @ [e] \<and> je_type e = ty \<and>
        je_job_id e = jp_job_id p0 \<and> je_state e = jp_state p0 \<and> je_version e = jp_version p0))"

lemma commit_ok:
  assumes ok: "store_ok K s" and fr: "seal_frame K" and q: "q \<in> set (payloads s)"
    and id: "jp_job_id p0 = jp_job_id q" and key: "jp_idempotency_key p0 = jp_idempotency_key q"
    and r: "job_ok p0" and c: "commit K p0 (jp_version q) ty event_id s = Inr (p2, s2)"
  shows "core p2 = core p0 \<and> committed K p0 ty s s2"
proof -
  from c obtain p1 s1 where st: "store_job K p0 (jp_version q) s = Inr (p1, s1)"
    and ap: "append_event K (jp_job_id p1) ty p1 event_id s1 = Inr (p2, s2)"
    by (auto simp: commit_def ok_iff)
  from store_job_ok [OF ok fr q id key st] have c1: "core p1 = core p0" and v1: "ct_valid K p1"
    and s1: "s1 = put p1 s" by blast+
  note f1 = core_fields [OF c1]
  have ok1: "store_ok K s1"
    unfolding s1 by (rule put_ok [OF ok q]) (use f1 id key v1 r job_ok_core [OF c1] in simp_all)
  have p1: "p1 \<in> set (payloads s1)" unfolding s1 using set_upd [OF q, of p1] f1 id by simp
  from append_event_ok [OF ok1 fr p1 ap]
  have c2: "core p2 = core p1" and cases: "s2 = s1 \<or> (\<exists>eid. eid \<notin> je_event_id ` set (st_events s1) \<and>
      ct_valid K p2 \<and> s2 = put p2 (log_event eid ty p1 s1))" by blast+
  note f2 = core_fields [OF c2]
  from cases show ?thesis
  proof
    assume "s2 = s1"
    with ok1 c1 c2 s1 show ?thesis by (auto simp: committed_def)
  next
    assume "\<exists>eid. eid \<notin> je_event_id ` set (st_events s1) \<and> ct_valid K p2 \<and> s2 = put p2 (log_event eid ty p1 s1)"
    then obtain eid where new: "eid \<notin> je_event_id ` set (st_events s1)" and v2: "ct_valid K p2"
      and s2: "s2 = put p2 (log_event eid ty p1 s1)" by blast
    have "store_ok K s2" unfolding s2
      by (rule put_ok [OF log_event_ok [OF ok1 imageI [OF p1] new], of p1])
        (use p1 f1 f2 v2 r job_ok_core [OF c1] job_ok_core [OF c2] in simp_all)
    moreover have "payloads s2 = upd p2 (payloads s)"
      using f2 by (simp add: s2 s1 upd_upd)
    moreover have "st_events s2 = st_events s @ [\<lparr>je_event_id = eid, je_sequence = st_last_seq s + 1,
        je_type = ty, je_job_id = jp_job_id p1, je_state = jp_state p1, je_version = jp_version p1\<rparr>]"
      by (simp add: s2 s1 log_event_def)
    ultimately show ?thesis using c1 c2 f1 by (auto simp: committed_def)
  qed
qed

lemma transition_commit:
  "transition_in_transaction K p target ty now updates event_id s = Inr (p2, s2) \<longleftrightarrow>
     target \<in> set (allowed_transitions (jp_state p)) \<and>
     commit K (transition_payload target now updates p) (jp_version p) ty event_id s = Inr (p2, s2)"
  by (auto simp: transition_in_transaction_def commit_def ok_iff)

lemma get_ok:
  assumes "store_ok K s"
  shows "get_in_transaction K jid s = Inr (p, s1) \<longleftrightarrow> s1 = s \<and> p \<in> set (payloads s) \<and> jp_job_id p = jid"
proof -
  have "distinct (map jp_job_id (payloads s))" using assms by (simp add: store_ok_def)
  from find_unique [OF this, of jid p] show ?thesis
    unfolding get_in_transaction_eq [OF assms]
    by (cases "find (\<lambda>p. jp_job_id p = jid) (payloads s)") auto
qed

subsection \<open>How a store grows\<close>

text \<open>One new version of a job: the state stays or follows the transition table.\<close>

definition bump :: "jobv1 \<Rightarrow> jobv1 \<Rightarrow> bool" where
  "bump p p' \<longleftrightarrow> core p' = core p \<or>
     jp_job_id p' = jp_job_id p \<and> jp_idempotency_key p' = jp_idempotency_key p \<and>
     jp_version p' = jp_version p + 1 \<and>
     (jp_state p' = jp_state p \<or> jp_state p' \<in> set (allowed_transitions (jp_state p)))"

lemma bump_refl [simp]: "bump p p"
  by (simp add: bump_def)

lemma bump_core:
  assumes "core p' = core p0" and "bump q p0" shows "bump q p'"
  using assms(2) unfolding bump_def core_fields [OF assms(1)] assms(1) .

lemma bump_id: "bump p p' \<Longrightarrow> jp_job_id p' = jp_job_id p"
  unfolding bump_def using core_fields(1) by metis

definition grows :: "job_store \<Rightarrow> job_store \<Rightarrow> bool" where
  "grows s s' \<longleftrightarrow> (\<exists>old new. payloads s' = old @ new \<and> list_all2 bump\<^sup>*\<^sup>* (payloads s) old) \<and>
     (\<exists>es. st_events s' = st_events s @ es)"

lemma list_all2_refl_bumps [simp]: "list_all2 bump\<^sup>*\<^sup>* ps ps"
  by (simp add: list_all2_refl)

lemma grows_refl [simp]: "grows s s"
  unfolding grows_def by (intro conjI exI [of _ "payloads s"] exI [of _ "[]"]) simp_all

lemma grows_trans:
  assumes "grows s1 s2" and "grows s2 s3" shows "grows s1 s3"
proof -
  from assms obtain o1 n1 o2 n2 e1 e2 where
    1: "payloads s2 = o1 @ n1" "list_all2 bump\<^sup>*\<^sup>* (payloads s1) o1" "st_events s2 = st_events s1 @ e1" and
    2: "payloads s3 = o2 @ n2" "list_all2 bump\<^sup>*\<^sup>* (payloads s2) o2" "st_events s3 = st_events s2 @ e2"
    unfolding grows_def by blast
  from 1(1) 2(2) obtain u v where u: "o2 = u @ v" "list_all2 bump\<^sup>*\<^sup>* o1 u"
    by (auto simp: list_all2_append1)
  have "list_all2 bump\<^sup>*\<^sup>* (payloads s1) u"
    by (rule list_all2_trans [OF rtranclp_trans 1(2) u(2)])
  moreover have "payloads s3 = u @ (v @ n2)" "st_events s3 = st_events s1 @ (e1 @ e2)"
    using 1 2 u by simp_all
  ultimately show ?thesis unfolding grows_def by blast
qed

lemma upd_bumps:
  assumes "distinct (map jp_job_id ps)" and "q \<in> set ps" and "bump q p"
  shows "list_all2 bump\<^sup>*\<^sup>* ps (upd p ps)"
proof -
  have "bump\<^sup>*\<^sup>* x (if jp_job_id x = jp_job_id p then p else x)" if "x \<in> set ps" for x
  proof (cases "jp_job_id x = jp_job_id p")
    case True
    with assms that bump_id [OF assms(3)] have "x = q" by (auto simp: distinct_map inj_on_def)
    with assms(3) show ?thesis by auto
  qed simp
  then show ?thesis by (simp add: upd_def list_all2_conv_all_nth)
qed

lemma committed_grows:
  assumes "committed K p0 ty s s'" and "store_ok K s" and "q \<in> set (payloads s)" and "bump q p0"
  shows "grows s s'"
proof -
  from assms(1) obtain p' where p': "core p' = core p0" "payloads s' = upd p' (payloads s)"
    by (auto simp: committed_def)
  have "list_all2 bump\<^sup>*\<^sup>* (payloads s) (payloads s')"
    unfolding p'(2) by (rule upd_bumps [OF _ assms(3) bump_core [OF p'(1) assms(4)]])
      (use assms(2) in \<open>simp add: store_ok_def\<close>)
  moreover have "\<exists>es. st_events s' = st_events s @ es" using assms(1) by (auto simp: committed_def)
  moreover have "payloads s' = payloads s' @ []" by simp
  ultimately show ?thesis unfolding grows_def by blast
qed

lemma commit_grows:
  assumes ok: "store_ok K s" and fr: "seal_frame K" and q: "q \<in> set (payloads s)"
    and b: "jp_job_id p0 = jp_job_id q" "jp_idempotency_key p0 = jp_idempotency_key q"
      "jp_version p0 = jp_version q + 1"
      "jp_state p0 = jp_state q \<or> jp_state p0 \<in> set (allowed_transitions (jp_state q))"
    and r: "job_ok p0" and c: "commit K p0 (jp_version q) ty event_id s = Inr (p2, s2)"
  shows "store_ok K s2 \<and> grows s s2"
proof -
  from commit_ok [OF ok fr q b(1,2) r c] have cm: "committed K p0 ty s s2" by blast
  from b have "bump q p0" by (simp add: bump_def)
  from committed_grows [OF cm ok q this] cm show ?thesis by (simp add: committed_def)
qed

end
