(* ===== verification/JobStoreOps.thy ===== *)
theory JobStoreOps
  imports JobStoreInv
begin

text \<open>
  Every operation of the job store keeps the invariant \<open>store_ok\<close> and only lets the store grow: no
  job disappears, every job moves along allowed transitions with a version that never falls, and
  the event log is only appended to. The operations are the constructors of \<open>store_op\<close>, run by
  \<open>store_step\<close>.
\<close>

lemma truthy_the: "truthy x \<Longrightarrow> the x \<noteq> []"
  by (cases x) simp_all

subsection \<open>Every operation keeps the store consistent\<close>

lemma job_ok_transition:
  assumes "job_ok p" and "jp_retry_count (updates p) = jp_retry_count p"
    and "jp_max_retries (updates p) = jp_max_retries p" and "jp_job_id (updates p) = jp_job_id p"
  shows "job_ok (transition_payload target now updates p)"
  using assms by (auto simp: job_ok_def transition_payload_def split: option.splits)

lemma transition_grows:
  assumes ok: "store_ok K s" and fr: "seal_frame K" and q: "q \<in> set (payloads s)"
    and keep: "jp_job_id (updates q) = jp_job_id q" "jp_idempotency_key (updates q) = jp_idempotency_key q"
    and r: "job_ok (transition_payload target now updates q)"
    and t: "transition_in_transaction K q target ty now updates event_id s = Inr (p2, s2)"
  shows "store_ok K s2 \<and> grows s s2"
proof -
  from t have a: "target \<in> set (allowed_transitions (jp_state q))"
    and c: "commit K (transition_payload target now updates q) (jp_version q) ty event_id s = Inr (p2, s2)"
    by (simp_all add: transition_commit)
  show ?thesis
    by (rule commit_grows [OF ok fr q _ _ _ _ r c]) (use keep a in \<open>simp_all add: transition_payload_def\<close>)
qed

lemma payload_job_ok: "store_ok K s \<Longrightarrow> p \<in> set (payloads s) \<Longrightarrow> job_ok p"
  by (simp add: store_ok_def)

datatype store_op =
    Create "(string \<times> string) option" ms create_args
  | MarkRunning string string ms ms "int option"
  | RenewLease string string ms ms "int option"
  | MarkSucceeded string string "int option" ms "string list"
  | MarkFailed string string "string option" "int option" ms
  | CancelJob string "string option" ms
  | RetryJob string ms
  | RecoverLeases ms

primrec store_step :: "contracts \<Rightarrow> store_op \<Rightarrow> job_store \<Rightarrow> job_store" where
  "store_step K (Create ident now a) s = snd (v1_create K ident now a s)"
| "store_step K (MarkRunning jid owner deadline now ex) s = snd (v1_mark_running K jid owner deadline now ex s)"
| "store_step K (RenewLease jid owner deadline now ex) s = snd (v1_renew_lease K jid owner deadline now ex s)"
| "store_step K (MarkSucceeded jid owner ex now refs) s = snd (v1_mark_succeeded K jid owner ex now refs s)"
| "store_step K (MarkFailed jid err owner ex now) s = snd (v1_mark_failed K jid err owner ex now s)"
| "store_step K (CancelJob jid key now) s = snd (v1_cancel K jid key now s)"
| "store_step K (RetryJob jid now) s = snd (v1_retry K jid now s)"
| "store_step K (RecoverLeases now) s = snd (recover_lost_leases K now s)"

text \<open>An operation that is one transaction keeps what its successful runs keep.\<close>

lemma transaction_keeps:
  assumes "store_ok K s" and "\<And>x s'. m s = Inr (x, s') \<Longrightarrow> store_ok K s' \<and> grows s s'"
  shows "store_ok K (snd (transaction m s)) \<and> grows s (snd (transaction m s))"
  using assms by (cases "m s") (auto simp: transaction_def split: prod.splits)

lemma require_version_ok [ok_iff]:
  "require_version p ex s = Inr (u, s') \<longleftrightarrow> (ex = None \<or> ex = Some (jp_version p)) \<and> s' = s"
  by (auto simp: require_version_def ok_iff)

lemma require_live_lease_ok [ok_iff]:
  "require_live_lease p owner now s = Inr (u, s') \<longleftrightarrow> truthy owner \<and> jp_lease_owner p = owner \<and>
     (\<exists>d. jp_lease_deadline p = Some d \<and> now \<le> d) \<and> s' = s"
  by (auto simp: require_live_lease_def ok_iff split: option.splits)

lemma mark_running_keeps:
  assumes ok: "store_ok K s" and fr: "seal_frame K"
  shows "store_ok K (snd (v1_mark_running K jid owner deadline now ex s)) \<and>
    grows s (snd (v1_mark_running K jid owner deadline now ex s))"
proof (cases "owner = [] \<or> deadline \<le> now")
  case False
  have "store_ok K s' \<and> grows s s'" if "transition K jid RUNNING ''running'' ex now (\<lambda>p. p\<lparr>
        jp_started_at := Some now, jp_lease_owner := Some owner, jp_lease_deadline := Some deadline\<rparr>) s = Inr (x, s')"
    for x s'
  proof -
    from that obtain p where p: "p \<in> set (payloads s)" and
      t: "transition_in_transaction K p RUNNING ''running'' now (\<lambda>p. p\<lparr>
        jp_started_at := Some now, jp_lease_owner := Some owner, jp_lease_deadline := Some deadline\<rparr>) None s = Inr (x, s')"
      by (auto simp: transition_def ok_iff get_ok [OF ok])
    show ?thesis
      by (rule transition_grows [OF ok fr p _ _ _ t])
        (simp_all add: job_ok_transition payload_job_ok [OF ok p])
  qed
  with False show ?thesis
    unfolding v1_mark_running_def using transaction_keeps [OF ok] by auto
qed (use ok in \<open>auto simp: v1_mark_running_def\<close>)

lemma renew_lease_keeps:
  assumes ok: "store_ok K s" and fr: "seal_frame K"
  shows "store_ok K (snd (v1_renew_lease K jid owner deadline now ex s)) \<and>
    grows s (snd (v1_renew_lease K jid owner deadline now ex s))"
proof (cases "deadline \<le> now")
  case False
  show ?thesis unfolding v1_renew_lease_def if_not_P [OF False]
  proof (rule transaction_keeps [OF ok])
    fix x s'
    assume "tx_bind (get_in_transaction K jid) (\<lambda>p.
        tx_bind (require_version p ex) (\<lambda>_.
        tx_bind (require_live_lease p (Some owner) now) (\<lambda>_.
        tx_bind (store_job K (p\<lparr>jp_lease_deadline := Some deadline, jp_updated_at := now,
            jp_version := jp_version p + 1\<rparr>) (jp_version p)) (\<lambda>p1.
          append_event K jid ''lease_renewed'' p1 None)))) s = Inr (x, s')"
    then obtain p p1 s1 where p: "p \<in> set (payloads s)" "jp_job_id p = jid"
      and st: "store_job K (p\<lparr>jp_lease_deadline := Some deadline, jp_updated_at := now,
            jp_version := jp_version p + 1\<rparr>) (jp_version p) s = Inr (p1, s1)"
      and ap: "append_event K jid ''lease_renewed'' p1 None s1 = Inr (x, s')"
      by (auto simp: ok_iff get_ok [OF ok])
    let ?p0 = "p\<lparr>jp_lease_deadline := Some deadline, jp_updated_at := now, jp_version := jp_version p + 1\<rparr>"
    have "core p1 = core ?p0" using store_job_ok [OF ok fr p(1) _ _ st] by (simp (no_asm_use)) blast
    from core_fields(1) [OF this] p(2) have "jp_job_id p1 = jid" by simp
    with st ap have c: "commit K ?p0 (jp_version p) ''lease_renewed'' None s = Inr (x, s')"
      by (auto simp: commit_def ok_iff)
    show "store_ok K s' \<and> grows s s'"
      by (rule commit_grows [OF ok fr p(1) _ _ _ _ _ c])
        (use payload_job_ok [OF ok p(1)] in \<open>auto simp: job_ok_def split: option.splits\<close>)
  qed
qed (use ok in \<open>simp add: v1_renew_lease_def\<close>)

lemma mark_succeeded_keeps:
  assumes ok: "store_ok K s" and fr: "seal_frame K"
  shows "store_ok K (snd (v1_mark_succeeded K jid owner ex now refs s)) \<and>
    grows s (snd (v1_mark_succeeded K jid owner ex now refs s))"
  unfolding v1_mark_succeeded_def
proof (rule transaction_keeps [OF ok], goal_cases)
  case (1 x s')
  then obtain p where p: "p \<in> set (payloads s)" and
    t: "transition_in_transaction K p SUCCEEDED ''succeeded'' now (\<lambda>q. q\<lparr>jp_progress := 100,
           jp_finished_at := Some now, jp_result_refs := refs, jp_lease_owner := None,
           jp_lease_deadline := None\<rparr>) None s = Inr (x, s')"
    by (auto simp: ok_iff get_ok [OF ok])
  show ?case
    by (rule transition_grows [OF ok fr p _ _ _ t]) (simp_all add: job_ok_transition payload_job_ok [OF ok p])
qed

lemma mark_failed_keeps:
  assumes ok: "store_ok K s" and fr: "seal_frame K"
  shows "store_ok K (snd (v1_mark_failed K jid err owner ex now s)) \<and>
    grows s (snd (v1_mark_failed K jid err owner ex now s))"
  unfolding v1_mark_failed_def
proof (rule transaction_keeps [OF ok], goal_cases)
  case (1 x s')
  then obtain p where p: "p \<in> set (payloads s)" and
    t: "transition_in_transaction K p FAILED ''failed'' now (\<lambda>q. q\<lparr>jp_finished_at := Some now,
           jp_error_code := Some err, jp_lease_owner := None, jp_lease_deadline := None\<rparr>) None s = Inr (x, s')"
    by (auto simp: ok_iff get_ok [OF ok] split: if_splits)
  show ?case
    by (rule transition_grows [OF ok fr p _ _ _ t]) (simp_all add: job_ok_transition payload_job_ok [OF ok p])
qed

lemma cancel_keeps:
  assumes ok: "store_ok K s" and fr: "seal_frame K"
  shows "store_ok K (snd (v1_cancel K jid key now s)) \<and> grows s (snd (v1_cancel K jid key now s))"
  unfolding v1_cancel_def
proof (rule transaction_keeps [OF ok], goal_cases)
  case (1 x s')
  then obtain p where p: "p \<in> set (payloads s)" and t: "s' = s \<or>
    transition_in_transaction K p CANCELED ''canceled'' now (\<lambda>q. q\<lparr>jp_finished_at := Some now,
              jp_lease_owner := None, jp_lease_deadline := None\<rparr>) key s = Inr (x, s')"
    by (auto simp: ok_iff get_ok [OF ok] split: if_splits)
  from t show ?case
  proof
    assume "s' = s"
    with ok show ?thesis by simp
  next
    assume t: "transition_in_transaction K p CANCELED ''canceled'' now (\<lambda>q. q\<lparr>jp_finished_at := Some now,
              jp_lease_owner := None, jp_lease_deadline := None\<rparr>) key s = Inr (x, s')"
    show ?thesis
      by (rule transition_grows [OF ok fr p _ _ _ t]) (simp_all add: job_ok_transition payload_job_ok [OF ok p])
  qed
qed

lemma retry_keeps:
  assumes ok: "store_ok K s" and fr: "seal_frame K"
  shows "store_ok K (snd (v1_retry K jid now s)) \<and> grows s (snd (v1_retry K jid now s))"
  unfolding v1_retry_def
proof (rule transaction_keeps [OF ok], goal_cases)
  case (1 x s')
  then obtain p where p: "p \<in> set (payloads s)" and t: "s' = s \<or>
    (case jp_max_retries p of None \<Rightarrow> True | Some m \<Rightarrow> jp_retry_count p + 1 \<le> m) \<and>
    transition_in_transaction K p QUEUED ''retried'' now (\<lambda>q. q\<lparr>jp_retry_count := jp_retry_count p + 1,
              jp_finished_at := None, jp_error_code := None\<rparr>) None s = Inr (x, s')"
    by (auto simp: ok_iff get_ok [OF ok] split: if_splits)
  from t show ?case
  proof
    assume "s' = s"
    with ok show ?thesis by simp
  next
    assume "(case jp_max_retries p of None \<Rightarrow> True | Some m \<Rightarrow> jp_retry_count p + 1 \<le> m) \<and>
      transition_in_transaction K p QUEUED ''retried'' now (\<lambda>q. q\<lparr>jp_retry_count := jp_retry_count p + 1,
              jp_finished_at := None, jp_error_code := None\<rparr>) None s = Inr (x, s')"
    then have m: "case jp_max_retries p of None \<Rightarrow> True | Some m \<Rightarrow> jp_retry_count p + 1 \<le> m" and
      t: "transition_in_transaction K p QUEUED ''retried'' now (\<lambda>q. q\<lparr>jp_retry_count := jp_retry_count p + 1,
              jp_finished_at := None, jp_error_code := None\<rparr>) None s = Inr (x, s')" by blast+
    show ?thesis
      by (rule transition_grows [OF ok fr p _ _ _ t])
        (use payload_job_ok [OF ok p] m in \<open>simp_all add: job_ok_def transition_payload_def split: option.splits\<close>)
  qed
qed

subsection \<open>Recovery of lost leases\<close>

definition lease_expired :: "ms \<Rightarrow> jobv1 \<Rightarrow> bool" where
  "lease_expired now p \<longleftrightarrow> (case jp_lease_deadline p of None \<Rightarrow> False | Some d \<Rightarrow> d < now)"

definition lost_payload :: "ms \<Rightarrow> jobv1 \<Rightarrow> jobv1" where
  "lost_payload now = transition_payload LOST now (\<lambda>q. q\<lparr>jp_finished_at := Some now,
     jp_lease_owner := None, jp_lease_deadline := None\<rparr>)"

text \<open>The payload list after recovering the expired jobs among \<open>ps\<close>.\<close>

definition recovered :: "ms \<Rightarrow> jobv1 list \<Rightarrow> jobv1 list \<Rightarrow> jobv1 list \<Rightarrow> bool" where
  "recovered now ps before after \<longleftrightarrow> list_all2 (\<lambda>x y.
     if x \<in> set ps \<and> lease_expired now x then core y = core (lost_payload now x) else y = x) before after"

lemma recover_rows_Cons:
  "recover_rows K now (row_of p # rs) =
     (if \<not> lease_expired now p then recover_rows K now rs
      else tx_bind (transition_in_transaction K p LOST ''lost'' now (\<lambda>q. q\<lparr>jp_finished_at := Some now,
                 jp_lease_owner := None, jp_lease_deadline := None\<rparr>) None) (\<lambda>_.
               tx_bind (recover_rows K now rs) (\<lambda>n. tx_return (Suc n))))"
  by (auto simp: lease_expired_def not_less split: option.splits)

declare recover_rows.simps(2) [simp del]

lemma recover_rows_ok:
  assumes fr: "seal_frame K" and "store_ok K s" and "set ps \<subseteq> set (payloads s)"
    and "distinct (map jp_job_id ps)" and "recover_rows K now (map row_of ps) s = Inr (n, s')"
  shows "store_ok K s' \<and> grows s s' \<and> n = length (filter (lease_expired now) ps) \<and>
    recovered now ps (payloads s) (payloads s')"
  using assms(2-)
proof (induction ps arbitrary: s n)
  case Nil
  then show ?case by (auto simp: ok_iff recovered_def list_all2_refl)
next
  case (Cons p ps)
  show ?case
  proof (cases "lease_expired now p")
    case False
    with Cons.prems(4) have "recover_rows K now (map row_of ps) s = Inr (n, s')"
      by (simp add: recover_rows_Cons)
    from Cons.IH [OF Cons.prems(1) _ _ this] Cons.prems(2,3)
    have *: "store_ok K s' \<and> grows s s' \<and> n = length (filter (lease_expired now) ps) \<and>
      recovered now ps (payloads s) (payloads s')" by simp
    have "recovered now (p # ps) (payloads s) (payloads s') = recovered now ps (payloads s) (payloads s')"
      unfolding recovered_def
      by (rule arg_cong [where f = "\<lambda>P. list_all2 P (payloads s) (payloads s')"])
        (use False in \<open>auto simp: fun_eq_iff\<close>)
    with * False show ?thesis by simp
  next
    case True
    let ?u = "\<lambda>q. q\<lparr>jp_finished_at := Some now, jp_lease_owner := None, jp_lease_deadline := None\<rparr> :: jobv1"
    from True Cons.prems(4) obtain p2 s1 m where
      t: "transition_in_transaction K p LOST ''lost'' now ?u None s = Inr (p2, s1)" and
      rest: "recover_rows K now (map row_of ps) s1 = Inr (m, s')" and n: "n = Suc m"
      by (auto simp: recover_rows_Cons ok_iff)
    note ok = Cons.prems(1)
    have p: "p \<in> set (payloads s)" using Cons.prems(2) by simp
    have r: "job_ok (transition_payload LOST now ?u p)"
      by (rule job_ok_transition) (simp_all add: payload_job_ok [OF ok p])
    from transition_grows [OF ok fr p _ _ r t] have g1: "store_ok K s1" "grows s s1" by simp_all
    from t have c: "commit K (lost_payload now p) (jp_version p) ''lost'' None s = Inr (p2, s1)"
      by (simp add: transition_commit lost_payload_def)
    have "committed K (lost_payload now p) ''lost'' s s1"
      by (rule conjunct2, rule commit_ok [OF ok fr p _ _ _ c])
        (use r in \<open>simp_all add: lost_payload_def transition_payload_def\<close>)
    then obtain p' where p': "core p' = core (lost_payload now p)" "payloads s1 = upd p' (payloads s)"
      by (auto simp: committed_def)
    have id: "jp_job_id p' = jp_job_id p"
      using core_fields(1) [OF p'(1)] by (simp add: lost_payload_def transition_payload_def)
    have d: "distinct (map jp_job_id (payloads s))" using ok by (simp add: store_ok_def)
    have notin: "jp_job_id x \<noteq> jp_job_id p" if "x \<in> set ps" for x
      using Cons.prems(3) imageI [OF that, of jp_job_id] by auto
    have sub: "set ps \<subseteq> set (payloads s1)"
      using Cons.prems(2) notin id by (force simp: p'(2) upd_def)
    from Cons.IH [OF g1(1) sub _ rest] Cons.prems(3)
    have IH: "store_ok K s'" "grows s1 s'" "m = length (filter (lease_expired now) ps)"
      "recovered now ps (payloads s1) (payloads s')" by simp_all
    have "recovered now (p # ps) (payloads s) (payloads s')"
      unfolding recovered_def list_all2_conv_all_nth
    proof (intro conjI allI impI)
      show len: "length (payloads s) = length (payloads s')"
        using list_all2_lengthD [OF IH(4) [unfolded recovered_def]] by (simp add: p'(2) upd_def)
      fix i
      assume i: "i < length (payloads s)"
      let ?x = "payloads s ! i" and ?y = "payloads s' ! i"
      have x1: "payloads s1 ! i = (if jp_job_id ?x = jp_job_id p then p' else ?x)"
        using i id by (simp add: p'(2) upd_def)
      from IH(4) i have y: "if payloads s1 ! i \<in> set ps \<and> lease_expired now (payloads s1 ! i)
          then core ?y = core (lost_payload now (payloads s1 ! i)) else ?y = payloads s1 ! i"
        unfolding recovered_def list_all2_conv_all_nth by (simp add: p'(2) upd_def)
      show "if ?x \<in> set (p # ps) \<and> lease_expired now ?x then core ?y = core (lost_payload now ?x) else ?y = ?x"
      proof (cases "?x = p")
        case True
        with notin id have "p' \<notin> set ps" by metis
        with True x1 y p'(1) \<open>lease_expired now p\<close> show ?thesis by simp
      next
        case False
        with d i p have "jp_job_id ?x \<noteq> jp_job_id p" by (auto simp: distinct_map inj_on_def)
        with False x1 y show ?thesis by simp
      qed
    qed
    moreover have "grows s s'" by (rule grows_trans [OF g1(2) IH(2)])
    ultimately show ?thesis using IH n True by simp
  qed
qed

definition running_jobs :: "job_store \<Rightarrow> jobv1 list" where
  "running_jobs s = sort_key jp_job_id (filter (\<lambda>p. jp_state p = RUNNING) (payloads s))"

lemma running_rows:
  assumes "store_ok K s"
  shows "sort_key jr_job_id (filter (\<lambda>r. jr_state r = Some RUNNING) (st_jobs s)) = map row_of (running_jobs s)"
proof -
  have rows: "st_jobs s = map row_of (payloads s)" using assms by (simp add: store_ok_def)
  have "sort_key jr_job_id (map row_of ps) = map row_of (sort_key jp_job_id ps)" for ps
  proof (induction ps)
    case (Cons p ps)
    have "insort_key jr_job_id (row_of p) (map row_of xs) = map row_of (insort_key jp_job_id p xs)" for xs
      by (induction xs) simp_all
    with Cons show ?case by simp
  qed simp
  moreover have "filter (\<lambda>r. jr_state r = Some RUNNING) (st_jobs s) =
      map row_of (filter (\<lambda>p. jp_state p = RUNNING) (payloads s))"
    unfolding rows filter_map by (simp add: comp_def)
  ultimately show ?thesis by (simp add: running_jobs_def)
qed

lemma recover_ok:
  assumes ok: "store_ok K s" and fr: "seal_frame K" and r: "recover_lost_leases K now s = (Inr n, s')"
  shows "store_ok K s' \<and> grows s s' \<and> n = length (filter (lease_expired now) (running_jobs s)) \<and>
    recovered now (running_jobs s) (payloads s) (payloads s')"
proof -
  from r have "recover_rows K now (map row_of (running_jobs s)) s = Inr (n, s')"
    by (simp add: recover_lost_leases_def transaction_cases running_rows [OF ok])
  moreover have "distinct (map jp_job_id (payloads s))" using ok by (simp add: store_ok_def)
  then have "distinct (map jp_job_id (running_jobs s))"
    by (simp add: running_jobs_def distinct_map)  (auto simp: inj_on_def)
  moreover have "set (running_jobs s) \<subseteq> set (payloads s)" by (auto simp: running_jobs_def)
  ultimately show ?thesis by (intro recover_rows_ok [OF fr ok])
qed

lemma recover_keeps:
  assumes ok: "store_ok K s" and fr: "seal_frame K"
  shows "store_ok K (snd (recover_lost_leases K now s)) \<and> grows s (snd (recover_lost_leases K now s))"
proof (cases "recover_lost_leases K now s")
  case (Pair res s')
  show ?thesis
  proof (cases res)
    case (Inl e)
    with Pair ok show ?thesis by (auto simp: recover_lost_leases_def dest: transaction_cases(1))
  next
    case (Inr n)
    with Pair recover_ok [OF ok fr, of now n s'] show ?thesis by simp
  qed
qed

subsection \<open>Creation\<close>

lemma payloads_append:
  "payloads (s\<lparr>st_jobs := st_jobs s @ [row_of p]\<rparr>) = payloads s @ [p]"
  by (simp add: payloads_def)

lemma envelope_of_ok:
  assumes "envelope_of K ident now stack (new_payload a now) = Inr p" and "seal_frame K"
  shows "ct_valid K p \<and> (\<exists>en. core p = core (new_payload a now en))"
  using assms core_seal [OF assms(2)]
  by (auto simp: envelope_of_def rehash_def split: option.splits if_splits) blast

lemma keys_unique_snoc:
  assumes "keys_unique ps"
    and new: "jp_idempotency_key p = None \<or> jp_idempotency_key p \<notin> jp_idempotency_key ` set ps"
  shows "keys_unique (ps @ [p])"
  unfolding keys_unique_def
proof (intro ballI impI)
  fix x y
  assume x: "x \<in> set (ps @ [p])" and y: "y \<in> set (ps @ [p])" and k: "jp_idempotency_key x \<noteq> None"
    "jp_idempotency_key x = jp_idempotency_key y"
  from x y consider "x \<in> set ps" "y \<in> set ps" | "x = p" "y = p" | "x = p" "y \<in> set ps" | "x \<in> set ps" "y = p"
    by auto
  then show "jp_job_id x = jp_job_id y"
  proof cases
    case 1
    with assms(1) k show ?thesis unfolding keys_unique_def by blast
  qed (use new k imageI in \<open>metis+\<close>)
qed

lemma insert_ok:
  assumes ok: "store_ok K s" and p: "ct_valid K p" "core p = core (new_payload a now en)"
    and a: "0 \<le> ca_max_retries a" "truthy (ca_job_id a)"
    and i: "insert_job_row (the (ca_job_id a)) p (ca_idempotency_key a) s = Some s1"
  shows "store_ok K s1 \<and> payloads s1 = payloads s @ [p] \<and> st_events s1 = st_events s"
proof -
  note f = core_fields [OF p(2)]
  have row: "\<lparr>jr_job_id = the (ca_job_id a), jr_payload = Payload p, jr_idempotency_key = ca_idempotency_key a,
      jr_state = Some QUEUED, jr_version = 1\<rparr> = row_of p"
    using f by (simp add: row_of_def new_payload_def)
  from i have s1: "s1 = s\<lparr>st_jobs := st_jobs s @ [row_of p]\<rparr>"
    and new: "the (ca_job_id a) \<notin> jr_job_id ` set (st_jobs s)"
      "ca_idempotency_key a = None \<or> ca_idempotency_key a \<notin> jr_idempotency_key ` set (st_jobs s)"
    unfolding insert_job_row_def row by (auto split: if_splits)
  have ps: "payloads s1 = payloads s @ [p]" by (simp add: s1 payloads_append)
  have rows: "st_jobs s = map row_of (payloads s)" using ok by (simp add: store_ok_def)
  have id: "jp_job_id p = the (ca_job_id a)" and key: "jp_idempotency_key p = ca_idempotency_key a"
    using f by (simp_all add: new_payload_def)
  have "jp_job_id p \<notin> jp_job_id ` set (payloads s)" using new(1) store_ids [OF ok] id by simp
  then have d: "distinct (map jp_job_id (payloads s1))" using ok by (simp add: ps store_ok_def)
  have "jr_idempotency_key ` set (st_jobs s) = jp_idempotency_key ` set (payloads s)"
    unfolding rows [THEN arg_cong [where f = set]] by (simp add: image_image)
  with new(2) key have "jp_idempotency_key p = None \<or> jp_idempotency_key p \<notin> jp_idempotency_key ` set (payloads s)"
    by simp
  moreover have "keys_unique (payloads s)" using ok by (simp add: store_ok_def)
  ultimately have k: "keys_unique (payloads s1)"
    unfolding ps by (intro keys_unique_snoc)
  have r: "job_ok p" using f a truthy_the by (simp add: job_ok_def new_payload_def)
  have "events_ok s" using ok by (simp add: store_ok_def)
  then have e: "events_ok s1" unfolding events_ok_def s1 by auto
  have "st_jobs s1 = map row_of (payloads s1)" unfolding ps using rows by (simp add: s1)
  moreover have "\<forall>x \<in> set (payloads s1). ct_valid K x \<and> job_ok x"
    using ok p(1) r by (auto simp: ps store_ok_def)
  ultimately have "store_ok K s1" unfolding store_ok_def using d k e by blast
  then show ?thesis using ps by (simp add: s1)
qed

lemma link_child_ok:
  assumes ok: "store_ok K s" and fr: "seal_frame K" and l: "link_child K pid jid now s = Inr (u, s')"
  shows "store_ok K s' \<and> (\<exists>es. st_events s' = st_events s @ es) \<and>
    (payloads s' = payloads s \<or> (\<exists>q q'. q \<in> set (payloads s) \<and> jp_job_id q = pid \<and> bump q q' \<and>
       jp_version q' = jp_version q + 1 \<and> payloads s' = upd q' (payloads s)))"
proof -
  let ?p0 = "\<lambda>q :: jobv1. q\<lparr>jp_child_job_ids := jp_child_job_ids q @ [jid],
              jp_updated_at := now, jp_version := jp_version q + 1\<rparr>"
  from l obtain q where q: "q \<in> set (payloads s)" "jp_job_id q = pid"
    and c: "s' = s \<or> (\<exists>p1 s1 p2. store_job K (?p0 q) (jp_version q) s = Inr (p1, s1) \<and>
      append_event K pid ''child_linked'' p1 None s1 = Inr (p2, s'))"
    by (auto simp: link_child_def ok_iff get_ok [OF ok] split: if_splits)
  from c show ?thesis
  proof
    assume "s' = s"
    with ok show ?thesis by simp
  next
    assume "\<exists>p1 s1 p2. store_job K (?p0 q) (jp_version q) s = Inr (p1, s1) \<and>
      append_event K pid ''child_linked'' p1 None s1 = Inr (p2, s')"
    then obtain p1 s1 p2 where st: "store_job K (?p0 q) (jp_version q) s = Inr (p1, s1)"
      and ap: "append_event K pid ''child_linked'' p1 None s1 = Inr (p2, s')" by blast
    have "core p1 = core (?p0 q)" using store_job_ok [OF ok fr q(1) _ _ st] by (simp (no_asm_use)) blast
    from core_fields(1) [OF this] q(2) have "jp_job_id p1 = pid" by simp
    with st ap have cm: "commit K (?p0 q) (jp_version q) ''child_linked'' None s = Inr (p2, s')"
      by (auto simp: commit_def ok_iff)
    have "committed K (?p0 q) ''child_linked'' s s'"
      by (rule conjunct2, rule commit_ok [OF ok fr q(1) _ _ _ cm])
        (use payload_job_ok [OF ok q(1)] in \<open>auto simp: job_ok_def split: option.splits\<close>)
    then obtain q' where q': "core q' = core (?p0 q)" "payloads s' = upd q' (payloads s)" "store_ok K s'"
      "\<exists>es. st_events s' = st_events s @ es"
      by (auto simp: committed_def)
    have "bump q (?p0 q)" by (simp add: bump_def)
    from bump_core [OF q'(1) this] core_fields(3) [OF q'(1)] q q' show ?thesis by auto
  qed
qed

lemma upd_grows:
  assumes "store_ok K s" and "q \<in> set (payloads s)" and "bump q q'" and "payloads s' = upd q' (payloads s)"
    and "\<exists>es. st_events s' = st_events s @ es"
  shows "grows s s'"
proof -
  have "list_all2 bump\<^sup>*\<^sup>* (payloads s) (payloads s')"
    unfolding assms(4) by (rule upd_bumps [OF _ assms(2,3)]) (use assms(1) in \<open>simp add: store_ok_def\<close>)
  moreover have "payloads s' = payloads s' @ []" by simp
  ultimately show ?thesis using assms(5) unfolding grows_def by blast
qed

lemma append_event_grows:
  assumes ok: "store_ok K s" and fr: "seal_frame K" and p: "p \<in> set (payloads s)"
    and ap: "append_event K (jp_job_id p) ty p event_id s = Inr (p2, s2)"
  shows "store_ok K s2 \<and> grows s s2"
proof -
  from append_event_ok [OF ok fr p ap] have c: "core p2 = core p" and
    cases: "s2 = s \<or> (\<exists>eid. eid \<notin> je_event_id ` set (st_events s) \<and> ct_valid K p2 \<and>
       s2 = put p2 (log_event eid ty p s))" by blast+
  from cases show ?thesis
  proof
    assume "s2 = s"
    with ok show ?thesis by simp
  next
    assume "\<exists>eid. eid \<notin> je_event_id ` set (st_events s) \<and> ct_valid K p2 \<and> s2 = put p2 (log_event eid ty p s)"
    then obtain eid where new: "eid \<notin> je_event_id ` set (st_events s)" and v: "ct_valid K p2"
      and s2: "s2 = put p2 (log_event eid ty p s)" by blast
    note f = core_fields [OF c]
    have "store_ok K s2" unfolding s2
      by (rule put_ok [OF log_event_ok [OF ok imageI [OF p] new], of p])
        (use p f v job_ok_core [OF c] payload_job_ok [OF ok p] in simp_all)
    moreover have "bump p p2" by (simp add: bump_def c)
    then have "grows s s2"
      by (rule upd_grows [OF ok p]) (simp_all add: s2 log_event_events)
    ultimately show ?thesis by blast
  qed
qed

lemma insert_and_link_keeps:
  assumes ok: "store_ok K s" and fr: "seal_frame K" and a: "0 \<le> ca_max_retries a" "truthy (ca_job_id a)"
    and c: "insert_and_link K ident now a s = Inr (x, s')"
  shows "store_ok K s' \<and> grows s s'"
proof -
  let ?jid = "the (ca_job_id a)"
  from c obtain p where en: "envelope_of K ident now (ca_stack_id a) (new_payload a now) = Inr p"
    by (auto simp: insert_and_link_def res_bind_Inr_iff Let_def)
  from envelope_of_ok [OF this fr] obtain env where v: "ct_valid K p" and cp: "core p = core (new_payload a now env)"
    by blast
  note f = core_fields [OF cp]
  have id: "jp_job_id p = ?jid" and ver: "jp_version p = 1" using f by (simp_all add: new_payload_def)
  show ?thesis
  proof (cases "insert_job_row ?jid p (ca_idempotency_key a) s")
    case None
    with c en have "s' = s"
      by (auto simp: insert_and_link_def res_bind_Inr_iff by_idempotency_def Let_def
          split: if_splits option.splits list.splits payload_text.splits)
    with ok show ?thesis by simp
  next
    case (Some s1)
    from insert_ok [OF ok v cp a Some] have ok1: "store_ok K s1" and ps1: "payloads s1 = payloads s @ [p]"
      and e1: "st_events s1 = st_events s" by blast+
    have g1: "grows s s1" unfolding grows_def ps1 e1 by (metis append_Nil2 list_all2_refl_bumps)
    have p1: "p \<in> set (payloads s1)" by (simp add: ps1)
    from c en Some obtain u s2 where
      l: "(if truthy (ca_parent_job_id a) then link_child K (the (ca_parent_job_id a)) ?jid now else tx_return ()) s1
        = Inr (u, s2)" and ap: "append_event K ?jid ''created'' p None s2 = Inr (x, s')"
      by (auto simp: insert_and_link_def Let_def ok_iff)
    show ?thesis
    proof (cases "payloads s2 = payloads s1 \<and> store_ok K s2 \<and> grows s1 s2")
      case True
      with append_event_grows [OF _ fr _ ap [folded id]] p1 grows_trans [OF g1] grows_trans
      show ?thesis by metis
    next
      case False
      then have t: "truthy (ca_parent_job_id a)" using l ok1 by (auto simp: ok_iff split: if_splits)
      with l have "link_child K (the (ca_parent_job_id a)) ?jid now s1 = Inr (u, s2)" by simp
      from link_child_ok [OF ok1 fr this] False obtain q q' where ok2: "store_ok K s2"
        and e2: "\<exists>es. st_events s2 = st_events s1 @ es" and q: "q \<in> set (payloads s1)" and b: "bump q q'"
        and vq: "jp_version q' = jp_version q + 1" and ps2: "payloads s2 = upd q' (payloads s1)"
        by (metis (no_types, lifting) append_Nil2 grows_def list_all2_refl_bumps)
      have g2: "grows s1 s2" by (rule upd_grows [OF ok1 q b ps2 e2])
      have q2: "q' \<in> set (payloads s2)" unfolding ps2 by (rule set_upd [OF q]) (use bump_id [OF b] in simp)
      show ?thesis
      proof (cases "jp_job_id q = ?jid")
        case False
        then have "p \<in> set (payloads s2)"
          unfolding ps2 upd_def using p1 id bump_id [OF b] by force
        from append_event_grows [OF ok2 fr this ap [folded id]] grows_trans [OF grows_trans [OF g1 g2]]
        show ?thesis by blast
      next
        case True
        have "q = p" using True id q p1 ok1 by (auto simp: store_ok_def distinct_map inj_on_def)
        with vq ver have "jp_version q' \<noteq> jp_version p" by simp
        from append_event_stale [OF ok2 q2 _ fr this ap [folded id]] bump_id [OF b] \<open>q = p\<close>
        have "store_ok K s'" "payloads s' = payloads s2" "\<exists>es. st_events s' = st_events s2 @ es" by simp_all
        moreover from this(2,3) have "grows s2 s'"
          unfolding grows_def by (metis append_Nil2 list_all2_refl_bumps)
        ultimately show ?thesis using grows_trans [OF grows_trans [OF g1 g2]] by blast
      qed
    qed
  qed
qed

lemma create_keeps:
  assumes ok: "store_ok K s" and fr: "seal_frame K"
  shows "store_ok K (snd (v1_create K ident now a s)) \<and> grows s (snd (v1_create K ident now a s))"
proof (cases "\<not> truthy (ca_job_id a) \<or> ca_kind a \<notin> set job_kinds \<or> ca_max_retries a < 0")
  case False
  then have a: "0 \<le> ca_max_retries a" "truthy (ca_job_id a)" by simp_all
  let ?m = "tx_bind (if truthy (ca_idempotency_key a) then by_idempotency (the (ca_idempotency_key a)) else tx_return None)
             (\<lambda>found. case found of Some q \<Rightarrow> tx_return q | None \<Rightarrow> insert_and_link K ident now a)"
  have "store_ok K s' \<and> grows s s'" if m: "?m s = Inr (x, s')" for x s'
  proof -
    from m have "insert_and_link K ident now a s = Inr (x, s') \<or> s' = s"
      by (auto simp: ok_iff by_idempotency_def split: if_splits list.splits payload_text.splits)
    then show ?thesis using insert_and_link_keeps [OF ok fr a] ok by auto
  qed
  with False show ?thesis
    unfolding v1_create_def using transaction_keeps [OF ok, of ?m] by auto
qed (use ok in \<open>auto simp: v1_create_def\<close>)

lemma store_step_keeps:
  assumes "store_ok K s" and "seal_frame K"
  shows "store_ok K (store_step K op s) \<and> grows s (store_step K op s)"
  using create_keeps [OF assms] mark_running_keeps [OF assms] renew_lease_keeps [OF assms]
    mark_succeeded_keeps [OF assms] mark_failed_keeps [OF assms] cancel_keeps [OF assms]
    retry_keeps [OF assms] recover_keeps [OF assms]
  by (cases op) simp_all

end
