(* ===== verification/JobStoreProps.thy ===== *)
theory JobStoreProps
  imports JobStoreOps
begin

text \<open>
  What the job store promises its clients, for every run of its operations: consistent tables, job
  histories that follow the state machine, exclusive leases, exact recovery, idempotent creation,
  complete event replay and complete, terminating pagination. The contract package is a parameter;
  \<open>sample_contracts\<close> shows that the law assumed of it can hold.
\<close>

subsection \<open>Runs\<close>

interpretation js: invariant_machine "store_step K" "\<lambda>s. seal_frame K \<and> store_ok K s" for K
  by unfold_locales (use store_step_keeps in blast)

lemma store_init_ok: "store_ok K store_init"
  by (simp add: store_ok_def store_init_def payloads_def keys_unique_def events_ok_def)

lemma run_grows:
  assumes "seal_frame K" and "store_ok K s"
  shows "grows s (fold (store_step K) ops s)"
proof (rule js.run_stable [where P = "grows s" and K = K])
  fix s' op
  assume "seal_frame K \<and> store_ok K s'" and g: "grows s s'"
  then have "grows s' (store_step K op s')" using store_step_keeps by blast
  with g show "grows s (store_step K op s')" by (rule grows_trans)
qed (use assms in simp_all)

definition sample_contracts :: contracts where
  "sample_contracts = \<lparr>ct_seal = \<lambda>p. p\<lparr>jp_content_hash := ''sealed''\<rparr>, ct_valid = \<lambda>p. jp_version p \<ge> 1,
     ct_serializer_id = ''canonical-json''\<rparr>"

definition sample_args :: create_args where
  "sample_args = \<lparr>ca_job_id = Some ''j1'', ca_kind = ''backtest'', ca_actor = None,
     ca_idempotency_key = Some ''k'', ca_parent_job_id = None, ca_input_refs = [], ca_stack_id = ''st'',
     ca_max_retries = 3\<rparr>"

definition sample_ops :: "store_op list" where
  "sample_ops = [Create (Some (''1.0.0'', ''abc'')) 100 sample_args,
     Create (Some (''1.0.0'', ''abc'')) 110 (sample_args\<lparr>ca_job_id := Some ''j2'', ca_idempotency_key := None\<rparr>),
     MarkRunning ''j1'' ''w1'' 200 120 (Some 1)]"

definition sample_store :: job_store where
  "sample_store = fold (store_step sample_contracts) sample_ops store_init"

lemma sample_frame: "seal_frame sample_contracts"
  by (simp add: seal_frame_def sample_contracts_def)

lemma sample_store_ok: "store_ok sample_contracts sample_store"
  unfolding sample_store_def
  using js.run_inv [of sample_contracts store_init sample_ops] sample_frame store_init_ok by blast

text \<open>C12: whatever sequence of create, claim, renew, succeed, fail, cancel, retry and recover calls is
  made on a fresh store, with whatever arguments, the tables are consistent: every row holds a
  decodable, schema-valid payload whose id, key, state and version agree with the indexed columns, job
  ids and idempotency keys are unique, retry counts stay within their limit, and the events have
  strictly increasing sequence numbers, unique ids and existing jobs.\<close>

theorem job_store_consistent:
  assumes "seal_frame K"
  shows "store_ok K (fold (store_step K) ops store_init)"
  using js.run_inv [of K store_init ops] assms store_init_ok by blast

theorem job_store_consistent_witness:
  "store_ok sample_contracts (fold (store_step sample_contracts) sample_ops store_init)"
  by (rule job_store_consistent [OF sample_frame])

subsection \<open>The history of a job\<close>

lemma v1_get_ok:
  assumes "store_ok K s"
  shows "v1_get K jid s = Inr p \<longleftrightarrow> p \<in> set (payloads s) \<and> jp_job_id p = jid"
proof -
  have "p \<in> set (payloads s) \<and> jp_job_id p = jid \<Longrightarrow> jid \<noteq> []"
    using payload_job_ok [OF assms, of p] by (auto simp: job_ok_def)
  then show ?thesis by (auto simp: v1_get_def res_bind_Inr_iff get_ok [OF assms])
qed

definition may_become :: "job_state \<Rightarrow> job_state \<Rightarrow> bool" where
  "may_become = (\<lambda>a b. b \<in> set (allowed_transitions a))\<^sup>*\<^sup>*"

lemma bump_fields:
  assumes "bump q r"
  shows "jp_job_id r = jp_job_id q" "jp_idempotency_key r = jp_idempotency_key q" "jp_version q \<le> jp_version r"
    "jp_state r = jp_state q \<or> jp_state r \<in> set (allowed_transitions (jp_state q))"
proof (atomize (full), cases "core r = core q")
  case True
  show "(jp_job_id r = jp_job_id q \<and> jp_idempotency_key r = jp_idempotency_key q) \<and> jp_version q \<le> jp_version r \<and>
    (jp_state r = jp_state q \<or> jp_state r \<in> set (allowed_transitions (jp_state q)))"
    unfolding core_fields(1-4) [OF True] by simp
next
  case False
  with assms show "(jp_job_id r = jp_job_id q \<and> jp_idempotency_key r = jp_idempotency_key q) \<and>
    jp_version q \<le> jp_version r \<and>
    (jp_state r = jp_state q \<or> jp_state r \<in> set (allowed_transitions (jp_state q)))"
    unfolding bump_def by linarith
qed

lemma bumps_history:
  assumes "bump\<^sup>*\<^sup>* p p'"
  shows "jp_job_id p' = jp_job_id p \<and> jp_idempotency_key p' = jp_idempotency_key p \<and>
    jp_version p \<le> jp_version p' \<and> may_become (jp_state p) (jp_state p')"
  using assms
proof induction
  case base
  then show ?case by (simp add: may_become_def)
next
  case (step q r)
  note b = bump_fields [OF step.hyps(2)]
  have "may_become (jp_state q) (jp_state r)" using b(4) by (auto simp: may_become_def)
  then have "may_become (jp_state p) (jp_state r)"
    using step.IH unfolding may_become_def by (meson rtranclp_trans)
  with step.IH b(1-3) show ?case by (metis order_trans)
qed

lemma may_become_final:
  assumes "may_become a b" and "allowed_transitions a = []" shows "b = a"
  using assms unfolding may_become_def by (cases rule: converse_rtranclpE) simp_all

lemma run_job:
  assumes fr: "seal_frame K" and ok: "store_ok K s" and g: "v1_get K jid s = Inr p"
  obtains p' where "v1_get K jid (fold (store_step K) ops s) = Inr p'" and "bump\<^sup>*\<^sup>* p p'"
proof -
  let ?s = "fold (store_step K) ops s"
  have ok': "store_ok K ?s" using js.run_inv [of K s ops] fr ok by blast
  from run_grows [OF fr ok] obtain old new where o: "payloads ?s = old @ new"
    "list_all2 bump\<^sup>*\<^sup>* (payloads s) old" unfolding grows_def by blast
  from g have "p \<in> set (payloads s)" "jp_job_id p = jid" by (simp_all add: v1_get_ok [OF ok])
  then obtain i where i: "i < length (payloads s)" "payloads s ! i = p" by (auto simp: in_set_conv_nth)
  define p' where "p' = old ! i"
  have "p' \<in> set old" using list_all2_lengthD [OF o(2)] i(1) by (simp add: p'_def)
  have b: "bump\<^sup>*\<^sup>* p p'" using list_all2_nthD [OF o(2) i(1)] i(2) by (simp add: p'_def)
  have "jp_job_id p' = jid" using bumps_history [OF b] \<open>jp_job_id p = jid\<close> by blast
  moreover have "p' \<in> set (payloads ?s)" using \<open>p' \<in> set old\<close> unfolding o(1) by simp
  ultimately have "v1_get K jid ?s = Inr p'" unfolding v1_get_ok [OF ok'] by blast
  from this b show ?thesis by (rule that)
qed

text \<open>C13: a job never disappears and its history follows the state machine: after any further
  operations it is still found under its id, with the same idempotency key, a version that has not
  fallen and a state reachable through the allowed transitions; a job that has succeeded or was
  canceled stays so.\<close>

theorem job_history:
  assumes "seal_frame K" and "store_ok K s" and "v1_get K jid s = Inr p"
  shows "\<exists>p'. v1_get K jid (fold (store_step K) ops s) = Inr p' \<and> jp_job_id p' = jid \<and>
    jp_idempotency_key p' = jp_idempotency_key p \<and> jp_version p \<le> jp_version p' \<and>
    may_become (jp_state p) (jp_state p') \<and>
    (jp_state p \<in> {SUCCEEDED, CANCELED} \<longrightarrow> jp_state p' = jp_state p)"
proof -
  obtain p' where p': "v1_get K jid (fold (store_step K) ops s) = Inr p'" and b: "bump\<^sup>*\<^sup>* p p'"
    by (rule run_job [OF assms])
  note h = bumps_history [OF b]
  have "jp_job_id p' = jid \<and> jp_idempotency_key p' = jp_idempotency_key p" using h assms(3) v1_get_ok [OF assms(2)] by metis
  moreover have "jp_state p \<in> {SUCCEEDED, CANCELED} \<longrightarrow> jp_state p' = jp_state p"
    using h may_become_final [of "jp_state p" "jp_state p'"] by fastforce
  ultimately show ?thesis using p' h by blast
qed

definition job_check :: "(jobv1 \<Rightarrow> bool) \<Rightarrow> job_error + jobv1 \<Rightarrow> bool" where
  "job_check P r = (case r of Inl e \<Rightarrow> False | Inr p \<Rightarrow> P p)"

lemma job_checkE:
  assumes "job_check P r" obtains p where "r = Inr p" and "P p"
  using assms by (cases r) (simp_all add: job_check_def)

lemma sample_job:
  "job_check (\<lambda>p. jp_state p = RUNNING \<and> jp_version p = 2 \<and> jp_lease_owner p = Some ''w1'' \<and>
     jp_idempotency_key p = Some ''k'') (v1_get sample_contracts ''j1'' sample_store)"
  by code_simp

theorem job_history_witness:
  "\<exists>p p'. v1_get sample_contracts ''j1'' sample_store = Inr p \<and>
    v1_get sample_contracts ''j1'' (fold (store_step sample_contracts)
      [MarkSucceeded ''j1'' ''w1'' None 150 [], CancelJob ''j1'' None 160] sample_store) = Inr p' \<and>
    jp_version p \<le> jp_version p'"
proof -
  from sample_job obtain p where p: "v1_get sample_contracts ''j1'' sample_store = Inr p" by (rule job_checkE)
  from job_history [OF sample_frame sample_store_ok p] p show ?thesis by blast
qed

subsection \<open>Leases\<close>

lemma committed_get:
  assumes ok: "store_ok K s" and q: "q \<in> set (payloads s)" "jp_job_id p0 = jp_job_id q"
    and c: "committed K p0 ty s s'"
  obtains p' where "v1_get K (jp_job_id q) s' = Inr p'" and "core p' = core p0"
proof -
  from c obtain p' where p': "core p' = core p0" "payloads s' = upd p' (payloads s)" and ok': "store_ok K s'"
    by (auto simp: committed_def)
  have id: "jp_job_id p' = jp_job_id q" using core_fields(1) [OF p'(1)] q(2) by (rule trans)
  have "p' \<in> set (payloads s')" unfolding p'(2) by (rule set_upd [OF q(1)]) (rule id [symmetric])
  then have "v1_get K (jp_job_id q) s' = Inr p'" unfolding v1_get_ok [OF ok'] using id by (rule conjI)
  from this p'(1) show ?thesis by (rule that)
qed

lemma transition_get:
  assumes ok: "store_ok K s" and fr: "seal_frame K" and q: "q \<in> set (payloads s)"
    and keep: "jp_job_id (updates q) = jp_job_id q" "jp_idempotency_key (updates q) = jp_idempotency_key q"
    and r: "job_ok (transition_payload target now updates q)"
    and t: "transition_in_transaction K q target ty now updates event_id s = Inr (p2, s2)"
  shows "\<exists>p'. v1_get K (jp_job_id q) s2 = Inr p' \<and> core p' = core (transition_payload target now updates q)"
proof -
  let ?p0 = "transition_payload target now updates q"
  have id: "jp_job_id ?p0 = jp_job_id q" and key: "jp_idempotency_key ?p0 = jp_idempotency_key q"
    using keep by (simp_all add: transition_payload_def)
  from t have c: "commit K ?p0 (jp_version q) ty event_id s = Inr (p2, s2)" by (simp add: transition_commit)
  note d = commit_ok [OF ok fr q id key r c]
  show ?thesis by (rule committed_get [OF ok q id conjunct2 [OF d]]) blast
qed

text \<open>C14: only the holder of a live lease can complete a job: when \<open>mark_succeeded\<close> succeeds, the job was
  running under a lease of that owner that had not expired, at the version the caller expected; after
  it the job is SUCCEEDED with the next version and no lease.\<close>

theorem lease_safety:
  assumes fr: "seal_frame K" and ok: "store_ok K s"
    and m: "v1_mark_succeeded K jid owner ex now refs s = (Inr r, s')"
  shows "\<exists>p q d. v1_get K jid s = Inr p \<and> jp_state p = RUNNING \<and> jp_lease_owner p = Some owner \<and> owner \<noteq> [] \<and>
    jp_lease_deadline p = Some d \<and> now \<le> d \<and> (ex = None \<or> ex = Some (jp_version p)) \<and>
    v1_get K jid s' = Inr q \<and> jp_state q = SUCCEEDED \<and> jp_version q = jp_version p + 1 \<and> jp_lease_owner q = None"
proof -
  let ?u = "\<lambda>q :: jobv1. q\<lparr>jp_progress := 100, jp_finished_at := Some now, jp_result_refs := refs,
    jp_lease_owner := None, jp_lease_deadline := None\<rparr>"
  from m obtain p d where p: "p \<in> set (payloads s)" "jp_job_id p = jid" "jp_state p = RUNNING"
    "jp_lease_owner p = Some owner" "owner \<noteq> []" "jp_lease_deadline p = Some d" "now \<le> d"
    "ex = None \<or> ex = Some (jp_version p)"
    and t: "transition_in_transaction K p SUCCEEDED ''succeeded'' now ?u None s = Inr (r, s')"
    by (auto simp: v1_mark_succeeded_def transaction_cases ok_iff get_ok [OF ok])
  have "job_ok (transition_payload SUCCEEDED now ?u p)"
    by (rule job_ok_transition) (simp_all add: payload_job_ok [OF ok p(1)])
  with transition_get [OF ok fr p(1) _ _ _ t] p(2)
  have "\<exists>q. v1_get K jid s' = Inr q \<and> core q = core (transition_payload SUCCEEDED now ?u p)" by simp
  then obtain q where q: "v1_get K jid s' = Inr q" "core q = core (transition_payload SUCCEEDED now ?u p)" by blast
  note f = core_fields [OF q(2)]
  have "v1_get K jid s = Inr p" unfolding v1_get_ok [OF ok] using p by blast
  moreover have "jp_state q = SUCCEEDED" "jp_version q = jp_version p + 1" "jp_lease_owner q = None"
    unfolding f by (simp_all add: transition_payload_def)
  ultimately show ?thesis using p q by blast
qed

theorem lease_safety_witness:
  "\<exists>r s' p. v1_mark_succeeded sample_contracts ''j1'' ''w1'' (Some 2) 150 [] sample_store = (Inr r, s') \<and>
     v1_get sample_contracts ''j1'' sample_store = Inr p \<and> jp_lease_owner p = Some ''w1''"
proof -
  have "job_check (\<lambda>p. True) (fst (v1_mark_succeeded sample_contracts ''j1'' ''w1'' (Some 2) 150 [] sample_store))"
    by code_simp
  then obtain r s' where m: "v1_mark_succeeded sample_contracts ''j1'' ''w1'' (Some 2) 150 [] sample_store = (Inr r, s')"
    by (metis job_checkE prod.collapse)
  with lease_safety [OF sample_frame sample_store_ok m] show ?thesis by blast
qed

text \<open>C15: a claim is exclusive: right after a worker has marked a job running, nobody can mark it running
  again, and nobody else can renew its lease, complete it or fail it; each attempt raises and
  changes nothing.\<close>

theorem claim_exclusive:
  assumes fr: "seal_frame K" and ok: "store_ok K s"
    and m: "v1_mark_running K jid owner deadline now ex s = (Inr r, s')"
  shows "(\<exists>e. v1_mark_running K jid owner2 deadline2 now2 ex2 s' = (Inl e, s')) \<and>
    (owner2 \<noteq> owner \<longrightarrow> (\<exists>e. v1_renew_lease K jid owner2 deadline2 now2 ex2 s' = (Inl e, s')) \<and>
      (\<exists>e. v1_mark_succeeded K jid owner2 ex2 now2 refs s' = (Inl e, s')) \<and>
      (\<exists>e. v1_mark_failed K jid err (Some owner2) ex2 now2 s' = (Inl e, s')))"
proof -
  let ?u = "\<lambda>p :: jobv1. p\<lparr>jp_started_at := Some now, jp_lease_owner := Some owner, jp_lease_deadline := Some deadline\<rparr>"
  from m obtain p where p: "p \<in> set (payloads s)" "jp_job_id p = jid"
    and t: "transition_in_transaction K p RUNNING ''running'' now ?u None s = Inr (r, s')"
    by (auto simp: v1_mark_running_def transition_def transaction_cases ok_iff get_ok [OF ok] split: if_splits)
  have "job_ok (transition_payload RUNNING now ?u p)"
    by (rule job_ok_transition) (simp_all add: payload_job_ok [OF ok p(1)])
  with transition_get [OF ok fr p(1) _ _ _ t] p(2)
  have "\<exists>q. v1_get K jid s' = Inr q \<and> core q = core (transition_payload RUNNING now ?u p)" by simp
  then obtain q where q: "v1_get K jid s' = Inr q" "core q = core (transition_payload RUNNING now ?u p)" by blast
  note f = core_fields [OF q(2)]
  have run: "jp_state q = RUNNING" "jp_lease_owner q = Some owner" unfolding f by (simp_all add: transition_payload_def)
  have ok': "store_ok K s'" using mark_running_keeps [OF ok fr, of jid owner deadline now ex] m by simp
  have g: "get_in_transaction K jid s' = Inr (q, s')"
    unfolding get_ok [OF ok'] using q(1) v1_get_ok [OF ok'] by blast
  have fail: "\<exists>e. transaction (tx_bind (get_in_transaction K jid) f) s' = (Inl e, s')"
    if "\<And>x s2. f q s' \<noteq> Inr (x, s2)" for f :: "jobv1 \<Rightarrow> jobv1 tx"
    using that by (cases "f q s'") (auto simp: transaction_def tx_bind_def g)
  have 1: "\<exists>e. v1_mark_running K jid owner2 deadline2 now2 ex2 s' = (Inl e, s')"
    unfolding v1_mark_running_def transition_def transition_in_transaction_def
    using fail run(1) by (auto simp: ok_iff intro!: fail)
  have 2: "\<exists>e. v1_renew_lease K jid owner2 deadline2 now2 ex2 s' = (Inl e, s')" if "owner2 \<noteq> owner"
    unfolding v1_renew_lease_def using that run(2) by (auto simp: ok_iff intro!: fail)
  have 3: "\<exists>e. v1_mark_succeeded K jid owner2 ex2 now2 refs s' = (Inl e, s')" if "owner2 \<noteq> owner"
    unfolding v1_mark_succeeded_def using that run(2) by (auto simp: ok_iff intro!: fail)
  have 4: "\<exists>e. v1_mark_failed K jid err (Some owner2) ex2 now2 s' = (Inl e, s')" if "owner2 \<noteq> owner"
    unfolding v1_mark_failed_def using that run by (auto simp: ok_iff intro!: fail)
  from 1 2 3 4 show ?thesis by blast
qed

theorem claim_exclusive_witness:
  "\<exists>r s' e. v1_mark_running sample_contracts ''j2'' ''w1'' 200 130 (Some 1) sample_store = (Inr r, s') \<and>
     v1_mark_running sample_contracts ''j2'' ''w2'' 300 140 None s' = (Inl e, s')"
proof -
  have "job_check (\<lambda>p. True) (fst (v1_mark_running sample_contracts ''j2'' ''w1'' 200 130 (Some 1) sample_store))"
    by code_simp
  then obtain r s' where m: "v1_mark_running sample_contracts ''j2'' ''w1'' 200 130 (Some 1) sample_store = (Inr r, s')"
    by (metis job_checkE prod.collapse)
  with claim_exclusive [OF sample_frame sample_store_ok m] show ?thesis by blast
qed

subsection \<open>Recovery\<close>

text \<open>C16: recovery is exact: a successful \<open>recover_lost_leases\<close> counts and marks LOST, with the next
  version and without a lease, precisely the RUNNING jobs whose lease deadline has passed, and leaves
  every other job as it was.\<close>

theorem recovery_exact:
  assumes fr: "seal_frame K" and ok: "store_ok K s" and r: "recover_lost_leases K now s = (Inr n, s')"
  shows "n = length (filter (\<lambda>p. jp_state p = RUNNING \<and> lease_expired now p) (payloads s)) \<and>
    (\<forall>jid p. v1_get K jid s = Inr p \<longrightarrow> (\<exists>q. v1_get K jid s' = Inr q \<and>
      (if jp_state p = RUNNING \<and> lease_expired now p
       then jp_state q = LOST \<and> jp_version q = jp_version p + 1 \<and> jp_lease_owner q = None else q = p)))"
proof (intro conjI allI impI)
  note e = recover_ok [OF ok fr r]
  have "n = length (filter (lease_expired now) (running_jobs s))" using e by blast
  also have "... = length (filter (\<lambda>p. jp_state p = RUNNING \<and> lease_expired now p) (payloads s))"
    by (simp add: running_jobs_def filter_sort filter_filter conj_commute)
  finally show "n = length (filter (\<lambda>p. jp_state p = RUNNING \<and> lease_expired now p) (payloads s))" .
  fix jid p
  assume "v1_get K jid s = Inr p"
  then have p: "p \<in> set (payloads s)" "jp_job_id p = jid" using v1_get_ok [OF ok] by blast+
  from p(1) obtain i where i: "i < length (payloads s)" "payloads s ! i = p" by (auto simp: in_set_conv_nth)
  define q where "q = payloads s' ! i"
  have l: "list_all2 (\<lambda>x y. if x \<in> set (running_jobs s) \<and> lease_expired now x
      then core y = core (lost_payload now x) else y = x) (payloads s) (payloads s')"
    using e unfolding recovered_def by blast
  have q: "q \<in> set (payloads s')" using list_all2_lengthD [OF l] i(1) by (simp add: q_def)
  have c: "if jp_state p = RUNNING \<and> lease_expired now p then core q = core (lost_payload now p) else q = p"
    using list_all2_nthD [OF l i(1)] i(2) p(1) by (simp add: q_def running_jobs_def)
  have f: "jp_job_id q = jid \<and> (if jp_state p = RUNNING \<and> lease_expired now p
      then jp_state q = LOST \<and> jp_version q = jp_version p + 1 \<and> jp_lease_owner q = None else q = p)"
  proof (cases "jp_state p = RUNNING \<and> lease_expired now p")
    case True
    then have "core q = core (lost_payload now p)" using c by simp
    note f = core_fields [OF this]
    show ?thesis unfolding f if_P [OF True] using p(2) by (simp add: lost_payload_def transition_payload_def)
  next
    case False
    show ?thesis using c p(2) unfolding if_not_P [OF False] by simp
  qed
  have ok': "store_ok K s'" using e by blast
  show "\<exists>q. v1_get K jid s' = Inr q \<and> (if jp_state p = RUNNING \<and> lease_expired now p
      then jp_state q = LOST \<and> jp_version q = jp_version p + 1 \<and> jp_lease_owner q = None else q = p)"
    using f q v1_get_ok [OF ok'] by blast
qed

theorem recovery_exact_witness:
  "\<exists>s'. recover_lost_leases sample_contracts 250 sample_store = (Inr 1, s') \<and>
    (\<exists>p q. v1_get sample_contracts ''j1'' sample_store = Inr p \<and> v1_get sample_contracts ''j1'' s' = Inr q \<and>
      jp_state q = LOST)"
proof -
  have "fst (recover_lost_leases sample_contracts 250 sample_store) = Inr 1" by code_simp
  then obtain s' where r: "recover_lost_leases sample_contracts 250 sample_store = (Inr 1, s')"
    by (metis prod.collapse)
  have "job_check (\<lambda>p. jp_state p = RUNNING \<and> lease_expired 250 p) (v1_get sample_contracts ''j1'' sample_store)"
    by code_simp
  then obtain p where p: "v1_get sample_contracts ''j1'' sample_store = Inr p"
    "jp_state p = RUNNING \<and> lease_expired 250 p" by (rule job_checkE)
  from conjunct2 [OF recovery_exact [OF sample_frame sample_store_ok r], rule_format, OF p(1)]
  have "\<exists>q. v1_get sample_contracts ''j1'' s' = Inr q \<and> jp_state q = LOST" unfolding if_P [OF p(2)] by blast
  with p r show ?thesis by blast
qed

subsection \<open>Idempotent creation\<close>

text \<open>C17: creation is idempotent for good: once a job exists under an idempotency key, a later \<open>create\<close>
  with that key, whatever operations came between and whatever its other arguments (as long as they
  pass the argument checks), inserts nothing, changes nothing and returns that job.\<close>

theorem create_idempotent:
  assumes fr: "seal_frame K" and ok: "store_ok K s" and g: "v1_get K jid s = Inr p"
    and key: "jp_idempotency_key p = ca_idempotency_key a" "truthy (ca_idempotency_key a)"
    and a: "truthy (ca_job_id a)" "ca_kind a \<in> set job_kinds" "0 \<le> ca_max_retries a"
    and s': "s' = fold (store_step K) ops s"
  shows "\<exists>q. v1_create K ident now a s' = (Inr q, s') \<and> v1_get K jid s' = Inr q"
proof -
  have ok': "store_ok K s'" using js.run_inv [of K s ops] fr ok s' by blast
  obtain q where q: "v1_get K jid s' = Inr q" and b: "bump\<^sup>*\<^sup>* p q" unfolding s' by (rule run_job [OF fr ok g])
  have qk: "jp_idempotency_key q = ca_idempotency_key a" using bumps_history [OF b] key(1) by metis
  have qin: "q \<in> set (payloads s')" using q v1_get_ok [OF ok'] by blast
  let ?P = "\<lambda>x. jp_idempotency_key x = ca_idempotency_key a"
  have rows: "st_jobs s' = map row_of (payloads s')" and ku: "keys_unique (payloads s')"
    and di: "distinct (map jp_job_id (payloads s'))" using ok' by (simp_all add: store_ok_def)
  have un: "x = q" if "x \<in> set (payloads s')" "?P x" for x
  proof -
    have "jp_idempotency_key x \<noteq> None" using that(2) key(2) by (cases "ca_idempotency_key a") simp_all
    then have "jp_job_id x = jp_job_id q" using ku that qin qk unfolding keys_unique_def by metis
    then show ?thesis using di that(1) qin by (metis distinct_map inj_onD)
  qed
  obtain x xs where fx: "filter ?P (payloads s') = x # xs"
    using qin qk by (cases "filter ?P (payloads s')") (auto simp: filter_empty_conv)
  then have "x \<in> set (filter ?P (payloads s'))" by simp
  then have "x = q" using un by simp
  have "filter (\<lambda>r. jr_idempotency_key r = Some (the (ca_idempotency_key a))) (st_jobs s') = row_of q # map row_of xs"
  proof -
    have "Some (the (ca_idempotency_key a)) = ca_idempotency_key a" using key(2) by (cases "ca_idempotency_key a") simp_all
    then show ?thesis unfolding rows filter_map using fx \<open>x = q\<close> by (simp add: comp_def)
  qed
  then have "by_idempotency (the (ca_idempotency_key a)) s' = Inr (Some q, s')" by (simp add: by_idempotency_def)
  then have "v1_create K ident now a s' = (Inr q, s')"
    using a key(2) by (simp add: v1_create_def transaction_def tx_bind_def tx_return_def)
  with q show ?thesis by blast
qed

theorem create_idempotent_witness:
  "\<exists>q. v1_create sample_contracts None 900 (sample_args\<lparr>ca_job_id := Some ''other''\<rparr>)
      (fold (store_step sample_contracts) [CancelJob ''j1'' None 160] sample_store) =
    (Inr q, fold (store_step sample_contracts) [CancelJob ''j1'' None 160] sample_store)"
proof -
  from sample_job obtain p where p: "v1_get sample_contracts ''j1'' sample_store = Inr p"
    "jp_idempotency_key p = Some ''k''" by (rule job_checkE) blast
  show ?thesis
    using create_idempotent [OF sample_frame sample_store_ok p(1),
        where a = "sample_args\<lparr>ca_job_id := Some ''other''\<rparr>" and ops = "[CancelJob ''j1'' None 160]"] p(2)
    by (simp only: sample_args_def) (simp add: job_kinds_def, blast)
qed

subsection \<open>Event replay\<close>

lemma v1_events_all:
  assumes "store_ok K s" shows "sort_key je_sequence (st_events s) = st_events s"
  using assms by (intro sort_key_id_if_sorted strict_sorted_imp_sorted) (simp add: store_ok_def events_ok_def)

lemma v1_events_after:
  assumes ok: "store_ok K s" and e: "st_events s = pre @ e # post" "je_event_id e \<noteq> []"
  shows "v1_events (je_event_id e) s = post"
proof -
  from ok have so: "sorted_wrt (<) (map je_sequence (pre @ e # post))" and di: "distinct (map je_event_id (pre @ e # post))"
    by (simp_all add: store_ok_def events_ok_def e(1))
  have "filter (\<lambda>x. je_event_id x = je_event_id e) pre = []" using di by (auto simp: filter_empty_conv image_iff)
  then have "filter (\<lambda>x. je_event_id x = je_event_id e) (st_events s) =
      e # filter (\<lambda>x. je_event_id x = je_event_id e) post" by (simp add: e(1))
  moreover have "filter (\<lambda>x. je_sequence x > je_sequence e) pre = []"
    using so by (force simp: filter_empty_conv sorted_wrt_append)
  moreover have "filter (\<lambda>x. je_sequence x > je_sequence e) post = post"
    using so by (auto simp: filter_id_conv sorted_wrt_append)
  ultimately show ?thesis unfolding v1_events_def v1_events_all [OF ok] using e by simp
qed

text \<open>C18: replaying the event log by cursor loses and repeats nothing: a reader that has read the events
  of a store up to the last one and later, after any operations, asks for those after that event gets
  exactly the events appended since, and is never told to resync.\<close>

theorem event_replay:
  assumes fr: "seal_frame K" and ok: "store_ok K s" and e: "v1_events [] s = es @ [e]" "je_event_id e \<noteq> []"
    and s': "s' = fold (store_step K) ops s"
  shows "v1_events [] s' = v1_events [] s @ v1_events (je_event_id e) s' \<and> \<not> needs_resync (je_event_id e) s'"
proof -
  have ok': "store_ok K s'" using js.run_inv [of K s ops] fr ok s' by blast
  have al: "v1_events [] x = st_events x" if "store_ok K x" for x
    using v1_events_all [OF that] by (simp add: v1_events_def)
  from run_grows [OF fr ok, of ops] obtain new where "st_events s' = st_events s @ new"
    unfolding grows_def s' by blast
  with e(1) have "st_events s' = es @ e # new" by (simp add: al [OF ok])
  from v1_events_after [OF ok' this e(2)] this show ?thesis using e by (simp add: al [OF ok'] needs_resync_def)
qed

theorem event_replay_witness:
  "\<exists>es e. v1_events [] sample_store = es @ [e] \<and>
    v1_events [] (fold (store_step sample_contracts) [CancelJob ''j1'' None 160] sample_store) =
    v1_events [] sample_store @
      v1_events (je_event_id e) (fold (store_step sample_contracts) [CancelJob ''j1'' None 160] sample_store)"
proof -
  have ne: "v1_events [] sample_store \<noteq> [] \<and> je_event_id (last (v1_events [] sample_store)) \<noteq> []" by code_simp
  then have e: "v1_events [] sample_store = butlast (v1_events [] sample_store) @ [last (v1_events [] sample_store)]"
    by simp
  from event_replay [OF sample_frame sample_store_ok e _ refl, of "[CancelJob ''j1'' None 160]"] ne e
  show ?thesis by blast
qed

subsection \<open>Listing\<close>

text \<open>A client that follows \<open>next_cursor\<close> until there is none, for at most \<open>n\<close> pages.\<close>

fun all_pages ::
  "nat \<Rightarrow> string option \<Rightarrow> job_state option \<Rightarrow> string option \<Rightarrow> int \<Rightarrow> job_store \<Rightarrow> jobv1 list option"
where
  "all_pages 0 kind state cursor limit s = None"
| "all_pages (Suc n) kind state cursor limit s =
     (case v1_list_jobs kind state cursor limit s of
        Inl e \<Rightarrow> None
      | Inr (page, None) \<Rightarrow> Some page
      | Inr (page, Some c) \<Rightarrow> map_option (\<lambda>rest. page @ rest) (all_pages n kind state (Some c) limit s))"

lemma load_payloads_rows: "load_payloads (map row_of ps) = Inr ps"
  by (induction ps) (simp_all add: res_bind_def)

lemma after_cursor_split:
  assumes "distinct (map jp_job_id (xs @ x # ys))" and "jp_job_id x \<noteq> []"
  shows "after_cursor (Some (jp_job_id x)) (xs @ x # ys) = ys"
proof -
  have "dropWhile (\<lambda>p. jp_job_id p \<noteq> jp_job_id x) (xs @ x # ys) = x # ys"
    using assms(1) by (subst dropWhile_append2) (auto simp: image_iff)
  then show ?thesis using assms(2) by (simp add: after_cursor_def)
qed

lemma select_jobs_set:
  "set (select_jobs kind state ps) = {p \<in> set ps. (truthy kind \<longrightarrow> jp_kind p = the kind) \<and>
     (\<forall>st. state = Some st \<longrightarrow> jp_state p = st)}"
  by (auto simp: select_jobs_def Let_def split: option.splits if_splits)

lemma select_jobs_distinct:
  assumes "distinct (map jp_job_id ps)"
  shows "distinct (map jp_job_id (select_jobs kind state ps))"
proof -
  have "distinct (map jp_job_id (sort_key list_key ps))"
    using assms by (metis distinct_map distinct_sort set_sort)
  then show ?thesis
    by (auto simp: select_jobs_def Let_def distinct_map_filter split: option.splits)
qed

lemma all_pages_from:
  assumes ok: "store_ok K s" and sel: "select_jobs kind state (payloads s) = xs @ ys"
    and cur: "after_cursor cursor (xs @ ys) = ys" and n: "length ys < n"
  shows "all_pages n kind state cursor limit s = Some ys"
  using sel cur n
proof (induction n arbitrary: xs ys cursor)
  case (Suc n)
  let ?k = "nat (max 1 (min limit 1000))"
  have rows: "st_jobs s = map row_of (payloads s)" using ok by (simp add: store_ok_def)
  have lj: "v1_list_jobs kind state cursor limit s =
      Inr (take ?k ys, if length ys > length (take ?k ys) then Some (jp_job_id (last (take ?k ys))) else None)"
    unfolding v1_list_jobs_def rows load_payloads_rows by (simp add: res_bind_def Suc.prems page_of_def Let_def)
  show ?case
  proof (cases "length ys \<le> ?k")
    case True
    then show ?thesis by (simp add: lj)
  next
    case False
    let ?page = "take ?k ys"
    have ne: "?page \<noteq> []" using False by (cases ys) auto
    then have split: "xs @ ys = (xs @ butlast ?page) @ last ?page # drop ?k ys"
      by (metis append.assoc append_Cons append_Nil append_butlast_last_id append_take_drop_id)
    have "last ?page \<in> set (payloads s)"
      using last_in_set [OF ne] set_take_subset [of ?k ys] Suc.prems(1) select_jobs_set [of kind state "payloads s"] by auto
    then have id: "jp_job_id (last ?page) \<noteq> []" using payload_job_ok [OF ok] by (simp add: job_ok_def)
    have di: "distinct (map jp_job_id (xs @ ys))"
      unfolding Suc.prems(1) [symmetric] by (rule select_jobs_distinct) (use ok in \<open>simp add: store_ok_def\<close>)
    have "all_pages n kind state (Some (jp_job_id (last ?page))) limit s = Some (drop ?k ys)"
    proof (rule Suc.IH)
      show "select_jobs kind state (payloads s) = (xs @ ?page) @ drop ?k ys" using Suc.prems(1) by simp
      show "after_cursor (Some (jp_job_id (last ?page))) ((xs @ ?page) @ drop ?k ys) = drop ?k ys"
        using after_cursor_split [OF di [unfolded split] id] split by simp
      show "length (drop ?k ys) < n" using Suc.prems(3) False by simp
    qed
    with False show ?thesis by (simp add: lj)
  qed
qed simp

text \<open>C19: pagination terminates and is complete: a client that follows the cursors of \<open>list_jobs\<close>, with
  any page limit (also zero or negative), reaches a page without a cursor after at most one page more
  than there are jobs, and the pages together are the selected jobs, each exactly once, newest first.\<close>

theorem pagination_complete:
  assumes ok: "store_ok K s" and c: "\<not> truthy cursor"
  shows "all_pages (Suc (length (st_jobs s))) kind state cursor limit s = Some (select_jobs kind state (payloads s)) \<and>
    distinct (map jp_job_id (select_jobs kind state (payloads s))) \<and>
    sorted (map list_key (select_jobs kind state (payloads s)))"
proof (intro conjI)
  have di: "distinct (map jp_job_id (payloads s))" and rows: "st_jobs s = map row_of (payloads s)"
    using ok by (simp_all add: store_ok_def)
  have "length (select_jobs kind state (payloads s)) \<le> length (sort_key list_key (payloads s))"
    by (auto simp: select_jobs_def Let_def intro: order_trans [OF length_filter_le] split: option.splits
        simp del: length_sort)
  moreover have "length (st_jobs s) = length (payloads s)" by (subst rows) simp
  ultimately have "length (select_jobs kind state (payloads s)) < Suc (length (st_jobs s))" by simp
  then show "all_pages (Suc (length (st_jobs s))) kind state cursor limit s = Some (select_jobs kind state (payloads s))"
    by (intro all_pages_from [OF ok, where xs = "[]"]) (simp_all add: after_cursor_def c)
  show "distinct (map jp_job_id (select_jobs kind state (payloads s)))" by (rule select_jobs_distinct [OF di])
  show "sorted (map list_key (select_jobs kind state (payloads s)))"
    by (auto simp: select_jobs_def Let_def sorted_filter split: option.splits)
qed

theorem pagination_complete_witness:
  "all_pages 3 None None None 1 sample_store = Some (select_jobs None None (payloads sample_store)) \<and>
   map jp_job_id (select_jobs None None (payloads sample_store)) = [''j2'', ''j1'']"
proof -
  have "length (st_jobs sample_store) = 2" by code_simp
  moreover have "map jp_job_id (select_jobs None None (payloads sample_store)) = [''j2'', ''j1'']" by code_simp
  ultimately show ?thesis
    using pagination_complete [OF sample_store_ok, of None None None 1] by (simp add: numeral_3_eq_3 numeral_2_eq_2)
qed

end
