(* ===== verification/Bars.thy ===== *)
theory Bars
  imports PyNum
begin

text \<open>
  Market-data bars (\<^verbatim>\<open>openpine/adapters/bars.py\<close>, \<^verbatim>\<open>openpine/data/row_helpers.py\<close> and the coverage
  code of \<^verbatim>\<open>openpine/data/orchestrator.py\<close>): rows of a provider and their normalisation, coverage
  reports, interval arithmetic and the series validator. The records are the contract types as the
  sources build and read them; what their package computes (\<open>is_complete\<close>, \<open>serialize\<close>) is a parameter
  where it is used. A provider row, a dict or an object, is the list of its fields.
\<close>

subsection \<open>Bars, queries and reports\<close>

record instrument_key =
  ik_exchange :: string
  ik_market :: string
  ik_symbol :: string

record time_frame =
  tf_canonical :: string
  tf_duration_ms :: "int option"

record bar =
  b_instrument :: instrument_key
  b_timeframe :: time_frame
  b_time :: int
  b_time_close :: int
  b_open :: pyfloat
  b_high :: pyfloat
  b_low :: pyfloat
  b_close :: pyfloat
  b_volume :: "pyfloat option"
  b_closed :: bool

record bar_query =
  q_instrument :: instrument_key
  q_timeframe :: time_frame
  q_start_ms :: int
  q_end_ms :: int
  q_source :: string
  q_gap_policy :: string
  q_error_policy :: string

record coverage_report =
  cr_requested_start_ms :: int
  cr_requested_end_ms :: int
  cr_delivered_start_ms :: "int option"
  cr_delivered_end_ms :: "int option"
  cr_missing_intervals :: "(int \<times> int) list"
  cr_duplicate_timestamps :: "int list"
  cr_source_mix :: "string list"
  cr_status :: string

subsection \<open>Rows\<close>

type_synonym row = "(string \<times> pyval) list"

fun attr_or_item :: "row \<Rightarrow> string list \<Rightarrow> py_exn + pyval" where
  "attr_or_item r [] = Inl PyAttributeError"
| "attr_or_item r (n # ns) = (case map_of r n of Some v \<Rightarrow> Inr v | None \<Rightarrow> attr_or_item r ns)"

definition has_field :: "row \<Rightarrow> string \<Rightarrow> bool" where
  "has_field r n \<longleftrightarrow> map_of r n \<noteq> None"

definition has_any_field :: "row \<Rightarrow> string list \<Rightarrow> bool" where
  "has_any_field r ns \<longleftrightarrow> list_ex (has_field r) ns"

definition field_int :: "row \<Rightarrow> string list \<Rightarrow> py_exn + int" where
  "field_int r ns = res_bind (attr_or_item r ns) py_int"

definition field_float :: "row \<Rightarrow> string \<Rightarrow> py_exn + pyfloat" where
  "field_float r n = res_bind (attr_or_item r [n]) py_float"

text \<open>The text of a field, or the fallback when the row has none of its names.\<close>

definition field_text :: "row \<Rightarrow> string list \<Rightarrow> string \<Rightarrow> py_exn + string" where
  "field_text r ns fallback =
     (if has_any_field r ns then res_bind (attr_or_item r ns) (\<lambda>v. Inr (py_str v)) else Inr fallback)"

definition close_time_of :: "row \<Rightarrow> bar_query \<Rightarrow> int \<Rightarrow> py_exn + int" where
  "close_time_of r q time =
     (if has_any_field r [''time_close'', ''close_time_ms'']
      then field_int r [''time_close'', ''close_time_ms'']
      else Inr (case tf_duration_ms (q_timeframe q) of Some d \<Rightarrow> time + d | None \<Rightarrow> q_end_ms q))"

definition volume_of :: "row \<Rightarrow> py_exn + pyfloat option" where
  "volume_of r =
     (case map_of r ''volume'' of
        None \<Rightarrow> Inr None
      | Some VNone \<Rightarrow> Inr None
      | Some v \<Rightarrow> res_bind (py_float v) (\<lambda>x. Inr (Some x)))"

definition closed_of :: "row \<Rightarrow> string list \<Rightarrow> py_exn + bool" where
  "closed_of r ns =
     (if has_any_field r ns then res_bind (attr_or_item r ns) (\<lambda>v. Inr (val_true v)) else Inr True)"

definition normalize_provider_bar :: "row \<Rightarrow> bar_query \<Rightarrow> py_exn + bar" where
  "normalize_provider_bar r q =
     res_bind (field_int r [''time'', ''open_time_ms'', ''timestamp'']) (\<lambda>time.
     res_bind (close_time_of r q time) (\<lambda>time_close.
     res_bind (field_text r [''exchange''] (ik_exchange (q_instrument q))) (\<lambda>exchange.
     res_bind (field_text r [''market''] (ik_market (q_instrument q))) (\<lambda>market.
     res_bind (field_text r [''symbol'', ''exchange_symbol''] (ik_symbol (q_instrument q))) (\<lambda>symbol.
     res_bind (closed_of r [''closed'', ''is_closed'']) (\<lambda>closed.
     res_bind (field_float r ''open'') (\<lambda>opn.
     res_bind (field_float r ''high'') (\<lambda>h.
     res_bind (field_float r ''low'') (\<lambda>l.
     res_bind (field_float r ''close'') (\<lambda>c.
     res_bind (volume_of r) (\<lambda>v.
       Inr \<lparr>b_instrument = \<lparr>ik_exchange = lower exchange, ik_market = lower market, ik_symbol = upper symbol\<rparr>,
            b_timeframe = q_timeframe q, b_time = time, b_time_close = time_close, b_open = opn, b_high = h,
            b_low = l, b_close = c, b_volume = v, b_closed = closed\<rparr>)))))))))))"

fun normalize_rows :: "row list \<Rightarrow> bar_query \<Rightarrow> py_exn + bar list" where
  "normalize_rows [] q = Inr []"
| "normalize_rows (r # rs) q =
     res_bind (normalize_provider_bar r q) (\<lambda>b. res_bind (normalize_rows rs q) (\<lambda>bs. Inr (b # bs)))"

subsection \<open>Coverage\<close>

text \<open>\<open>range(a, b, d)\<close>; a zero step raises.\<close>

definition py_range :: "int \<Rightarrow> int \<Rightarrow> int \<Rightarrow> py_exn + int list" where
  "py_range a b d =
     (if d = 0 then Inl PyValueError
      else Inr (map (\<lambda>i. a + int i * d)
        [0..<nat (if 0 < d then (b - a + d - 1) div d else (a - b - d - 1) div (- d))]))"

text \<open>\<open>duplicate_timestamps\<close>: the loop with its two sets, then the sorted result.\<close>

fun dup_scan :: "int list \<Rightarrow> int list \<Rightarrow> int list \<Rightarrow> int list" where
  "dup_scan seen dups [] = dups"
| "dup_scan seen dups (t # ts) =
     dup_scan (List.insert t seen) (if t \<in> set seen then List.insert t dups else dups) ts"

definition duplicate_timestamps :: "bar list \<Rightarrow> int list" where
  "duplicate_timestamps bars = sort (dup_scan [] [] (map b_time bars))"

fun ordered_times :: "bar list \<Rightarrow> bool" where
  "ordered_times (a # b # bs) \<longleftrightarrow> b_time a < b_time b \<and> ordered_times (b # bs)"
| "ordered_times _ \<longleftrightarrow> True"

definition missing_intervals :: "bar_query \<Rightarrow> bar list \<Rightarrow> py_exn + (int \<times> int) list" where
  "missing_intervals q bars =
     (case tf_duration_ms (q_timeframe q) of
        None \<Rightarrow> Inr []
      | Some d \<Rightarrow>
          res_bind (py_range (q_start_ms q) (q_end_ms q) d) (\<lambda>starts.
            Inr (map (\<lambda>s. (s, min (s + d) (q_end_ms q)))
              (filter (\<lambda>s. s \<notin> b_time ` set bars) starts))))"

definition empty_coverage :: "bar_query \<Rightarrow> string \<Rightarrow> coverage_report" where
  "empty_coverage q source = \<lparr>cr_requested_start_ms = q_start_ms q, cr_requested_end_ms = q_end_ms q,
     cr_delivered_start_ms = None, cr_delivered_end_ms = None,
     cr_missing_intervals = [(q_start_ms q, q_end_ms q)], cr_duplicate_timestamps = [],
     cr_source_mix = [source], cr_status = ''empty''\<rparr>"

definition coverage_for :: "bar_query \<Rightarrow> bar list \<Rightarrow> string \<Rightarrow> py_exn + coverage_report" where
  "coverage_for q bars source =
     (if bars = [] then Inr (empty_coverage q source)
      else
        (let dups = duplicate_timestamps bars; ordered = ordered_times bars
         in res_bind (if ordered \<and> dups = [] then missing_intervals q bars else Inr []) (\<lambda>missing.
            Inr \<lparr>cr_requested_start_ms = q_start_ms q, cr_requested_end_ms = q_end_ms q,
              cr_delivered_start_ms = Some (b_time (hd bars)),
              cr_delivered_end_ms = Some (Max (b_time_close ` set bars)),
              cr_missing_intervals = missing, cr_duplicate_timestamps = dups, cr_source_mix = [source],
              cr_status = (if dups \<noteq> [] then ''duplicate'' else if \<not> ordered then ''unordered''
                 else if missing \<noteq> [] then ''gap'' else ''valid'')\<rparr>)))"

text \<open>The second copy of the routine, in \<^verbatim>\<open>adapters/bars.py\<close>: it computes the missing intervals first
  and discards them when the bars are out of order or repeated.\<close>

definition adapter_coverage_for :: "bar_query \<Rightarrow> bar list \<Rightarrow> string \<Rightarrow> py_exn + coverage_report" where
  "adapter_coverage_for q bars source =
     (if bars = [] then Inr (empty_coverage q source)
      else
        res_bind (case tf_duration_ms (q_timeframe q) of
            None \<Rightarrow> Inr []
          | Some d \<Rightarrow>
              res_bind (py_range (q_start_ms q) (q_end_ms q) d) (\<lambda>starts.
                Inr (map (\<lambda>s. (s, min (s + d) (q_end_ms q)))
                  (filter (\<lambda>s. s \<notin> b_time ` set bars) starts)))) (\<lambda>missing.
        let duplicates = duplicate_timestamps bars; ordered = ordered_times bars
        in Inr \<lparr>cr_requested_start_ms = q_start_ms q, cr_requested_end_ms = q_end_ms q,
             cr_delivered_start_ms = Some (b_time (hd bars)),
             cr_delivered_end_ms = Some (Max (b_time_close ` set bars)),
             cr_missing_intervals = (if ordered \<and> duplicates = [] then missing else []),
             cr_duplicate_timestamps = duplicates, cr_source_mix = [source],
             cr_status = (if duplicates \<noteq> [] then ''duplicate'' else if \<not> ordered then ''unordered''
               else if missing \<noteq> [] then ''gap'' else ''valid'')\<rparr>))"

record bar_series =
  bs_query :: bar_query
  bs_bars :: "bar list"
  bs_coverage :: coverage_report
  bs_snapshot :: "json option"

definition from_provider_bars :: "row list \<Rightarrow> bar_query \<Rightarrow> py_exn + bar_series" where
  "from_provider_bars raw q =
     res_bind (normalize_rows raw q) (\<lambda>bars.
     res_bind (adapter_coverage_for q bars ''provider'') (\<lambda>cov.
       Inr \<lparr>bs_query = q, bs_bars = bars, bs_coverage = cov, bs_snapshot = None\<rparr>))"

text \<open>\<open>_coalesce_intervals\<close>: the loop over the sorted intervals with its current interval.\<close>

fun coalesce_loop :: "int \<times> int \<Rightarrow> (int \<times> int) list \<Rightarrow> (int \<times> int) list" where
  "coalesce_loop cur [] = [cur]"
| "coalesce_loop (cs, ce) ((s, e) # rest) =
     (if s \<le> ce then coalesce_loop (cs, max ce e) rest else (cs, ce) # coalesce_loop (s, e) rest)"

definition coalesce_intervals :: "(int \<times> int) list \<Rightarrow> (int \<times> int) list" where
  "coalesce_intervals ivs = (case sort ivs of [] \<Rightarrow> [] | iv # rest \<Rightarrow> coalesce_loop iv rest)"

subsection \<open>The grid of a query\<close>

definition on_grid :: "bar_query \<Rightarrow> int \<Rightarrow> int \<Rightarrow> bool" where
  "on_grid q d t \<longleftrightarrow> (\<exists>k :: nat. t = q_start_ms q + int k * d) \<and> t < q_end_ms q"

lemma le_div_iff: "0 < (d :: int) \<Longrightarrow> k \<le> x div d \<longleftrightarrow> k * d \<le> x"
proof -
  assume d: "0 < d"
  have "k * d \<le> x" if "k \<le> x div d"
  proof -
    have "k * d \<le> x div d * d" using that d by (intro mult_right_mono) simp_all
    also have "... \<le> x" using d by (simp add: minus_mod_eq_div_mult [symmetric])
    finally show ?thesis .
  qed
  moreover have "k \<le> x div d" if "k * d \<le> x"
    using zdiv_mono1 [OF that d] d by simp
  ultimately show ?thesis by blast
qed

lemma py_range_pos:
  assumes "0 < d"
  shows "\<exists>xs. py_range a b d = Inr xs \<and> set xs = {t. (\<exists>k :: nat. t = a + int k * d) \<and> t < b} \<and>
    sorted_wrt (<) xs"
proof -
  let ?n = "nat ((b - a + d - 1) div d)"
  have n: "i < ?n \<longleftrightarrow> a + int i * d < b" for i
  proof -
    have "i < ?n \<longleftrightarrow> int i + 1 \<le> (b - a + d - 1) div d" by linarith
    also have "... \<longleftrightarrow> (int i + 1) * d \<le> b - a + d - 1" by (rule le_div_iff [OF assms])
    also have "... \<longleftrightarrow> a + int i * d < b" by (auto simp: algebra_simps)
    finally show ?thesis .
  qed
  have r: "py_range a b d = Inr (map (\<lambda>i. a + int i * d) [0..<?n])" using assms by (simp add: py_range_def)
  have "{0..<?n} = {i. a + int i * d < b}" by (rule set_eqI, unfold mem_Collect_eq atLeastLessThan_iff n) simp
  then have "set (map (\<lambda>i. a + int i * d) [0..<?n]) = (\<lambda>i. a + int i * d) ` {i. a + int i * d < b}"
    by (metis set_map set_upt)
  then have "set (map (\<lambda>i. a + int i * d) [0..<?n]) = {t. (\<exists>k :: nat. t = a + int k * d) \<and> t < b}" by auto
  moreover have "sorted_wrt (<) (map (\<lambda>i. a + int i * d) [0..<?n])"
    using assms by (simp add: sorted_wrt_map sorted_wrt_iff_nth_less)
  ultimately show ?thesis using r by blast
qed

lemma ordered_times_iff: "ordered_times bars \<longleftrightarrow> sorted_wrt (<) (map b_time bars)"
proof (induction bars rule: ordered_times.induct)
  case (1 a b bs)
  then show ?case by (auto intro: order_less_trans)
qed simp_all

lemma dup_scan_set:
  "set (dup_scan seen dups ts) = set dups \<union> (set seen \<inter> set ts) \<union> {t. 2 \<le> count_list ts t}"
proof (induction ts arbitrary: seen dups)
  case (Cons t ts)
  have pos: "1 \<le> count_list ts t \<longleftrightarrow> t \<in> set ts" using count_list_0_iff [of ts t] by linarith
  have c: "2 \<le> count_list (t # ts) x \<longleftrightarrow> 2 \<le> count_list ts x \<or> (x = t \<and> t \<in> set ts)" for x
    using pos by (cases "x = t") auto
  show ?case by (auto simp: Cons.IH c simp del: count_list.simps)
qed simp

lemma dup_scan_distinct: "distinct dups \<Longrightarrow> distinct (dup_scan seen dups ts)"
  by (induction ts arbitrary: seen dups) simp_all

lemma duplicate_timestamps_set:
  "set (duplicate_timestamps bars) = {t. 2 \<le> count_list (map b_time bars) t}"
  by (simp add: duplicate_timestamps_def dup_scan_set)

lemma count_list_distinct: "distinct xs \<longleftrightarrow> (\<forall>x. count_list xs x \<le> 1)"
proof (induction xs)
  case (Cons y ys)
  have "(\<forall>x. count_list (y # ys) x \<le> 1) \<longleftrightarrow> count_list ys y = 0 \<and> (\<forall>x. count_list ys x \<le> 1)"
  proof
    assume a: "\<forall>x. count_list (y # ys) x \<le> 1"
    have "count_list ys x \<le> 1" for x using spec [OF a, of x] by (cases "x = y") simp_all
    with spec [OF a, of y] show "count_list ys y = 0 \<and> (\<forall>x. count_list ys x \<le> 1)" by simp
  qed simp
  with Cons.IH show ?case by (simp only: distinct.simps count_list_0_iff)
qed simp

lemma no_duplicates_iff: "duplicate_timestamps bars = [] \<longleftrightarrow> distinct (map b_time bars)"
proof -
  have "duplicate_timestamps bars = [] \<longleftrightarrow> {t. 2 \<le> count_list (map b_time bars) t} = {}"
    by (metis duplicate_timestamps_set set_empty)
  also have "... \<longleftrightarrow> distinct (map b_time bars)"
    unfolding count_list_distinct by (simp add: not_le less_Suc_eq_le numeral_2_eq_2)
  finally show ?thesis .
qed

lemma ordered_no_duplicates: "ordered_times bars \<Longrightarrow> duplicate_timestamps bars = []"
  unfolding no_duplicates_iff ordered_times_iff using strict_sorted_iff by blast

subsection \<open>Coverage reports\<close>

lemma missing_exact:
  assumes "tf_duration_ms (q_timeframe q) = Some d" and "0 < d"
  obtains ms where "missing_intervals q bars = Inr ms"
    and "set ms = {(t, min (t + d) (q_end_ms q)) | t. on_grid q d t \<and> t \<notin> b_time ` set bars}"
proof -
  from py_range_pos [OF assms(2), of "q_start_ms q" "q_end_ms q"] obtain xs where
    r: "py_range (q_start_ms q) (q_end_ms q) d = Inr xs" and x: "set xs = {t. on_grid q d t}"
    by (auto simp: on_grid_def)
  show ?thesis
    by (rule that) (use assms(1) r x in \<open>auto simp: missing_intervals_def\<close>)
qed

text \<open>C39: a coverage report is exact: for a timeframe of positive length and a non-empty series it is always
  computed; its status is \<open>valid\<close> exactly when the bar times strictly increase and every grid time of
  the query has a bar; the duplicates it lists are the times that occur more than once; and for bars in
  order the missing intervals are those of the grid times without a bar, cut at the end of the query.\<close>

theorem coverage_exact:
  assumes d: "tf_duration_ms (q_timeframe q) = Some d" "0 < d" and ne: "bars \<noteq> []"
  shows "\<exists>c. coverage_for q bars source = Inr c \<and>
    (cr_status c = ''valid'' \<longleftrightarrow> sorted_wrt (<) (map b_time bars) \<and> (\<forall>t. on_grid q d t \<longrightarrow> t \<in> b_time ` set bars)) \<and>
    set (cr_duplicate_timestamps c) = {t. 2 \<le> count_list (map b_time bars) t} \<and>
    (sorted_wrt (<) (map b_time bars) \<longrightarrow>
      set (cr_missing_intervals c) = {(t, min (t + d) (q_end_ms q)) | t. on_grid q d t \<and> t \<notin> b_time ` set bars})"
proof -
  obtain ms where ms: "missing_intervals q bars = Inr ms"
    "set ms = {(t, min (t + d) (q_end_ms q)) | t. on_grid q d t \<and> t \<notin> b_time ` set bars}"
    by (rule missing_exact [OF d])
  have e: "ms = [] \<longleftrightarrow> (\<forall>t. on_grid q d t \<longrightarrow> t \<in> b_time ` set bars)"
    unfolding set_empty [symmetric] ms(2) by blast
  show ?thesis
  proof (cases "ordered_times bars")
    case True
    with ordered_no_duplicates [OF True] ms ne duplicate_timestamps_set [of bars] e show ?thesis
      by (simp add: coverage_for_def ordered_times_iff)
  next
    case False
    with ne duplicate_timestamps_set [of bars] show ?thesis
      by (simp add: coverage_for_def ordered_times_iff Let_def)
  qed
qed

definition sample_query :: bar_query where
  "sample_query = \<lparr>q_instrument = \<lparr>ik_exchange = ''binance'', ik_market = ''spot'', ik_symbol = ''BTCUSDT''\<rparr>,
     q_timeframe = \<lparr>tf_canonical = ''1m'', tf_duration_ms = Some 60\<rparr>, q_start_ms = 0, q_end_ms = 150,
     q_source = ''auto'', q_gap_policy = ''fail'', q_error_policy = ''raise''\<rparr>"

definition sample_bar :: "int \<Rightarrow> bar" where
  "sample_bar t = \<lparr>b_instrument = q_instrument sample_query, b_timeframe = q_timeframe sample_query,
     b_time = t, b_time_close = t + 60, b_open = Fin 1, b_high = Fin 2, b_low = Fin 1, b_close = Fin 2,
     b_volume = None, b_closed = True\<rparr>"

theorem coverage_exact_witness:
  "\<exists>c. coverage_for sample_query [sample_bar 0, sample_bar 120] ''s'' = Inr c \<and>
    set (cr_duplicate_timestamps c) = {t. 2 \<le> count_list [0, 120] t} \<and> cr_missing_intervals c = [(60, 120)]"
proof -
  have "tf_duration_ms (q_timeframe sample_query) = Some 60" by (simp add: sample_query_def)
  from coverage_exact [OF this, of "[sample_bar 0, sample_bar 120]" "''s''"] obtain c where
    "coverage_for sample_query [sample_bar 0, sample_bar 120] ''s'' = Inr c"
    "set (cr_duplicate_timestamps c) = {t. 2 \<le> count_list [0, 120] t}"
    by (auto simp: sample_bar_def)
  moreover have "map_sum id cr_missing_intervals (coverage_for sample_query [sample_bar 0, sample_bar 120] ''s'') =
      Inr [(60, 120)]" by code_simp
  ultimately show ?thesis by auto
qed

text \<open>C40: the two copies of the coverage routine agree: for every query, bars and source, unless the
  timeframe claims a duration of zero, the orchestrator's and the bar adapter's reports are equal.\<close>

theorem coverage_routines_agree:
  assumes "tf_duration_ms (q_timeframe q) \<noteq> Some 0"
  shows "coverage_for q bars source = adapter_coverage_for q bars source"
proof -
  obtain ms where ms: "missing_intervals q bars = Inr ms"
    using assms by (cases "tf_duration_ms (q_timeframe q)") (auto simp: missing_intervals_def py_range_def)
  have "adapter_coverage_for q bars source = (if bars = [] then Inr (empty_coverage q source) else
      res_bind (missing_intervals q bars) (\<lambda>missing.
        let duplicates = duplicate_timestamps bars; ordered = ordered_times bars
        in Inr \<lparr>cr_requested_start_ms = q_start_ms q, cr_requested_end_ms = q_end_ms q,
             cr_delivered_start_ms = Some (b_time (hd bars)),
             cr_delivered_end_ms = Some (Max (b_time_close ` set bars)),
             cr_missing_intervals = (if ordered \<and> duplicates = [] then missing else []),
             cr_duplicate_timestamps = duplicates, cr_source_mix = [source],
             cr_status = (if duplicates \<noteq> [] then ''duplicate'' else if \<not> ordered then ''unordered''
               else if missing \<noteq> [] then ''gap'' else ''valid'')\<rparr>))"
    unfolding adapter_coverage_for_def missing_intervals_def ..
  then show ?thesis unfolding coverage_for_def by (simp add: ms Let_def)
qed

theorem coverage_routines_agree_witness:
  "coverage_for sample_query [sample_bar 60] ''s'' = adapter_coverage_for sample_query [sample_bar 60] ''s''"
  by (rule coverage_routines_agree) (simp add: sample_query_def)

subsection \<open>Coalescing\<close>

definition covered :: "int \<Rightarrow> (int \<times> int) list \<Rightarrow> bool" where
  "covered t ivs \<longleftrightarrow> (\<exists>(s, e) \<in> set ivs. s \<le> t \<and> t < e)"

definition separated :: "(int \<times> int) list \<Rightarrow> bool" where
  "separated ivs \<longleftrightarrow> sorted_wrt (\<lambda>x y. snd x < fst y) ivs"

lemma covered_Cons: "covered t ((s, e) # ivs) \<longleftrightarrow> (s \<le> t \<and> t < e) \<or> covered t ivs"
  by (simp add: covered_def)

lemma coalesce_loop_exact:
  assumes "sorted (map fst (cur # rest))"
  shows "covered t (coalesce_loop cur rest) = covered t (cur # rest) \<and> separated (coalesce_loop cur rest) \<and>
    (\<forall>iv \<in> set (coalesce_loop cur rest). fst cur \<le> fst iv)"
  using assms
proof (induction cur rest rule: coalesce_loop.induct)
  case (1 cur)
  then show ?case by (simp add: separated_def)
next
  case (2 cs ce s e rest)
  show ?case
  proof (cases "s \<le> ce")
    case True
    with 2 have "covered t (coalesce_loop (cs, max ce e) rest) = covered t ((cs, max ce e) # rest) \<and>
      separated (coalesce_loop (cs, max ce e) rest) \<and>
      (\<forall>iv \<in> set (coalesce_loop (cs, max ce e) rest). fst (cs, max ce e) \<le> fst iv)" by auto
    with True 2(3) show ?thesis by (auto simp: covered_Cons)
  next
    case False
    with 2 have IH: "covered t (coalesce_loop (s, e) rest) = covered t ((s, e) # rest) \<and>
      separated (coalesce_loop (s, e) rest) \<and> (\<forall>iv \<in> set (coalesce_loop (s, e) rest). s \<le> fst iv)" by auto
    with False 2(3) show ?thesis by (auto simp: covered_Cons separated_def)
  qed
qed

text \<open>Coalescing the missing intervals before asking the provider changes nothing about what is
  asked for: a time lies in a coalesced interval exactly when it lies in one of the given ones, and the
  coalesced intervals are in order, each ending strictly before the next begins.\<close>

theorem coalesce_exact:
  "covered t (coalesce_intervals ivs) = covered t ivs \<and> separated (coalesce_intervals ivs)"
proof (cases "sort ivs")
  case Nil
  then have "ivs = []" by (metis length_0_conv length_sort)
  then show ?thesis by (simp add: coalesce_intervals_def separated_def)
next
  case (Cons iv rest)
  have "sorted (iv # rest)" using sorted_sort [of ivs] Cons by simp
  then have "sorted (map fst (iv # rest))"
    unfolding sorted_map by (rule sorted_wrt_mono_rel [rotated]) (auto simp: less_eq_prod_def)
  moreover have "covered t (iv # rest) = covered t ivs"
    unfolding covered_def Cons [symmetric] set_sort ..
  ultimately show ?thesis using coalesce_loop_exact [of iv rest t] Cons by (simp add: coalesce_intervals_def)
qed

end
