(* ===== verification/MarketData.thy ===== *)
theory MarketData
  imports Bars
begin

text \<open>
  The data orchestrator (\<^verbatim>\<open>openpine/data/orchestrator.py\<close>): admission of market-data snapshots, the
  series validator, and loading from storage, provider or both, with the persistent cache. The candle
  store, the provider, the cache files and the contract package are parameters: functions on a world
  that return a value or raise (the record \<open>market\<close>). The sharing of provider requests between threads
  is in \<^verbatim>\<open>Flights\<close>; here a call owns its request. Progress callbacks do not change the result and are
  not modelled.
\<close>

subsection \<open>Errors and the world\<close>

datatype data_error =
    IncompleteCoverage
  | ProviderUnavailable
  | StorageUnavailable
  | UnsupportedSource string
  | Raised py_exn
  | External string

text \<open>What the boundaries hand over: a contract series, a JSON mapping, or anything else.\<close>

datatype market_payload = SeriesPayload bar_series | MapPayload "(string \<times> json) list" | OtherPayload

record store_result =
  sr_success :: bool
  sr_manifest_id :: "string option"

record 'w market =
  mk_is_complete :: "coverage_report \<Rightarrow> bool"
  mk_serialize :: "instrument_key \<Rightarrow> string"
  mk_valid :: "string \<Rightarrow> json \<Rightarrow> bool"
  mk_hash_ok :: "string \<Rightarrow> json \<Rightarrow> bool"
  mk_read :: "bar_query \<Rightarrow> 'w \<Rightarrow> (string + market_payload) \<times> 'w"
  mk_write :: "market_payload \<Rightarrow> 'w \<Rightarrow> (string + store_result) \<times> 'w"
  mk_fetch :: "(bar_query \<Rightarrow> 'w \<Rightarrow> (string + market_payload) \<times> 'w) option"
  mk_persists :: bool
  mk_cache_read :: "bar_query \<Rightarrow> 'w \<Rightarrow> (string + bar list option) \<times> 'w"
  mk_cache_write :: "bar_series \<Rightarrow> 'w \<Rightarrow> 'w"
  mk_cache_enabled :: bool

type_synonym ('w, 'a) io = "'w \<Rightarrow> (data_error + 'a) \<times> 'w"

definition io_return :: "'a \<Rightarrow> ('w, 'a) io" where
  "io_return x w = (Inr x, w)"

definition io_raise :: "data_error \<Rightarrow> ('w, 'a) io" where
  "io_raise e w = (Inl e, w)"

definition io_bind :: "('w, 'a) io \<Rightarrow> ('a \<Rightarrow> ('w, 'b) io) \<Rightarrow> ('w, 'b) io" where
  "io_bind m f w = (case m w of (Inl e, w') \<Rightarrow> (Inl e, w') | (Inr x, w') \<Rightarrow> f x w')"

definition io_of :: "data_error + 'a \<Rightarrow> ('w, 'a) io" where
  "io_of r w = (r, w)"

definition raising :: "py_exn + 'a \<Rightarrow> data_error + 'a" where
  "raising r = (case r of Inl e \<Rightarrow> Inl (Raised e) | Inr x \<Rightarrow> Inr x)"

definition external :: "('w \<Rightarrow> (string + 'a) \<times> 'w) \<Rightarrow> ('w, 'a) io" where
  "external f w = (case f w of (Inl m, w') \<Rightarrow> (Inl (External m), w') | (Inr x, w') \<Rightarrow> (Inr x, w'))"

text \<open>\<open>except Exception as exc: raise StorageUnavailableError(str(exc))\<close>.\<close>

definition as_storage_error :: "('w, 'a) io \<Rightarrow> ('w, 'a) io" where
  "as_storage_error m w = (case m w of (Inl e, w') \<Rightarrow> (Inl StorageUnavailable, w') | (Inr x, w') \<Rightarrow> (Inr x, w'))"

subsection \<open>Admission of a snapshot\<close>

text \<open>\<open>==\<close> between a JSON value and an integer, and between a JSON value and text.\<close>

fun json_eq_int :: "json \<Rightarrow> int \<Rightarrow> bool" where
  "json_eq_int (JInt i) n = (i = n)"
| "json_eq_int (JFloat (Fin r)) n = (r = of_int n)"
| "json_eq_int (JBool b) n = ((if b then 1 else 0) = n)"
| "json_eq_int _ n = False"

definition json_eq_str :: "json \<Rightarrow> string \<Rightarrow> bool" where
  "json_eq_str j s \<longleftrightarrow> j = JStr s"

text \<open>\<open>int(value)\<close> and \<open>float(str(value))\<close>; the text of a container, a truth value or None is no number.\<close>

fun json_int :: "json \<Rightarrow> py_exn + int" where
  "json_int (JInt i) = Inr i"
| "json_int (JBool b) = Inr (if b then 1 else 0)"
| "json_int (JFloat x) = float_to_int x"
| "json_int (JStr s) = parse_int s"
| "json_int _ = Inl PyTypeError"

fun json_str_float :: "json \<Rightarrow> py_exn + pyfloat" where
  "json_str_float (JInt i) = parse_float (show_int i)"
| "json_str_float (JFloat x) = parse_float (float_repr x)"
| "json_str_float (JStr s) = parse_float s"
| "json_str_float _ = Inl PyValueError"

definition json_item :: "(string \<times> json) list \<Rightarrow> string \<Rightarrow> (json \<Rightarrow> py_exn + 'a) \<Rightarrow> data_error + 'a" where
  "json_item d k conv = (case map_of d k of None \<Rightarrow> Inl (Raised PyKeyError) | Some v \<Rightarrow> raising (conv v))"

definition admit_bar :: "'w market \<Rightarrow> bar_query \<Rightarrow> json \<Rightarrow> data_error + bar" where
  "admit_bar M q raw =
     (case json_items raw of
        None \<Rightarrow> Inl StorageUnavailable
      | Some d \<Rightarrow>
          if \<not> mk_valid M ''openpine.marketdata.bar.v2'' raw then Inl (External ''schema'')
          else if \<not> mk_hash_ok M ''openpine.marketdata.bar.v2'' raw then Inl StorageUnavailable
          else if \<not> json_eq_str (json_get d ''instrument_id'') (mk_serialize M (q_instrument q)) \<or>
            \<not> json_eq_str (json_get d ''timeframe'') (tf_canonical (q_timeframe q)) then Inl StorageUnavailable
          else
            res_bind (json_item d ''open_time_utc_ms'' json_int) (\<lambda>t.
            res_bind (json_item d ''close_time_utc_ms'' json_int) (\<lambda>tc.
            res_bind (json_item d ''open'' json_str_float) (\<lambda>opn.
            res_bind (json_item d ''high'' json_str_float) (\<lambda>h.
            res_bind (json_item d ''low'' json_str_float) (\<lambda>l.
            res_bind (json_item d ''close'' json_str_float) (\<lambda>c.
            res_bind (json_item d ''volume'' json_str_float) (\<lambda>v.
              Inr \<lparr>b_instrument = q_instrument q, b_timeframe = q_timeframe q, b_time = t, b_time_close = tc,
                   b_open = opn, b_high = h, b_low = l, b_close = c, b_volume = Some v,
                   b_closed = json_eq_str (json_get d ''finality'') ''FINAL''\<rparr>))))))))"

fun admit_bars :: "'w market \<Rightarrow> bar_query \<Rightarrow> json list \<Rightarrow> data_error + bar list" where
  "admit_bars M q [] = Inr []"
| "admit_bars M q (r # rs) = res_bind (admit_bar M q r) (\<lambda>b. res_bind (admit_bars M q rs) (\<lambda>bs. Inr (b # bs)))"

definition query_matches :: "'w market \<Rightarrow> bar_query \<Rightarrow> json \<Rightarrow> bool" where
  "query_matches M q env =
     (case json_items env of
        None \<Rightarrow> False
      | Some e \<Rightarrow>
          (case json_items (json_get e ''body'') of
             None \<Rightarrow> False
           | Some body \<Rightarrow>
               (case json_items (json_get body ''query'') of
                  None \<Rightarrow> False
                | Some cq \<Rightarrow>
                    json_eq_str (json_get cq ''instrument_id'') (mk_serialize M (q_instrument q)) \<and>
                    json_eq_str (json_get cq ''timeframe'') (tf_canonical (q_timeframe q)) \<and>
                    json_eq_int (json_get cq ''start_utc_ms'') (q_start_ms q) \<and>
                    json_eq_int (json_get cq ''end_utc_ms'') (q_end_ms q))))"

definition canonical_series :: "'w market \<Rightarrow> market_payload \<Rightarrow> bar_query \<Rightarrow> string \<Rightarrow> data_error + bar_series" where
  "canonical_series M payload q source =
     (case payload of
        SeriesPayload s \<Rightarrow> Inr s
      | OtherPayload \<Rightarrow> Inl StorageUnavailable
      | MapPayload d \<Rightarrow>
          (case (json_items (json_get d ''snapshot_envelope''), json_get d ''bars'') of
             (Some _, JList raw) \<Rightarrow>
               (let env = json_get d ''snapshot_envelope''
                in if \<not> mk_valid M ''openpine.marketdata.v2'' env then Inl (External ''schema'')
                   else if \<not> mk_hash_ok M ''openpine.marketdata.v2'' env then Inl StorageUnavailable
                   else if \<not> query_matches M q env then Inl StorageUnavailable
                   else res_bind (admit_bars M q raw) (\<lambda>bars.
                        res_bind (raising (coverage_for q bars source)) (\<lambda>cov.
                          Inr \<lparr>bs_query = q, bs_bars = bars, bs_coverage = cov, bs_snapshot = Some (JObj d)\<rparr>)))
           | _ \<Rightarrow> Inl StorageUnavailable))"

subsection \<open>Validation\<close>

definition source_name :: "coverage_report \<Rightarrow> string" where
  "source_name c = (case cr_source_mix c of [] \<Rightarrow> ''unknown'' | s # _ \<Rightarrow> s)"

definition validate :: "bar_series \<Rightarrow> bool option \<Rightarrow> data_error + coverage_report" where
  "validate s allow_gaps =
     res_bind (raising (coverage_for (bs_query s) (bs_bars s) (source_name (bs_coverage s)))) (\<lambda>c.
       if cr_duplicate_timestamps c \<noteq> [] then Inl IncompleteCoverage
       else if cr_status c = ''unordered'' then Inl IncompleteCoverage
       else if list_ex (\<lambda>b. \<not> b_closed b) (bs_bars s) then Inl IncompleteCoverage
       else if cr_missing_intervals c \<noteq> [] \<and>
          \<not> (case allow_gaps of None \<Rightarrow> q_gap_policy (bs_query s) = ''allow_with_metadata'' | Some g \<Rightarrow> g)
       then Inl IncompleteCoverage
       else Inr c)"

definition require_complete :: "'w market \<Rightarrow> bar_series \<Rightarrow> data_error + bar_series" where
  "require_complete M s = (if mk_is_complete M (bs_coverage s) then Inr s else Inl IncompleteCoverage)"

text \<open>\<open>self._require_complete(...) if query.gap_policy == "fail" else series\<close>.\<close>

definition complete_under :: "'w market \<Rightarrow> bar_query \<Rightarrow> bar_series \<Rightarrow> data_error + bar_series" where
  "complete_under M q s = (if q_gap_policy q = ''fail'' then require_complete M s else Inr s)"

subsection \<open>Loading\<close>

definition load_storage :: "'w market \<Rightarrow> bar_query \<Rightarrow> bool \<Rightarrow> ('w, bar_series) io" where
  "load_storage M q need =
     io_bind (as_storage_error (io_bind (external (mk_read M q)) (\<lambda>p. io_of (canonical_series M p q ''storage'')))) (\<lambda>s.
     io_bind (io_of (validate s (Some True))) (\<lambda>_.
       io_of (if need then require_complete M s else Inr s)))"

definition load_cache :: "'w market \<Rightarrow> bar_query \<Rightarrow> ('w, bar_series option) io" where
  "load_cache M q =
     (if \<not> mk_cache_enabled M then io_return None
      else io_bind (external (mk_cache_read M q)) (\<lambda>found.
        case found of
          None \<Rightarrow> io_return None
        | Some bars \<Rightarrow>
            io_bind (io_of (raising (coverage_for q bars ''persistent_cache''))) (\<lambda>cov.
              let s = \<lparr>bs_query = q, bs_bars = bars, bs_coverage = cov, bs_snapshot = None\<rparr>
              in io_bind (io_of (validate s (Some (q_gap_policy q \<noteq> ''fail'')))) (\<lambda>_.
                 io_bind (io_of (complete_under M q s)) (\<lambda>s. io_return (Some s))))))"

definition save_cache :: "'w market \<Rightarrow> bar_series \<Rightarrow> ('w, unit) io" where
  "save_cache M s w =
     (Inr (), if \<not> mk_cache_enabled M \<or> bs_snapshot s \<noteq> None then w else mk_cache_write M s w)"

text \<open>\<open>_load_provider\<close> of a call that owns its request.\<close>

definition load_provider :: "'w market \<Rightarrow> bar_query \<Rightarrow> ('w, bar_series) io" where
  "load_provider M q =
     (case mk_fetch M of
        None \<Rightarrow> io_raise ProviderUnavailable
      | Some fetch \<Rightarrow>
          io_bind (external (fetch q)) (\<lambda>p.
          io_bind (io_of (canonical_series M p q ''provider'')) (\<lambda>s.
          io_bind (io_of (validate s (Some (q_gap_policy q \<noteq> ''fail'')))) (\<lambda>_. io_return s))))"

definition missing_query :: "bar_query \<Rightarrow> int \<times> int \<Rightarrow> bar_query" where
  "missing_query q iv = q\<lparr>q_start_ms := fst iv, q_end_ms := snd iv, q_source := ''provider''\<rparr>"

fun fetch_intervals :: "'w market \<Rightarrow> bar_query \<Rightarrow> (int \<times> int) list \<Rightarrow> ('w, bar list) io" where
  "fetch_intervals M q [] = io_return []"
| "fetch_intervals M q (iv # ivs) =
     io_bind (load_provider M (missing_query q iv)) (\<lambda>s.
     io_bind (io_of (validate s (Some (q_gap_policy q \<noteq> ''fail'')))) (\<lambda>_.
     io_bind (io_of (complete_under M q s)) (\<lambda>_.
     io_bind (fetch_intervals M q ivs) (\<lambda>bars. io_return (bs_bars s @ bars)))))"

definition load_missing_from_provider ::
  "'w market \<Rightarrow> bar_query \<Rightarrow> (int \<times> int) list \<Rightarrow> ('w, bar_series) io"
where
  "load_missing_from_provider M q ivs =
     io_bind (fetch_intervals M q (coalesce_intervals ivs)) (\<lambda>fetched.
       let bars = sort_key b_time fetched
       in io_bind (io_of (raising (coverage_for q bars ''provider''))) (\<lambda>cov.
            io_return \<lparr>bs_query = q, bs_bars = bars, bs_coverage = cov, bs_snapshot = None\<rparr>))"

definition write_series :: "'w market \<Rightarrow> bar_series \<Rightarrow> ('w, store_result) io" where
  "write_series M s =
     io_bind (as_storage_error (external (mk_write M
       (case bs_snapshot s of Some (JObj d) \<Rightarrow> MapPayload d | _ \<Rightarrow> SeriesPayload s)))) (\<lambda>r.
       if sr_success r then io_return r else io_raise StorageUnavailable)"

definition write_provider_series :: "'w market \<Rightarrow> bar_series \<Rightarrow> ('w, store_result) io" where
  "write_provider_series M s = io_bind (io_of (validate s (Some True))) (\<lambda>_. write_series M s)"

definition store_bars :: "'w market \<Rightarrow> bar_series \<Rightarrow> ('w, store_result) io" where
  "store_bars M s = io_bind (io_of (validate s None)) (\<lambda>_. write_series M s)"

text \<open>A dict keyed by bar time, in insertion order, whose values are then sorted by time.\<close>

definition merge_bars :: "bar list \<Rightarrow> bar list \<Rightarrow> bar list" where
  "merge_bars storage provider =
     sort_key b_time (map snd (fold (\<lambda>b d. AList.update (b_time b) b d) (storage @ provider) []))"

definition merge_series :: "bar_query \<Rightarrow> bar_series \<Rightarrow> bar_series \<Rightarrow> data_error + bar_series" where
  "merge_series q storage provider =
     (let bars = merge_bars (bs_bars storage) (bs_bars provider)
      in res_bind (raising (coverage_for q bars ''auto'')) (\<lambda>cov.
           Inr \<lparr>bs_query = q, bs_bars = bars, bs_coverage = cov, bs_snapshot = None\<rparr>))"

definition load_auto :: "'w market \<Rightarrow> bar_query \<Rightarrow> ('w, bar_series) io" where
  "load_auto M q =
     io_bind (load_storage M q False) (\<lambda>storage.
       if mk_is_complete M (bs_coverage storage)
       then io_bind (save_cache M storage) (\<lambda>_. io_return storage)
       else
         io_bind (load_missing_from_provider M q (cr_missing_intervals (bs_coverage storage))) (\<lambda>provider.
         io_bind (if bs_bars provider \<noteq> [] \<and> \<not> mk_persists M
                  then io_bind (write_provider_series M provider) (\<lambda>_. io_return ()) else io_return ()) (\<lambda>_.
         io_bind (io_of (merge_series q storage provider)) (\<lambda>merged.
         io_bind (io_of (complete_under M q merged)) (\<lambda>merged.
         io_bind (save_cache M merged) (\<lambda>_. io_return merged))))))"

definition load_bars :: "'w market \<Rightarrow> bar_query \<Rightarrow> ('w, bar_series) io" where
  "load_bars M q =
     (if q_source q = ''storage'' then load_storage M q (q_gap_policy q = ''fail'')
      else io_bind (load_cache M q) (\<lambda>cached.
        case cached of
          Some s \<Rightarrow> io_return s
        | None \<Rightarrow>
            if q_source q = ''provider''
            then io_bind (load_provider M q) (\<lambda>s.
                 io_bind (io_of (complete_under M q s)) (\<lambda>s.
                 io_bind (save_cache M s) (\<lambda>_. io_return s)))
            else if q_source q \<noteq> ''auto'' then io_raise (UnsupportedSource (q_source q))
            else load_auto M q))"

definition get_bars :: "'w market \<Rightarrow> bar_query \<Rightarrow> ('w, bar list) io" where
  "get_bars M q = io_bind (load_bars M q) (\<lambda>s. io_return (bs_bars s))"

text \<open>\<open>on_candle_closed\<close>: the durable write of one live candle, without validation.\<close>

definition on_candle_closed :: "'w market \<Rightarrow> bar \<Rightarrow> string \<Rightarrow> ('w, string option) io" where
  "on_candle_closed M b source =
     (let q = \<lparr>q_instrument = b_instrument b, q_timeframe = b_timeframe b, q_start_ms = b_time b,
               q_end_ms = b_time_close b, q_source = ''storage'', q_gap_policy = ''fail'',
               q_error_policy = ''raise''\<rparr>
      in io_bind (io_of (raising (coverage_for q [b] source))) (\<lambda>cov.
         io_bind (write_series M \<lparr>bs_query = q, bs_bars = [b], bs_coverage = cov, bs_snapshot = None\<rparr>) (\<lambda>r.
           io_return (sr_manifest_id r))))"

record data_gap =
  dg_gap_id :: string
  dg_instrument :: instrument_key
  dg_price_type :: string
  dg_timeframe :: string
  dg_provider :: string
  dg_gap_start :: int
  dg_gap_end :: int
  dg_severity :: string
  dg_status :: string
  dg_created_at :: ms
  dg_updated_at :: ms

definition data_gap_from_interval :: "ms \<Rightarrow> bar_query \<Rightarrow> int \<times> int \<Rightarrow> data_gap" where
  "data_gap_from_interval now q iv =
     (let ik = q_instrument q; tf = tf_canonical (q_timeframe q)
      in \<lparr>dg_gap_id = ''gap_'' @ ik_exchange ik @ '':'' @ ik_market ik @ '':'' @ ik_symbol ik @ '':trade_'' @ tf @
            ''_'' @ show_int (fst iv) @ ''_'' @ show_int (snd iv),
          dg_instrument = ik, dg_price_type = ''trade'', dg_timeframe = tf,
          dg_provider = ''marketdata-provider'', dg_gap_start = fst iv, dg_gap_end = snd iv,
          dg_severity = ''minor'', dg_status = ''open'', dg_created_at = now, dg_updated_at = now\<rparr>)"

text \<open>\<open>detect_gaps\<close> on a store without its own gap detection; \<open>coverage\<close> is the store's report.\<close>

definition detect_gaps :: "ms \<Rightarrow> bar_query \<Rightarrow> coverage_report \<Rightarrow> data_gap list" where
  "detect_gaps now q coverage = map (data_gap_from_interval now q) (cr_missing_intervals coverage)"

subsection \<open>Successful runs\<close>

named_theorems io_iff \<open>when a piece of the orchestrator succeeds\<close>

lemma io_ok_iff [io_iff]:
  "io_return x w = (Inr y, w') \<longleftrightarrow> y = x \<and> w' = w"
  "io_raise e w = (Inr y, w') \<longleftrightarrow> False"
  "io_of r w = (Inr y, w') \<longleftrightarrow> r = Inr y \<and> w' = w"
  "io_bind m f w = (Inr z, w') \<longleftrightarrow> (\<exists>x w1. m w = (Inr x, w1) \<and> f x w1 = (Inr z, w'))"
  "raising r' = Inr v \<longleftrightarrow> r' = Inr v"
  by (auto simp: io_return_def io_raise_def io_of_def io_bind_def raising_def split: prod.splits sum.splits)

text \<open>A proper series: bar times strictly increase and no bar is open.\<close>

definition proper :: "bar list \<Rightarrow> bool" where
  "proper bars \<longleftrightarrow> sorted_wrt (<) (map b_time bars) \<and> (\<forall>b \<in> set bars. b_closed b)"

lemma coverage_ordered:
  assumes "coverage_for q bars source = Inr c" and "cr_duplicate_timestamps c = []" and "cr_status c \<noteq> ''unordered''"
  shows "sorted_wrt (<) (map b_time bars)"
  using assms by (auto simp: coverage_for_def Let_def res_bind_Inr_iff ordered_times_iff split: if_splits)

lemma validate_proper:
  assumes "validate s g = Inr c" shows "proper (bs_bars s)"
proof -
  from assms have "coverage_for (bs_query s) (bs_bars s) (source_name (bs_coverage s)) = Inr c"
    "cr_duplicate_timestamps c = []" "cr_status c \<noteq> ''unordered''" "\<not> list_ex (\<lambda>b. \<not> b_closed b) (bs_bars s)"
    by (auto simp: validate_def res_bind_Inr_iff io_iff split: if_splits)
  with coverage_ordered [OF this(1-3)] show ?thesis by (simp add: proper_def list_ex_iff)
qed

lemma complete_under_ok [io_iff]:
  "complete_under M q s = Inr s' \<longleftrightarrow> s' = s \<and> (q_gap_policy q = ''fail'' \<longrightarrow> mk_is_complete M (bs_coverage s))"
  by (auto simp: complete_under_def require_complete_def)

lemma save_cache_ok [io_iff]: "save_cache M s w = (Inr u, w') \<longleftrightarrow> w' = snd (save_cache M s w)"
  by (auto simp: save_cache_def)

lemma load_storage_ok:
  assumes "load_storage M q need w = (Inr s, w')"
  shows "proper (bs_bars s) \<and> (need \<longrightarrow> mk_is_complete M (bs_coverage s))"
  using assms validate_proper
  by (auto simp: load_storage_def io_iff require_complete_def split: if_splits)

lemma load_provider_ok:
  assumes "load_provider M q w = (Inr s, w')" shows "proper (bs_bars s)"
  using assms validate_proper by (auto simp: load_provider_def io_iff split: option.splits)

lemma load_cache_ok:
  assumes "load_cache M q w = (Inr (Some s), w')"
  shows "proper (bs_bars s) \<and> (q_gap_policy q = ''fail'' \<longrightarrow> mk_is_complete M (bs_coverage s))"
proof -
  from assms obtain g c where "validate s g = Inr c" "complete_under M q s = Inr s"
    by (auto simp: load_cache_def io_iff Let_def split: if_splits option.splits)
  with validate_proper show ?thesis by (auto simp: io_iff)
qed

lemma fetch_intervals_closed:
  "fetch_intervals M q ivs w = (Inr bars, w') \<Longrightarrow> \<forall>b \<in> set bars. b_closed b"
proof (induction ivs arbitrary: w bars)
  case (Cons iv ivs)
  from Cons.prems obtain s w1 bars1 where "load_provider M (missing_query q iv) w = (Inr s, w1)"
    "fetch_intervals M q ivs w1 = (Inr bars1, w')" "bars = bs_bars s @ bars1" by (auto simp: io_iff)
  with Cons.IH load_provider_ok show ?case by (fastforce simp: proper_def)
qed (simp add: io_iff)

subsection \<open>Merging\<close>

definition by_time :: "bar list \<Rightarrow> (int \<times> bar) list \<Rightarrow> (int \<times> bar) list" where
  "by_time bars d = fold (\<lambda>b d. AList.update (b_time b) b d) bars d"

lemma by_time_keys:
  "(\<forall>(k, b) \<in> set d. k = b_time b) \<and> distinct (map fst d) \<Longrightarrow>
   (\<forall>(k, b) \<in> set (by_time bars d). k = b_time b) \<and> distinct (map fst (by_time bars d))"
proof (induction bars arbitrary: d)
  case (Cons b bars)
  have "(\<forall>(k, x) \<in> set (AList.update (b_time b) b d). k = b_time x) \<and> distinct (map fst (AList.update (b_time b) b d))"
    using Cons.prems by (auto simp: set_update_distinct distinct_update)
  from Cons.IH [OF this] show ?case by (simp add: by_time_def)
qed (simp add: by_time_def)

lemma by_time_map_of: "map_of (by_time bars d) t = (case find (\<lambda>b. b_time b = t) (rev bars) of Some b \<Rightarrow> Some b | None \<Rightarrow> map_of d t)"
proof (induction bars rule: rev_induct)
  case (snoc b bars)
  have "by_time (bars @ [b]) d = AList.update (b_time b) b (by_time bars d)" by (simp add: by_time_def)
  then show ?case using snoc by (simp add: update_conv')
qed (simp add: by_time_def)

lemma merge_bars_sorted: "sorted_wrt (<) (map b_time (merge_bars st pr))"
proof -
  have k: "(\<forall>(k, b) \<in> set (by_time (st @ pr) []). k = b_time b) \<and> distinct (map fst (by_time (st @ pr) []))"
    by (rule by_time_keys) simp
  then have "map b_time (map snd (by_time (st @ pr) [])) = map fst (by_time (st @ pr) [])" by auto
  with k have "distinct (map b_time (map snd (by_time (st @ pr) [])))" by metis
  then have "distinct (map b_time (merge_bars st pr))"
    unfolding merge_bars_def by_time_def [symmetric] by (metis distinct_map distinct_sort set_sort)
  then show ?thesis unfolding strict_sorted_iff by (simp add: merge_bars_def)
qed

lemma merge_bars_mem: "b \<in> set (merge_bars st pr) \<longleftrightarrow> find (\<lambda>x. b_time x = b_time b) (rev (st @ pr)) = Some b"
proof -
  have k: "(\<forall>(k, b) \<in> set (by_time (st @ pr) []). k = b_time b) \<and> distinct (map fst (by_time (st @ pr) []))"
    by (rule by_time_keys) simp
  have "b \<in> set (merge_bars st pr) \<longleftrightarrow> (b_time b, b) \<in> set (by_time (st @ pr) [])"
    unfolding merge_bars_def by_time_def [symmetric] using k by force
  also have "... \<longleftrightarrow> map_of (by_time (st @ pr) []) (b_time b) = Some b" using k by (simp add: map_of_eq_Some_iff)
  finally show ?thesis by (simp add: by_time_map_of split: option.splits)
qed

lemma find_rev_distinct:
  "distinct (map b_time xs) \<Longrightarrow> find (\<lambda>x. b_time x = t) (rev xs) = Some b \<longleftrightarrow> b \<in> set xs \<and> b_time b = t"
  by (subst find_unique) (simp_all add: rev_map [symmetric])

text \<open>Merging prefers the provider: when neither side repeats a bar time, the merged bars are the
  provider's bars together with the stored bars at other times, in strictly increasing time order.\<close>

theorem merge_provider_wins:
  assumes "distinct (map b_time st)" and "distinct (map b_time pr)"
  shows "set (merge_bars st pr) = set pr \<union> {b \<in> set st. b_time b \<notin> b_time ` set pr} \<and>
    sorted_wrt (<) (map b_time (merge_bars st pr))"
proof (intro conjI set_eqI merge_bars_sorted)
  fix b :: bar
  have fa: "find P (xs @ ys) = (case find P xs of Some x \<Rightarrow> Some x | None \<Rightarrow> find P ys)" for P xs and ys :: "bar list"
    by (induction xs) simp_all
  have p: "find (\<lambda>x. b_time x = b_time b) (rev pr) = Some c \<longleftrightarrow> c \<in> set pr \<and> b_time c = b_time b" for c
    by (rule find_rev_distinct [OF assms(2)])
  have n: "find (\<lambda>x. b_time x = b_time b) (rev pr) = None \<longleftrightarrow> b_time b \<notin> b_time ` set pr"
    by (auto simp: find_None_iff image_iff)
  show "b \<in> set (merge_bars st pr) \<longleftrightarrow> b \<in> set pr \<union> {b \<in> set st. b_time b \<notin> b_time ` set pr}"
  proof (cases "find (\<lambda>x. b_time x = b_time b) (rev pr)")
    case None
    with n find_rev_distinct [OF assms(1), of "b_time b" b] show ?thesis
      unfolding merge_bars_mem rev_append fa by (auto simp: image_iff)
  next
    case (Some c)
    with p have c: "c \<in> set pr" "b_time c = b_time b" by blast+
    then have "b_time b \<in> b_time ` set pr" by (metis imageI)
    moreover have "b \<in> set pr \<longleftrightarrow> c = b" using Some p [of b] by auto
    ultimately show ?thesis unfolding merge_bars_mem rev_append fa using Some by auto
  qed
qed

theorem merge_provider_wins_witness:
  "(sample_bar 60)\<lparr>b_close := Fin 9\<rparr> \<in> set (merge_bars [sample_bar 0, sample_bar 60] [(sample_bar 60)\<lparr>b_close := Fin 9\<rparr>]) \<and>
   sample_bar 0 \<in> set (merge_bars [sample_bar 0, sample_bar 60] [(sample_bar 60)\<lparr>b_close := Fin 9\<rparr>])"
proof -
  have t: "b_time (sample_bar x) = x" for x by (simp add: sample_bar_def)
  have "distinct (map b_time [sample_bar 0, sample_bar 60])"
    "distinct (map b_time [(sample_bar 60)\<lparr>b_close := Fin 9\<rparr>])" by (simp_all add: t)
  from conjunct1 [OF merge_provider_wins [OF this]] show ?thesis by (simp add: t)
qed

subsection \<open>Loading\<close>

lemma merge_series_ok:
  assumes "merge_series q st pr = Inr s" and "\<forall>b \<in> set (bs_bars st). b_closed b" and "\<forall>b \<in> set (bs_bars pr). b_closed b"
  shows "proper (bs_bars s)"
proof -
  have s: "bs_bars s = merge_bars (bs_bars st) (bs_bars pr)"
    using assms(1) by (auto simp: merge_series_def Let_def res_bind_Inr_iff)
  have "b_closed b" if "b \<in> set (merge_bars (bs_bars st) (bs_bars pr))" for b
  proof -
    have "b \<in> set (rev (bs_bars st @ bs_bars pr))" using that unfolding merge_bars_mem by (metis find_Some_iff nth_mem)
    with assms(2,3) show ?thesis by auto
  qed
  with merge_bars_sorted show ?thesis unfolding proper_def s by blast
qed

lemma load_auto_ok:
  assumes "load_auto M q w = (Inr s, w')"
  shows "proper (bs_bars s) \<and> (q_gap_policy q = ''fail'' \<longrightarrow> mk_is_complete M (bs_coverage s))"
proof -
  from assms obtain st w1 where st: "load_storage M q False w = (Inr st, w1)" and rest:
    "s = st \<and> mk_is_complete M (bs_coverage st) \<or>
     (\<exists>pr w2 m. load_missing_from_provider M q (cr_missing_intervals (bs_coverage st)) w1 = (Inr pr, w2) \<and>
        merge_series q st pr = Inr s \<and> complete_under M q s = Inr s)"
    by (auto simp: load_auto_def io_iff split: if_splits)
  note ps = conjunct1 [OF load_storage_ok [OF st]]
  from rest show ?thesis
  proof
    assume "s = st \<and> mk_is_complete M (bs_coverage st)"
    with ps show ?thesis by simp
  next
    assume "\<exists>pr w2 m. load_missing_from_provider M q (cr_missing_intervals (bs_coverage st)) w1 = (Inr pr, w2) \<and>
        merge_series q st pr = Inr s \<and> complete_under M q s = Inr s"
    then obtain pr w2 where lm: "load_missing_from_provider M q (cr_missing_intervals (bs_coverage st)) w1 = (Inr pr, w2)"
      and m: "merge_series q st pr = Inr s" "complete_under M q s = Inr s" by blast
    from lm obtain fetched where f: "fetch_intervals M q (coalesce_intervals (cr_missing_intervals (bs_coverage st))) w1 =
        (Inr fetched, w2)" "bs_bars pr = sort_key b_time fetched"
      by (auto simp: load_missing_from_provider_def io_iff Let_def)
    have "\<forall>b \<in> set (bs_bars pr). b_closed b" using fetch_intervals_closed [OF f(1)] by (simp add: f(2))
    with merge_series_ok [OF m(1)] ps m(2) show ?thesis by (simp add: proper_def io_iff)
  qed
qed

lemma load_bars_ok:
  assumes "load_bars M q w = (Inr s, w')"
  shows "proper (bs_bars s) \<and> (q_gap_policy q = ''fail'' \<longrightarrow> mk_is_complete M (bs_coverage s))"
proof (cases "q_source q = ''storage''")
  case True
  then show ?thesis using assms load_storage_ok by (simp add: load_bars_def)
next
  case False
  with assms obtain cached w1 where c: "load_cache M q w = (Inr cached, w1)" and
    r: "(case cached of Some s \<Rightarrow> io_return s
      | None \<Rightarrow>
          if q_source q = ''provider''
          then io_bind (load_provider M q) (\<lambda>s.
               io_bind (io_of (complete_under M q s)) (\<lambda>s.
               io_bind (save_cache M s) (\<lambda>_. io_return s)))
          else if q_source q \<noteq> ''auto'' then io_raise (UnsupportedSource (q_source q))
          else load_auto M q) w1 = (Inr s, w')"
    by (auto simp: load_bars_def io_ok_iff(4))
  show ?thesis
  proof (cases cached)
    case None
    with r load_provider_ok load_auto_ok show ?thesis by (fastforce simp: io_iff split: if_splits)
  next
    case (Some t)
    with c r load_cache_ok show ?thesis by (fastforce simp: io_iff)
  qed
qed

text \<open>C23: loading fails closed: whatever the store, the provider and the cache do, and whichever source
  the query names, bars that \<open>load_bars\<close> returns have strictly increasing times and are all closed, and
  under \<open>gap_policy = "fail"\<close> they come with a coverage report that is complete; in every other case an
  error is raised.\<close>

theorem load_bars_fail_closed:
  assumes "load_bars M q w = (Inr s, w')"
  shows "sorted_wrt (<) (map b_time (bs_bars s)) \<and> (\<forall>b \<in> set (bs_bars s). b_closed b) \<and>
    (q_gap_policy q = ''fail'' \<longrightarrow> mk_is_complete M (bs_coverage s))"
  using load_bars_ok [OF assms] by (simp add: proper_def)

definition sample_market :: "unit market" where
  "sample_market = \<lparr>mk_is_complete = \<lambda>c. cr_status c = ''valid'', mk_serialize = ik_symbol,
     mk_valid = \<lambda>_ _. True, mk_hash_ok = \<lambda>_ _. True,
     mk_read = \<lambda>q w. (Inr (SeriesPayload \<lparr>bs_query = q, bs_bars = [sample_bar 0],
        bs_coverage = (empty_coverage q ''storage'')\<lparr>cr_missing_intervals := [(60, 120), (120, 150)]\<rparr>,
        bs_snapshot = None\<rparr>), w),
     mk_write = \<lambda>_ w. (Inr \<lparr>sr_success = True, sr_manifest_id = None\<rparr>, w),
     mk_fetch = Some (\<lambda>q w. (Inr (SeriesPayload \<lparr>bs_query = q, bs_bars = [sample_bar 60, sample_bar 120],
        bs_coverage = (empty_coverage q ''provider'')\<lparr>cr_status := ''valid''\<rparr>, bs_snapshot = None\<rparr>), w)),
     mk_persists = False, mk_cache_read = \<lambda>_ w. (Inr None, w), mk_cache_write = \<lambda>_ w. w,
     mk_cache_enabled = True\<rparr>"

theorem load_bars_fail_closed_witness:
  "\<exists>s. load_bars sample_market sample_query () = (Inr s, ()) \<and> map b_time (bs_bars s) = [0, 60, 120] \<and>
    mk_is_complete sample_market (bs_coverage s)"
proof -
  have "map_prod (map_sum id (map b_time \<circ> bs_bars)) id (load_bars sample_market sample_query ()) = (Inr [0, 60, 120], ())"
    by code_simp
  then obtain s where s: "load_bars sample_market sample_query () = (Inr s, ())" "map b_time (bs_bars s) = [0, 60, 120]"
    by (cases "load_bars sample_market sample_query ()"; cases "fst (load_bars sample_market sample_query ())") auto
  from load_bars_fail_closed [OF s(1)] s show ?thesis by (simp add: sample_query_def)
qed

end
