(* ===== verification/Flights.thy ===== *)
theory Flights
  imports MarketData
begin

text \<open>
  Sharing of provider requests between threads: \<open>DataOrchestrator._load_provider\<close>
  (\<^verbatim>\<open>openpine/data/orchestrator.py\<close>). Every block under \<open>_provider_flights_guard\<close> is one step, as are
  the provider call, the completion of a future and the return of \<open>future.result()\<close>; threads
  interleave arbitrarily and a finished caller may call again. \<open>fl_log\<close> records what the provider
  answered to which query; no step reads it.
\<close>

subsection \<open>States and steps\<close>

definition provider_series_key :: "bar_query \<Rightarrow> string \<times> string \<times> string \<times> string" where
  "provider_series_key q = (ik_exchange (q_instrument q), ik_market (q_instrument q), ik_symbol (q_instrument q),
     tf_canonical (q_timeframe q))"

record 'r flight =
  fl_query :: bar_query
  fl_outcome :: "'r option"

text \<open>Where a caller is: before the lookup, in the provider call it owns, about to remove its flight,
  about to complete its future, waiting for the same query, waiting for another range, returned.\<close>

datatype 'r pc =
    Looking bar_query
  | Own nat bar_query
  | Fetched nat bar_query 'r
  | Removed nat bar_query 'r
  | Joining nat bar_query
  | Awaiting nat bar_query
  | Returned bar_query 'r

record 'r flights =
  fl_table :: "((string \<times> string \<times> string \<times> string) \<times> nat) list"
  fl_flights :: "'r flight list"
  fl_pc :: "nat \<Rightarrow> 'r pc"
  fl_log :: "(bar_query \<times> 'r) list"

definition remove_flight :: "nat \<Rightarrow> bar_query \<Rightarrow> 'r flights \<Rightarrow> 'r flights" where
  "remove_flight f q s =
     (if map_of (fl_table s) (provider_series_key q) = Some f
      then s\<lparr>fl_table := AList.delete (provider_series_key q) (fl_table s)\<rparr> else s)"

definition set_outcome :: "nat \<Rightarrow> 'r \<Rightarrow> 'r flights \<Rightarrow> 'r flights" where
  "set_outcome f r s = s\<lparr>fl_flights := (fl_flights s)[f := (fl_flights s ! f)\<lparr>fl_outcome := Some r\<rparr>]\<rparr>"

definition go :: "nat \<Rightarrow> 'r pc \<Rightarrow> 'r flights \<Rightarrow> 'r flights" where
  "go t c s = s\<lparr>fl_pc := (fl_pc s)(t := c)\<rparr>"

inductive flight_step :: "'r flights \<Rightarrow> 'r flights \<Rightarrow> bool" where
  own: "fl_pc s t = Looking q \<Longrightarrow> map_of (fl_table s) (provider_series_key q) = None \<Longrightarrow>
    flight_step s (go t (Own (length (fl_flights s)) q)
      (s\<lparr>fl_flights := fl_flights s @ [\<lparr>fl_query = q, fl_outcome = None\<rparr>],
         fl_table := AList.update (provider_series_key q) (length (fl_flights s)) (fl_table s)\<rparr>))"
| join: "fl_pc s t = Looking q \<Longrightarrow> map_of (fl_table s) (provider_series_key q) = Some f \<Longrightarrow>
    fl_query (fl_flights s ! f) = q \<Longrightarrow> flight_step s (go t (Joining f q) s)"
| await: "fl_pc s t = Looking q \<Longrightarrow> map_of (fl_table s) (provider_series_key q) = Some f \<Longrightarrow>
    fl_query (fl_flights s ! f) \<noteq> q \<Longrightarrow> flight_step s (go t (Awaiting f q) s)"
| fetch: "fl_pc s t = Own f q \<Longrightarrow>
    flight_step s (go t (Fetched f q r) (s\<lparr>fl_log := fl_log s @ [(q, r)]\<rparr>))"
| remove: "fl_pc s t = Fetched f q r \<Longrightarrow> flight_step s (go t (Removed f q r) (remove_flight f q s))"
| complete: "fl_pc s t = Removed f q r \<Longrightarrow> flight_step s (go t (Returned q r) (set_outcome f r s))"
| joined: "fl_pc s t = Joining f q \<Longrightarrow> fl_outcome (fl_flights s ! f) = Some r \<Longrightarrow>
    flight_step s (go t (Returned q r) s)"
| retry: "fl_pc s t = Awaiting f q \<Longrightarrow> fl_outcome (fl_flights s ! f) \<noteq> None \<Longrightarrow>
    flight_step s (go t (Looking q) s)"
| call: "fl_pc s t = Returned q r \<Longrightarrow> flight_step s (go t (Looking q') s)"

definition flights_init :: "(nat \<Rightarrow> bar_query) \<Rightarrow> 'r flights" where
  "flights_init qs = \<lparr>fl_table = [], fl_flights = [], fl_pc = \<lambda>t. Looking (qs t), fl_log = []\<rparr>"

subsection \<open>The invariant\<close>

fun owns :: "'r pc \<Rightarrow> (nat \<times> bar_query \<times> bool) option" where
  "owns (Own f q) = Some (f, q, True)"
| "owns (Fetched f q r) = Some (f, q, True)"
| "owns (Removed f q r) = Some (f, q, False)"
| "owns _ = None"

text \<open>An owner's flight is its own, pending, and registered until it is removed; registered flights
  have an owner; a pending flight has exactly one.\<close>

definition owners_ok :: "'r flights \<Rightarrow> bool" where
  "owners_ok s \<longleftrightarrow>
     (\<forall>t f q b. owns (fl_pc s t) = Some (f, q, b) \<longrightarrow> f < length (fl_flights s) \<and>
        fl_query (fl_flights s ! f) = q \<and> fl_outcome (fl_flights s ! f) = None \<and>
        (b \<longrightarrow> map_of (fl_table s) (provider_series_key q) = Some f)) \<and>
     (\<forall>k f. map_of (fl_table s) k = Some f \<longrightarrow> (\<exists>t q. owns (fl_pc s t) = Some (f, q, True) \<and> provider_series_key q = k)) \<and>
     (\<forall>f < length (fl_flights s). fl_outcome (fl_flights s ! f) = None \<longrightarrow> (\<exists>t q b. owns (fl_pc s t) = Some (f, q, b))) \<and>
     (\<forall>t t' f q q' b b'. owns (fl_pc s t) = Some (f, q, b) \<longrightarrow> owns (fl_pc s t') = Some (f, q', b') \<longrightarrow> t = t')"

text \<open>A caller waits for an existing flight, and every result is one the provider gave to that query.\<close>

fun pc_ok :: "'r flights \<Rightarrow> 'r pc \<Rightarrow> bool" where
  "pc_ok s (Joining f q) \<longleftrightarrow> f < length (fl_flights s) \<and> fl_query (fl_flights s ! f) = q"
| "pc_ok s (Awaiting f q) \<longleftrightarrow> f < length (fl_flights s)"
| "pc_ok s (Fetched f q r) \<longleftrightarrow> (q, r) \<in> set (fl_log s)"
| "pc_ok s (Removed f q r) \<longleftrightarrow> (q, r) \<in> set (fl_log s)"
| "pc_ok s (Returned q r) \<longleftrightarrow> (q, r) \<in> set (fl_log s)"
| "pc_ok s _ \<longleftrightarrow> True"

definition outcomes_ok :: "'r flights \<Rightarrow> bool" where
  "outcomes_ok s \<longleftrightarrow> (\<forall>f < length (fl_flights s). \<forall>r. fl_outcome (fl_flights s ! f) = Some r \<longrightarrow>
     (fl_query (fl_flights s ! f), r) \<in> set (fl_log s))"

definition results_ok :: "'r flights \<Rightarrow> bool" where
  "results_ok s \<longleftrightarrow> (\<forall>t. pc_ok s (fl_pc s t)) \<and> outcomes_ok s"

lemma go_simps [simp]:
  "fl_pc (go t c s) = (fl_pc s)(t := c)" "fl_table (go t c s) = fl_table s"
  "fl_flights (go t c s) = fl_flights s" "fl_log (go t c s) = fl_log s"
  by (simp_all add: go_def)

lemma remove_flight_simps [simp]:
  "fl_flights (remove_flight f q s) = fl_flights s" "fl_pc (remove_flight f q s) = fl_pc s"
  "fl_log (remove_flight f q s) = fl_log s"
  by (simp_all add: remove_flight_def)

lemma set_outcome_simps [simp]:
  "fl_table (set_outcome f r s) = fl_table s" "fl_pc (set_outcome f r s) = fl_pc s"
  "fl_log (set_outcome f r s) = fl_log s"
  "fl_flights (set_outcome f r s) = (fl_flights s)[f := (fl_flights s ! f)\<lparr>fl_outcome := Some r\<rparr>]"
  by (simp_all add: set_outcome_def)

lemma owners_okD:
  assumes "owners_ok s"
  shows "owns (fl_pc s t) = Some (f, q, b) \<Longrightarrow> f < length (fl_flights s)"
    and "owns (fl_pc s t) = Some (f, q, b) \<Longrightarrow> fl_query (fl_flights s ! f) = q"
    and "owns (fl_pc s t) = Some (f, q, b) \<Longrightarrow> fl_outcome (fl_flights s ! f) = None"
    and "owns (fl_pc s t) = Some (f, q, True) \<Longrightarrow> map_of (fl_table s) (provider_series_key q) = Some f"
    and "map_of (fl_table s) k = Some f \<Longrightarrow> \<exists>t q. owns (fl_pc s t) = Some (f, q, True) \<and> provider_series_key q = k"
    and "f < length (fl_flights s) \<Longrightarrow> fl_outcome (fl_flights s ! f) = None \<Longrightarrow> \<exists>t q b. owns (fl_pc s t) = Some (f, q, b)"
    and "owns (fl_pc s t) = Some (f, q, b) \<Longrightarrow> owns (fl_pc s t') = Some (f, q', b') \<Longrightarrow> t = t'"
  using assms unfolding owners_ok_def by blast+

lemma owners_ok_same:
  assumes "owners_ok s" and "\<And>u. owns (fl_pc s' u) = owns (fl_pc s u)" and "fl_table s' = fl_table s"
    and "fl_flights s' = fl_flights s"
  shows "owners_ok s'"
  using assms(1) unfolding owners_ok_def assms(2-4) .

lemma owners_ok_own:
  assumes ok: "owners_ok s" and pc: "fl_pc s t = Looking q" and none: "map_of (fl_table s) (provider_series_key q) = None"
  shows "owners_ok (go t (Own (length (fl_flights s)) q)
      (s\<lparr>fl_flights := fl_flights s @ [\<lparr>fl_query = q, fl_outcome = None\<rparr>],
         fl_table := AList.update (provider_series_key q) (length (fl_flights s)) (fl_table s)\<rparr>))"
   
proof -
  let ?s = "go t (Own (length (fl_flights s)) q)
      (s\<lparr>fl_flights := fl_flights s @ [\<lparr>fl_query = q, fl_outcome = None\<rparr>],
         fl_table := AList.update (provider_series_key q) (length (fl_flights s)) (fl_table s)\<rparr>)"
  let ?n = "length (fl_flights s)"
  have o: "owns (fl_pc ?s u) = (if u = t then Some (?n, q, True) else owns (fl_pc s u))" for u by simp
  have lt: "f < ?n" if "owns (fl_pc s u) = Some (f, p, b)" for u f p b using owners_okD(1) [OF ok that] .
  have t: "owns (fl_pc s t) = None" by (simp add: pc)
  show ?thesis unfolding owners_ok_def
  proof (intro conjI allI impI)
    fix u f p b
    assume "owns (fl_pc ?s u) = Some (f, p, b)"
    then consider "u = t" "f = ?n" "p = q" "b" | "owns (fl_pc s u) = Some (f, p, b)" by (auto simp: o split: if_splits)
    then show "f < length (fl_flights ?s)" "fl_query (fl_flights ?s ! f) = p" "fl_outcome (fl_flights ?s ! f) = None"
      using lt owners_okD(2,3) [OF ok] by (cases; fastforce simp: nth_append)+
  next
    fix u f p b
    assume "owns (fl_pc ?s u) = Some (f, p, b)" and b: b
    then consider "f = ?n" "p = q" | "owns (fl_pc s u) = Some (f, p, True)" by (auto simp: o split: if_splits)
    then show "map_of (fl_table ?s) (provider_series_key p) = Some f"
    proof cases
      case 2
      with owners_okD(4) [OF ok 2] none have "provider_series_key p \<noteq> provider_series_key q" by auto
      with owners_okD(4) [OF ok 2] show ?thesis by (simp add: update_conv')
    qed (simp add: update_conv')
  next
    fix k f
    assume "map_of (fl_table ?s) k = Some f"
    then consider "k = provider_series_key q" "f = ?n" | "map_of (fl_table s) k = Some f"
      by (cases "k = provider_series_key q") (simp_all add: update_conv')
    then show "\<exists>u p. owns (fl_pc ?s u) = Some (f, p, True) \<and> provider_series_key p = k"
    proof cases
      case 1
      then show ?thesis using o [of t] by auto
    next
      case 2
      from owners_okD(5) [OF ok 2] obtain u p where u: "owns (fl_pc s u) = Some (f, p, True)" "provider_series_key p = k" by blast
      with t have "u \<noteq> t" by auto
      with u o show ?thesis by auto
    qed
  next
    fix f
    assume f: "f < length (fl_flights ?s)" "fl_outcome (fl_flights ?s ! f) = None"
    show "\<exists>u p b. owns (fl_pc ?s u) = Some (f, p, b)"
    proof (cases "f = ?n")
      case True
      then show ?thesis using o [of t] by auto
    next
      case False
      with f have "f < ?n" "fl_outcome (fl_flights s ! f) = None" by (auto simp: nth_append)
      from owners_okD(6) [OF ok this] obtain u p b where u: "owns (fl_pc s u) = Some (f, p, b)" by blast
      with t have "u \<noteq> t" by auto
      with u o show ?thesis by auto
    qed
  next
    fix u u' f p p' b b'
    assume "owns (fl_pc ?s u) = Some (f, p, b)" "owns (fl_pc ?s u') = Some (f, p', b')"
    then show "u = u'" using lt owners_okD(7) [OF ok] unfolding o by (auto split: if_splits)
  qed
qed

lemma owners_ok_remove:
  assumes ok: "owners_ok s" and pc: "fl_pc s t = Fetched f q r"
  shows "owners_ok (go t (Removed f q r) (remove_flight f q s))"
proof -
  let ?s = "go t (Removed f q r) (remove_flight f q s)"
  have mine: "owns (fl_pc s t) = Some (f, q, True)" by (simp add: pc)
  have tb: "fl_table ?s = AList.delete (provider_series_key q) (fl_table s)"
    using owners_okD(4) [OF ok mine] by (simp add: remove_flight_def)
  have o: "owns (fl_pc ?s u) = (if u = t then Some (f, q, False) else owns (fl_pc s u))" for u by simp
  show ?thesis unfolding owners_ok_def
  proof (intro conjI allI impI)
    fix u g p b
    assume "owns (fl_pc ?s u) = Some (g, p, b)"
    then obtain b' where "owns (fl_pc s u) = Some (g, p, b')" by (auto simp: o mine split: if_splits)
    with owners_okD(1-3) [OF ok this] show "g < length (fl_flights ?s)" "fl_query (fl_flights ?s ! g) = p"
      "fl_outcome (fl_flights ?s ! g) = None" by simp_all
  next
    fix u g p b
    assume a: "owns (fl_pc ?s u) = Some (g, p, b)" and b: b
    then have u: "u \<noteq> t" "owns (fl_pc s u) = Some (g, p, True)" by (auto simp: o split: if_splits)
    have "provider_series_key p \<noteq> provider_series_key q"
    proof
      assume e: "provider_series_key p = provider_series_key q"
      with owners_okD(4) [OF ok mine] owners_okD(4) [OF ok u(2)] have "g = f" by simp
      with owners_okD(7) [OF ok mine] u show False by blast
    qed
    with owners_okD(4) [OF ok u(2)] show "map_of (fl_table ?s) (provider_series_key p) = Some g"
      unfolding tb by (simp add: delete_conv')
  next
    fix k g
    assume "map_of (fl_table ?s) k = Some g"
    then have k: "k \<noteq> provider_series_key q" "map_of (fl_table s) k = Some g"
      unfolding tb by (auto simp: delete_conv' split: if_splits)
    from owners_okD(5) [OF ok k(2)] obtain u p where u: "owns (fl_pc s u) = Some (g, p, True)" "provider_series_key p = k" by blast
    with mine k(1) have "u \<noteq> t" by auto
    with u o show "\<exists>u p. owns (fl_pc ?s u) = Some (g, p, True) \<and> provider_series_key p = k" by auto
  next
    fix g
    assume "g < length (fl_flights ?s)" "fl_outcome (fl_flights ?s ! g) = None"
    then have "g < length (fl_flights s)" "fl_outcome (fl_flights s ! g) = None" by simp_all
    from owners_okD(6) [OF ok this] obtain u p b where "owns (fl_pc s u) = Some (g, p, b)" by blast
    with o mine show "\<exists>u p b. owns (fl_pc ?s u) = Some (g, p, b)" by (cases "u = t") auto
  next
    fix u u' g p p' b b'
    assume "owns (fl_pc ?s u) = Some (g, p, b)" "owns (fl_pc ?s u') = Some (g, p', b')"
    then obtain c c' where "owns (fl_pc s u) = Some (g, p, c)" "owns (fl_pc s u') = Some (g, p', c')"
      by (auto simp: o mine split: if_splits)
    then show "u = u'" by (rule owners_okD(7) [OF ok])
  qed
qed

lemma owners_ok_complete:
  assumes ok: "owners_ok s" and pc: "fl_pc s t = Removed f q r"
  shows "owners_ok (go t (Returned q r) (set_outcome f r s))"
proof -
  let ?s = "go t (Returned q r) (set_outcome f r s)"
  have mine: "owns (fl_pc s t) = Some (f, q, False)" by (simp add: pc)
  have f: "f < length (fl_flights s)" using owners_okD(1) [OF ok mine] .
  have o: "owns (fl_pc ?s u) = (if u = t then None else owns (fl_pc s u))" for u by simp
  have other: "g \<noteq> f" if "u \<noteq> t" "owns (fl_pc s u) = Some (g, p, b)" for u g p b
    using owners_okD(7) [OF ok mine] that by blast
  have fl: "fl_flights ?s ! g = (if g = f then (fl_flights s ! f)\<lparr>fl_outcome := Some r\<rparr> else fl_flights s ! g)" for g
    using f by simp
  show ?thesis unfolding owners_ok_def
  proof (intro conjI allI impI)
    fix u g p b
    assume "owns (fl_pc ?s u) = Some (g, p, b)"
    then have u: "u \<noteq> t" "owns (fl_pc s u) = Some (g, p, b)" by (auto simp: o split: if_splits)
    with owners_okD(1-3) [OF ok u(2)] other [OF u] show "g < length (fl_flights ?s)" "fl_query (fl_flights ?s ! g) = p"
      "fl_outcome (fl_flights ?s ! g) = None" unfolding fl by simp_all
  next
    fix u g p b
    assume "owns (fl_pc ?s u) = Some (g, p, b)" "b"
    then have "owns (fl_pc s u) = Some (g, p, True)" by (auto simp: o split: if_splits)
    then show "map_of (fl_table ?s) (provider_series_key p) = Some g" using owners_okD(4) [OF ok] by simp
  next
    fix k g
    assume "map_of (fl_table ?s) k = Some g"
    then have "map_of (fl_table s) k = Some g" by simp
    from owners_okD(5) [OF ok this] obtain u p where
      u: "owns (fl_pc s u) = Some (g, p, True)" "provider_series_key p = k" by blast
    with mine have "u \<noteq> t" by auto
    with u o show "\<exists>u p. owns (fl_pc ?s u) = Some (g, p, True) \<and> provider_series_key p = k" by auto
  next
    fix g
    assume g: "g < length (fl_flights ?s)" "fl_outcome (fl_flights ?s ! g) = None"
    then have "g \<noteq> f" unfolding fl by auto
    with g have "g < length (fl_flights s)" "fl_outcome (fl_flights s ! g) = None" by (simp_all add: fl)
    from owners_okD(6) [OF ok this] obtain u p b where u: "owns (fl_pc s u) = Some (g, p, b)" by blast
    with mine \<open>g \<noteq> f\<close> have "u \<noteq> t" by auto
    with u o show "\<exists>u p b. owns (fl_pc ?s u) = Some (g, p, b)" by auto
  next
    fix u u' g p p' b b'
    assume "owns (fl_pc ?s u) = Some (g, p, b)" "owns (fl_pc ?s u') = Some (g, p', b')"
    then show "u = u'" using owners_okD(7) [OF ok] by (auto simp: o split: if_splits)
  qed
qed

lemma owners_step: "flight_step s s' \<Longrightarrow> owners_ok s \<Longrightarrow> owners_ok s'"
proof (induction rule: flight_step.induct)
  case (own s t q)
  then show ?case by (intro owners_ok_own)
next
  case (remove s t f q r)
  then show ?case by (intro owners_ok_remove)
next
  case (complete s t f q r)
  then show ?case by (intro owners_ok_complete)
qed (erule owners_ok_same; simp)+

lemma pc_ok_mono:
  assumes "pc_ok s c" and "length (fl_flights s) \<le> length (fl_flights s')"
    and "\<And>f. f < length (fl_flights s) \<Longrightarrow> fl_query (fl_flights s' ! f) = fl_query (fl_flights s ! f)"
    and "set (fl_log s) \<subseteq> set (fl_log s')"
  shows "pc_ok s' c"
  using assms by (cases c) auto

lemma results_go:
  assumes r: "results_ok s" and c: "pc_ok s' c" and o: "outcomes_ok s'" and pc: "fl_pc s' = (fl_pc s)(t := c)"
    and m: "length (fl_flights s) \<le> length (fl_flights s')"
      "\<And>f. f < length (fl_flights s) \<Longrightarrow> fl_query (fl_flights s' ! f) = fl_query (fl_flights s ! f)"
      "set (fl_log s) \<subseteq> set (fl_log s')"
  shows "results_ok s'"
proof -
  have "pc_ok s' (fl_pc s' u)" for u
    using r c pc_ok_mono [OF _ m] by (simp add: pc results_ok_def)
  with o show ?thesis by (simp add: results_ok_def)
qed

lemma pc_okD: "results_ok s \<Longrightarrow> fl_pc s t = c \<Longrightarrow> pc_ok s c"
  by (auto simp: results_ok_def)

lemma outcomes_okI: "results_ok s \<Longrightarrow> outcomes_ok s"
  by (simp add: results_ok_def)

lemma registered_flight:
  "owners_ok s \<Longrightarrow> map_of (fl_table s) k = Some f \<Longrightarrow> f < length (fl_flights s)"
  using owners_okD(1,5) by blast

lemma results_step: "flight_step s s' \<Longrightarrow> owners_ok s \<Longrightarrow> results_ok s \<Longrightarrow> results_ok s'"
proof (induction rule: flight_step.induct)
  case (own s t q)
  show ?case
    by (rule results_go [OF own(4), where c = "Own (length (fl_flights s)) q"])
      (use outcomes_okI [OF own(4)] in \<open>auto simp: outcomes_ok_def nth_append\<close>)
next
  case (join s t q f)
  then show ?case
    using registered_flight [OF join(4) join(2)] outcomes_okI [OF join(5)]
    by (intro results_go [OF join(5), where c = "Joining f q"]) (simp_all add: outcomes_ok_def)
next
  case (await s t q f)
  then show ?case
    using registered_flight [OF await(4) await(2)] outcomes_okI [OF await(5)]
    by (intro results_go [OF await(5), where c = "Awaiting f q"]) (simp_all add: outcomes_ok_def)
next
  case (fetch s t f q r)
  show ?case
    by (rule results_go [OF fetch(3), where c = "Fetched f q r"])
      (use outcomes_okI [OF fetch(3)] in \<open>auto simp: outcomes_ok_def\<close>)
next
  case (remove s t f q r)
  show ?case
    by (rule results_go [OF remove(3), where c = "Removed f q r"])
      (use outcomes_okI [OF remove(3)] pc_okD [OF remove(3,1)] in \<open>auto simp: outcomes_ok_def\<close>)
next
  case (complete s t f q r)
  have f: "f < length (fl_flights s)" "fl_query (fl_flights s ! f) = q"
    using owners_okD(1,2) [OF complete(2), of t f q False] complete(1) by simp_all
  show ?case
    by (rule results_go [OF complete(3), where c = "Returned q r"])
      (use outcomes_okI [OF complete(3)] pc_okD [OF complete(3,1)] f in \<open>auto simp: outcomes_ok_def nth_list_update\<close>)
next
  case (joined s t f q r)
  from pc_okD [OF joined(4,1)] outcomes_okI [OF joined(4)] joined(2) have "(q, r) \<in> set (fl_log s)"
    by (auto simp: outcomes_ok_def)
  then show ?case using outcomes_okI [OF joined(4)]
    by (intro results_go [OF joined(4), where c = "Returned q r"]) (simp_all add: outcomes_ok_def)
next
  case (retry s t f q)
  show ?case
    by (rule results_go [OF retry(4), where c = "Looking q"])
      (use outcomes_okI [OF retry(4)] in \<open>simp_all add: outcomes_ok_def\<close>)
next
  case (call s t q r q')
  show ?case
    by (rule results_go [OF call(3), where c = "Looking q'"])
      (use outcomes_okI [OF call(3)] in \<open>simp_all add: outcomes_ok_def\<close>)
qed

lemma flights_init_ok: "owners_ok (flights_init qs) \<and> results_ok (flights_init qs)"
  by (simp add: owners_ok_def results_ok_def outcomes_ok_def flights_init_def)

lemma flights_reachable:
  "flight_step\<^sup>*\<^sup>* (flights_init qs) s \<Longrightarrow> owners_ok s \<and> results_ok s"
  by (induction rule: rtranclp_induct) (use flights_init_ok owners_step results_step in blast)+

subsection \<open>Properties\<close>

text \<open>C24: at most one provider request per series is in flight: in every interleaving of any number of
  callers, two callers that are both in the provider call for queries of the same exchange, market,
  symbol and timeframe are the same caller, and whatever a caller returns is an answer the provider
  gave to exactly that caller's query.\<close>

theorem single_flight:
  assumes "flight_step\<^sup>*\<^sup>* (flights_init qs) s"
  shows "(fl_pc s t = Own f q \<and> fl_pc s t' = Own f' q' \<and> provider_series_key q = provider_series_key q' \<longrightarrow> t = t') \<and>
    (fl_pc s t = Returned q r \<longrightarrow> (q, r) \<in> set (fl_log s))"
proof (intro conjI impI)
  from flights_reachable [OF assms] have ok: "owners_ok s" and r: "results_ok s" by blast+
  show "t = t'" if "fl_pc s t = Own f q \<and> fl_pc s t' = Own f' q' \<and> provider_series_key q = provider_series_key q'"
  proof -
    have o: "owns (fl_pc s t) = Some (f, q, True)" "owns (fl_pc s t') = Some (f', q', True)" using that by simp_all
    with owners_okD(4) [OF ok o(1)] owners_okD(4) [OF ok o(2)] that have "f = f'" by simp
    with o owners_okD(7) [OF ok] show ?thesis by blast
  qed
  show "(q, r) \<in> set (fl_log s)" if "fl_pc s t = Returned q r"
    using pc_okD [OF r that] by simp
qed

text \<open>The owner of a flight can always finish on its own, which completes the flight and unregisters it.\<close>

lemma owner_finishes:
  assumes ok: "owners_ok s" and o: "owns (fl_pc s u) = Some (f, q, b)"
  obtains s' where "flight_step\<^sup>*\<^sup>* s s'" and "\<And>t. t \<noteq> u \<Longrightarrow> fl_pc s' t = fl_pc s t"
    and "\<exists>r. fl_pc s' u = Returned q r" and "fl_outcome (fl_flights s' ! f) \<noteq> None"
    and "b \<Longrightarrow> map_of (fl_table s') (provider_series_key q) = None"
proof -
  have fin: "\<exists>s'. flight_step\<^sup>*\<^sup>* x s' \<and> (\<forall>t. t \<noteq> u \<longrightarrow> fl_pc s' t = fl_pc x t) \<and> (\<exists>r. fl_pc s' u = Returned q r) \<and>
      fl_outcome (fl_flights s' ! f) \<noteq> None \<and> fl_table s' = fl_table x"
    if "fl_pc x u = Removed f q r" "f < length (fl_flights x)" for x :: "'a flights" and r
    by (rule exI [of _ "go u (Returned q r) (set_outcome f r x)"])
      (use flight_step.complete [OF that(1)] that(2) in auto)
  have rem: "\<exists>s'. flight_step\<^sup>*\<^sup>* x s' \<and> (\<forall>t. t \<noteq> u \<longrightarrow> fl_pc s' t = fl_pc x t) \<and> (\<exists>r. fl_pc s' u = Returned q r) \<and>
      fl_outcome (fl_flights s' ! f) \<noteq> None \<and> map_of (fl_table s') (provider_series_key q) = None"
    if "fl_pc x u = Fetched f q r" "f < length (fl_flights x)" "map_of (fl_table x) (provider_series_key q) = Some f"
    for x :: "'a flights" and r
  proof -
    let ?y = "go u (Removed f q r) (remove_flight f q x)"
    have y: "flight_step x ?y" by (rule flight_step.remove [OF that(1)])
    have tb: "map_of (fl_table ?y) (provider_series_key q) = None"
      using that(3) by (simp add: remove_flight_def delete_conv')
    have "fl_pc ?y u = Removed f q r" "f < length (fl_flights ?y)" using that(2) by simp_all
    from fin [OF this] obtain s' where s': "flight_step\<^sup>*\<^sup>* ?y s'" "\<forall>t. t \<noteq> u \<longrightarrow> fl_pc s' t = fl_pc ?y t"
      "\<exists>r. fl_pc s' u = Returned q r" "fl_outcome (fl_flights s' ! f) \<noteq> None" "fl_table s' = fl_table ?y" by blast
    have "\<forall>t. t \<noteq> u \<longrightarrow> fl_pc s' t = fl_pc x t" using s'(2) by simp
    moreover have "flight_step\<^sup>*\<^sup>* x s'" using y s'(1) by (rule converse_rtranclp_into_rtranclp)
    moreover have "map_of (fl_table s') (provider_series_key q) = None" unfolding s'(5) by (rule tb)
    ultimately show ?thesis using s'(3,4) by blast
  qed
  have f: "f < length (fl_flights s)" using owners_okD(1) [OF ok o] .
  consider r where "fl_pc s u = Removed f q r" "\<not> b" | r where "fl_pc s u = Fetched f q r" b | "fl_pc s u = Own f q" b
    using o by (cases "fl_pc s u") auto
  then show ?thesis
  proof cases
    case 1
    from fin [OF 1(1) f] that 1(2) show ?thesis by blast
  next
    case 2
    with owners_okD(4) [OF ok, of u f q] have "map_of (fl_table s) (provider_series_key q) = Some f" by simp
    from rem [OF 2(1) f this] that show ?thesis by blast
  next
    case 3
    fix r :: 'a
    let ?y = "go u (Fetched f q r) (s\<lparr>fl_log := fl_log s @ [(q, r)]\<rparr>)"
    have y: "flight_step s ?y" by (rule flight_step.fetch [OF 3(1)])
    have "fl_pc ?y u = Fetched f q r" "f < length (fl_flights ?y)"
      "map_of (fl_table ?y) (provider_series_key q) = Some f"
      using f owners_okD(4) [OF ok] o 3(2) by simp_all
    from rem [OF this] obtain s' where s': "flight_step\<^sup>*\<^sup>* ?y s'" "\<forall>t. t \<noteq> u \<longrightarrow> fl_pc s' t = fl_pc ?y t"
      "\<exists>r. fl_pc s' u = Returned q r" "fl_outcome (fl_flights s' ! f) \<noteq> None"
      "map_of (fl_table s') (provider_series_key q) = None" by blast
    have "flight_step\<^sup>*\<^sup>* s s'" using y s'(1) by (rule converse_rtranclp_into_rtranclp)
    moreover have "\<And>t. t \<noteq> u \<Longrightarrow> fl_pc s' t = fl_pc s t" using s'(2) by simp
    ultimately show ?thesis using s'(3-5) by (intro that) simp_all
  qed
qed

lemma owners_steps: "flight_step\<^sup>*\<^sup>* s s' \<Longrightarrow> owners_ok s \<Longrightarrow> owners_ok s'"
  by (induction rule: rtranclp_induct) (use owners_step in blast)+

fun pc_query :: "'r pc \<Rightarrow> bar_query" where
  "pc_query (Looking q) = q"
| "pc_query (Own f q) = q"
| "pc_query (Fetched f q r) = q"
| "pc_query (Removed f q r) = q"
| "pc_query (Joining f q) = q"
| "pc_query (Awaiting f q) = q"
| "pc_query (Returned q r) = q"

definition can_return :: "nat \<Rightarrow> bar_query \<Rightarrow> 'r flights \<Rightarrow> bool" where
  "can_return t q s \<longleftrightarrow> (\<exists>s' r. flight_step\<^sup>*\<^sup>* s s' \<and> fl_pc s' t = Returned q r)"

lemma can_return_steps: "flight_step\<^sup>*\<^sup>* s s' \<Longrightarrow> can_return t q s' \<Longrightarrow> can_return t q s"
  unfolding can_return_def by (meson rtranclp_trans)

lemma can_return_step: "flight_step s s' \<Longrightarrow> can_return t q s' \<Longrightarrow> can_return t q s"
  using can_return_steps r_into_rtranclp by metis

lemma can_return_owner:
  assumes "owners_ok s" and "owns (fl_pc s t) = Some (f, q, b)" shows "can_return t q s"
  by (rule owner_finishes [OF assms]) (auto simp: can_return_def)

lemma can_return_free:
  assumes ok: "owners_ok s" and pc: "fl_pc s t = Looking q" and none: "map_of (fl_table s) (provider_series_key q) = None"
  shows "can_return t q s"
proof (rule can_return_step [OF flight_step.own [OF pc none]])
  show "can_return t q (go t (Own (length (fl_flights s)) q)
      (s\<lparr>fl_flights := fl_flights s @ [\<lparr>fl_query = q, fl_outcome = None\<rparr>],
         fl_table := AList.update (provider_series_key q) (length (fl_flights s)) (fl_table s)\<rparr>))"
    by (rule can_return_owner [OF owners_ok_own [OF ok pc none], where b = True]) simp
qed

lemma can_return_looking:
  assumes ok: "owners_ok s" and pc: "fl_pc s t = Looking q" shows "can_return t q s"
proof (cases "map_of (fl_table s) (provider_series_key q)")
  case None
  then show ?thesis by (rule can_return_free [OF ok pc])
next
  case (Some f)
  from owners_okD(5) [OF ok this] obtain u p where u: "owns (fl_pc s u) = Some (f, p, True)"
    "provider_series_key p = provider_series_key q" by blast
  have "u \<noteq> t" using u(1) pc by auto
  obtain s' where s': "flight_step\<^sup>*\<^sup>* s s'" "fl_pc s' t = fl_pc s t"
    "map_of (fl_table s') (provider_series_key q) = None"
    by (rule owner_finishes [OF ok u(1)]) (use \<open>u \<noteq> t\<close> u(2) in auto)
  show ?thesis
    by (rule can_return_steps [OF s'(1)], rule can_return_free [OF owners_steps [OF s'(1) ok]])
      (use s'(2,3) pc in simp_all)
qed

text \<open>A flight someone waits for can be completed without moving the waiter.\<close>

lemma flight_completes:
  assumes ok: "owners_ok s" and f: "f < length (fl_flights s)" and t: "owns (fl_pc s t) = None"
  obtains s' where "flight_step\<^sup>*\<^sup>* s s'" and "fl_pc s' t = fl_pc s t" and "fl_outcome (fl_flights s' ! f) \<noteq> None"
proof (cases "fl_outcome (fl_flights s ! f)")
  case None
  from owners_okD(6) [OF ok f None] obtain u p b where u: "owns (fl_pc s u) = Some (f, p, b)" by blast
  with t have "u \<noteq> t" by auto
  then have "t \<noteq> u" by blast
  obtain s' where "flight_step\<^sup>*\<^sup>* s s'" "fl_pc s' t = fl_pc s t" "fl_outcome (fl_flights s' ! f) \<noteq> None"
    by (rule owner_finishes [OF ok u]) (use \<open>t \<noteq> u\<close> in auto)
  then show ?thesis by (rule that)
next
  case (Some r)
  then show ?thesis by (intro that [of s]) simp_all
qed

text \<open>C25: no caller is ever stuck: from every reachable state, whatever the other callers are doing, the
  steps can be continued so that a given caller returns a result for its own query. The only thing
  relied on is that a provider call returns or raises.\<close>

theorem every_call_can_finish:
  assumes "flight_step\<^sup>*\<^sup>* (flights_init qs) s"
  shows "can_return t (pc_query (fl_pc s t)) s"
proof -
  from flights_reachable [OF assms] have ok: "owners_ok s" and r: "results_ok s" by blast+
  show ?thesis
  proof (cases "fl_pc s t")
    case (Looking q)
    with can_return_looking [OF ok] show ?thesis by simp
  next
    case (Joining f q)
    then have "f < length (fl_flights s)" using pc_okD [OF r] by fastforce
    then obtain s' where s': "flight_step\<^sup>*\<^sup>* s s'" "fl_pc s' t = fl_pc s t" "fl_outcome (fl_flights s' ! f) \<noteq> None"
      by (rule flight_completes [OF ok, where t = t]) (simp add: Joining, blast)
    then obtain x where x: "fl_outcome (fl_flights s' ! f) = Some x" by blast
    from s'(2) Joining have "fl_pc s' t = Joining f q" by simp
    from flight_step.joined [OF this x] have "can_return t q s'"
      by (rule can_return_step) (auto simp: can_return_def)
    with can_return_steps [OF s'(1)] show ?thesis by (simp add: Joining)
  next
    case (Awaiting f q)
    then have "f < length (fl_flights s)" using pc_okD [OF r] by fastforce
    then obtain s' where s': "flight_step\<^sup>*\<^sup>* s s'" "fl_pc s' t = fl_pc s t" "fl_outcome (fl_flights s' ! f) \<noteq> None"
      by (rule flight_completes [OF ok, where t = t]) (simp add: Awaiting, blast)
    from s'(2) Awaiting have pc: "fl_pc s' t = Awaiting f q" by simp
    note st = flight_step.retry [OF pc s'(3)]
    have "can_return t q (go t (Looking q) s')"
      by (rule can_return_looking [OF owners_step [OF st owners_steps [OF s'(1) ok]]]) simp
    from can_return_steps [OF s'(1) can_return_step [OF st this]] show ?thesis by (simp add: Awaiting)
  next
    case (Returned q x)
    then show ?thesis by (auto simp: can_return_def)
  qed (use can_return_owner [OF ok] in \<open>force+\<close>)
qed

definition sample_flight :: "nat flights" where
  "sample_flight = go 1 (Joining 0 sample_query) (go 0 (Own 0 sample_query)
     ((flights_init (\<lambda>_. sample_query))\<lparr>fl_flights := [\<lparr>fl_query = sample_query, fl_outcome = None\<rparr>],
        fl_table := [(provider_series_key sample_query, 0)]\<rparr>))"

lemma sample_flight_reachable: "flight_step\<^sup>*\<^sup>* (flights_init (\<lambda>_. sample_query)) sample_flight"
proof -
  let ?i = "flights_init (\<lambda>_. sample_query) :: nat flights"
  let ?s = "go 0 (Own 0 sample_query) (?i\<lparr>fl_flights := [\<lparr>fl_query = sample_query, fl_outcome = None\<rparr>],
        fl_table := [(provider_series_key sample_query, 0)]\<rparr>)"
  have "flight_step ?i ?s"
    using flight_step.own [of ?i 0 sample_query] by (simp add: flights_init_def)
  moreover have "flight_step ?s (go 1 (Joining 0 sample_query) ?s)"
    by (rule flight_step.join) (simp_all add: flights_init_def)
  ultimately show ?thesis unfolding sample_flight_def by (meson converse_rtranclp_into_rtranclp r_into_rtranclp)
qed

theorem single_flight_witness:
  "fl_pc sample_flight 0 = Own 0 sample_query \<and> fl_pc sample_flight 1 \<noteq> Own 0 sample_query"
proof -
  have "fl_pc sample_flight 0 = Own 0 sample_query" by (simp add: sample_flight_def)
  with single_flight [OF sample_flight_reachable, of 0 0 sample_query 1 0 sample_query] show ?thesis by auto
qed

theorem every_call_can_finish_witness: "can_return 1 sample_query sample_flight"
  using every_call_can_finish [OF sample_flight_reachable, of 1] by (simp add: sample_flight_def)

end
