(* ===== verification/Mtf.thy ===== *)
theory Mtf
  imports PyNum
begin

text \<open>
  Multi-timeframe requests (\<^verbatim>\<open>openpine/runtime/mtf.py\<close>): normalisation of explicit series requests, the
  command-line form, the legacy shorthand and the stored JSON. A request is a mapping or an object;
  both are JSON objects here. \<open>parse_timeframe\<close> belongs to the market-data package and is the
  parameter \<open>ptf\<close>, reduced to the canonical name it yields; \<open>rp\<close> is Python's text of a list or dict.
\<close>

subsection \<open>Requests\<close>

record mtf_series_key =
  mk_symbol :: string
  mk_timeframe :: string

definition key_to_dict :: "mtf_series_key \<Rightarrow> json" where
  "key_to_dict k = JObj [(''symbol'', JStr (mk_symbol k)), (''timeframe'', JStr (mk_timeframe k))]"

datatype mtf_error =
    SymbolRequired
  | TimeframeRequired
  | TimeframeInvalid string
  | DuplicateSeries string string
  | TooManySeries
  | SeriesFormat
  | LegacyCombined
  | StoredJsonInvalid
  | StoredNotArray
  | TimeframeRaised py_exn

definition mtf_field :: "json \<Rightarrow> string \<Rightarrow> json" where
  "mtf_field item n = (case item of JObj d \<Rightarrow> json_get d n | _ \<Rightarrow> JNull)"

text \<open>\<open>str(value or "")\<close>.\<close>

fun text_or_empty :: "(json \<Rightarrow> string) \<Rightarrow> json \<Rightarrow> string" where
  "text_or_empty rp JNull = []"
| "text_or_empty rp (JBool b) = (if b then ''True'' else [])"
| "text_or_empty rp (JInt i) = (if i = 0 then [] else show_int i)"
| "text_or_empty rp (JFloat x) = (if float_true x then float_repr x else [])"
| "text_or_empty rp (JStr s) = s"
| "text_or_empty rp (JList xs) = (if xs = [] then [] else rp (JList xs))"
| "text_or_empty rp (JObj d) = (if d = [] then [] else rp (JObj d))"

type_synonym parse_tf = "string \<Rightarrow> py_exn + string"

definition canonical_timeframe :: "parse_tf \<Rightarrow> string \<Rightarrow> mtf_error + string" where
  "canonical_timeframe ptf t =
     (case ptf t of
        Inr c \<Rightarrow> Inr c
      | Inl e \<Rightarrow> Inl (if e = PyTypeError \<or> e = PyValueError then TimeframeInvalid t else TimeframeRaised e))"

definition normalize_item :: "parse_tf \<Rightarrow> (json \<Rightarrow> string) \<Rightarrow> json \<Rightarrow> mtf_error + mtf_series_key" where
  "normalize_item ptf rp item =
     (let symbol = upper (strip (text_or_empty rp (mtf_field item ''symbol'')));
          tf = strip (text_or_empty rp (mtf_field item ''timeframe''))
      in if symbol = [] then Inl SymbolRequired
         else if tf = [] then Inl TimeframeRequired
         else res_bind (canonical_timeframe ptf tf) (\<lambda>c. Inr \<lparr>mk_symbol = symbol, mk_timeframe = c\<rparr>))"

fun normalize_loop ::
  "parse_tf \<Rightarrow> (json \<Rightarrow> string) \<Rightarrow> mtf_series_key list \<Rightarrow> json list \<Rightarrow> mtf_error + mtf_series_key list"
where
  "normalize_loop ptf rp keys [] = Inr keys"
| "normalize_loop ptf rp keys (item # items) =
     res_bind (normalize_item ptf rp item) (\<lambda>k.
       if k \<in> set keys then Inl (DuplicateSeries (mk_symbol k) (mk_timeframe k))
       else normalize_loop ptf rp (keys @ [k]) items)"

definition normalize_mtf_requests ::
  "parse_tf \<Rightarrow> (json \<Rightarrow> string) \<Rightarrow> json list option \<Rightarrow> mtf_error + mtf_series_key list"
where
  "normalize_mtf_requests ptf rp requests =
     (case requests of
        None \<Rightarrow> Inr []
      | Some items \<Rightarrow>
          res_bind (normalize_loop ptf rp [] items) (\<lambda>ks.
            if length ks > 16 then Inl TooManySeries else Inr ks))"

text \<open>\<open>text.rsplit(":", 1)\<close> of a text that contains a colon.\<close>

definition rsplit_colon :: "string \<Rightarrow> string \<times> string" where
  "rsplit_colon s =
     (rev (tl (dropWhile (\<lambda>c. c \<noteq> CHR '':'') (rev s))), rev (takeWhile (\<lambda>c. c \<noteq> CHR '':'') (rev s)))"

fun series_args :: "string list \<Rightarrow> mtf_error + json list" where
  "series_args [] = Inr []"
| "series_args (raw # rest) =
     (let text = strip raw
      in if CHR '':'' \<notin> set text then Inl SeriesFormat
         else res_bind (series_args rest) (\<lambda>rs.
           Inr (key_to_dict \<lparr>mk_symbol = fst (rsplit_colon text), mk_timeframe = snd (rsplit_colon text)\<rparr> # rs)))"

definition parse_mtf_series_args ::
  "parse_tf \<Rightarrow> (json \<Rightarrow> string) \<Rightarrow> string list option \<Rightarrow> mtf_error + mtf_series_key list"
where
  "parse_mtf_series_args ptf rp values =
     res_bind (series_args (case values of None \<Rightarrow> [] | Some vs \<Rightarrow> vs)) (\<lambda>rs. normalize_mtf_requests ptf rp (Some rs))"

definition admitted_mtf_requests ::
  "parse_tf \<Rightarrow> (json \<Rightarrow> string) \<Rightarrow> string \<Rightarrow> string option \<Rightarrow> json list option \<Rightarrow> mtf_error + mtf_series_key list"
where
  "admitted_mtf_requests ptf rp chart_symbol htf series =
     res_bind (normalize_mtf_requests ptf rp series) (\<lambda>explicit.
       let legacy = strip (str_or htf [])
       in if legacy \<noteq> [] \<and> explicit \<noteq> [] then Inl LegacyCombined
          else if legacy \<noteq> []
          then normalize_mtf_requests ptf rp (Some [key_to_dict \<lparr>mk_symbol = chart_symbol, mk_timeframe = legacy\<rparr>])
          else Inr explicit)"

text \<open>The stored column: absent or empty, a JSON text with its value, or a text that is not JSON.\<close>

datatype stored_text = NoText | JsonText json | BadText

definition mtf_requests_json ::
  "parse_tf \<Rightarrow> (json \<Rightarrow> string) \<Rightarrow> json list option \<Rightarrow> mtf_error + stored_text"
where
  "mtf_requests_json ptf rp requests =
     res_bind (normalize_mtf_requests ptf rp requests) (\<lambda>ks. Inr (JsonText (JList (map key_to_dict ks))))"

definition mtf_requests_from_json ::
  "parse_tf \<Rightarrow> (json \<Rightarrow> string) \<Rightarrow> stored_text \<Rightarrow> mtf_error + mtf_series_key list"
where
  "mtf_requests_from_json ptf rp raw =
     (case raw of
        NoText \<Rightarrow> normalize_mtf_requests ptf rp (Some [])
      | BadText \<Rightarrow> Inl StoredJsonInvalid
      | JsonText (JList items) \<Rightarrow> normalize_mtf_requests ptf rp (Some items)
      | JsonText _ \<Rightarrow> Inl StoredNotArray)"

subsection \<open>Loading the requested series\<close>

datatype run_error = MtfRejected mtf_error | SeriesNotLoaded mtf_series_key | NoConfirmedBars mtf_series_key | StampRaised py_exn

text \<open>One stamped bar of \<open>_confirmed_htf_bars_from_provider_bars\<close> (\<^verbatim>\<open>runtime/isolated_run.py\<close>); a bar, a dict
  or an object, is the list of its fields.\<close>

record stamped_bar =
  sb_symbol :: string
  sb_timeframe :: string
  sb_time :: int
  sb_time_close :: int
  sb_open :: pyfloat
  sb_high :: pyfloat
  sb_low :: pyfloat
  sb_close :: pyfloat
  sb_volume :: pyfloat

definition stamp_bar :: "mtf_series_key \<Rightarrow> (string \<times> pyval) list \<Rightarrow> pyval \<Rightarrow> py_exn + stamped_bar" where
  "stamp_bar k r time_close =
     res_bind (py_int (dict_get r ''time'' (VInt 0))) (\<lambda>t.
     res_bind (py_int time_close) (\<lambda>tc.
     res_bind (py_float (dict_get r ''open'' (VInt 0))) (\<lambda>opn.
     res_bind (py_float (dict_get r ''high'' (VInt 0))) (\<lambda>h.
     res_bind (py_float (dict_get r ''low'' (VInt 0))) (\<lambda>l.
     res_bind (py_float (dict_get r ''close'' (VInt 0))) (\<lambda>c.
     res_bind (py_float (val_or (dict_get r ''volume'' VNone) (VInt 0))) (\<lambda>v.
       Inr \<lparr>sb_symbol = mk_symbol k, sb_timeframe = mk_timeframe k, sb_time = t, sb_time_close = tc,
            sb_open = opn, sb_high = h, sb_low = l, sb_close = c, sb_volume = v\<rparr>)))))))"

fun stamp_bars :: "mtf_series_key \<Rightarrow> (string \<times> pyval) list list \<Rightarrow> py_exn + stamped_bar list option" where
  "stamp_bars k [] = Inr (Some [])"
| "stamp_bars k (r # rs) =
     (case dict_get r ''time_close'' VNone of
        VNone \<Rightarrow> Inr None
      | tc \<Rightarrow> res_bind (stamp_bar k r tc) (\<lambda>b. res_bind (stamp_bars k rs) (\<lambda>bs. Inr (map_option (Cons b) bs))))"

definition confirmed_htf_bars :: "mtf_series_key \<Rightarrow> (string \<times> pyval) list list \<Rightarrow> py_exn + stamped_bar list option" where
  "confirmed_htf_bars k bars = (if bars = [] then Inr None else stamp_bars k bars)"

fun stamp_series ::
  "(mtf_series_key \<Rightarrow> (string \<times> pyval) list list option) \<Rightarrow> mtf_series_key \<Rightarrow> (string \<times> pyval) list list
   \<Rightarrow> mtf_series_key list \<Rightarrow> run_error + stamped_bar list"
where
  "stamp_series load chart chart_bars [] = Inr []"
| "stamp_series load chart chart_bars (k # ks) =
     (case (if k = chart then Some chart_bars else load k) of
        None \<Rightarrow> Inl (SeriesNotLoaded k)
      | Some raw \<Rightarrow>
          (case confirmed_htf_bars k raw of
             Inl e \<Rightarrow> Inl (StampRaised e)
           | Inr None \<Rightarrow> Inl (NoConfirmedBars k)
           | Inr (Some bars) \<Rightarrow>
               if bars = [] then Inl (NoConfirmedBars k)
               else res_bind (stamp_series load chart chart_bars ks) (\<lambda>rest. Inr (bars @ rest))))"

text \<open>\<open>confirmed_mtf_bars_for_requests\<close>; \<open>load\<close> gives the bars of a series or raises (\<open>None\<close>).\<close>

definition confirmed_mtf_bars_for_requests ::
  "parse_tf \<Rightarrow> (json \<Rightarrow> string) \<Rightarrow> (string \<times> pyval) list list \<Rightarrow> string \<Rightarrow> string \<Rightarrow> json list option
   \<Rightarrow> (mtf_series_key \<Rightarrow> (string \<times> pyval) list list option) \<Rightarrow> run_error + stamped_bar list"
where
  "confirmed_mtf_bars_for_requests ptf rp chart_bars chart_symbol chart_tf requests load =
     (case normalize_mtf_requests ptf rp requests of
        Inl (TimeframeRaised e) \<Rightarrow> Inl (StampRaised e)
      | Inl e \<Rightarrow> Inl (MtfRejected e)
      | Inr keys \<Rightarrow>
          (case ptf chart_tf of
             Inl e \<Rightarrow> Inl (if e = PyValueError then MtfRejected (TimeframeInvalid chart_tf) else StampRaised e)
           | Inr c \<Rightarrow> stamp_series load \<lparr>mk_symbol = upper (strip chart_symbol), mk_timeframe = c\<rparr> chart_bars keys))"

subsection \<open>Canonical requests\<close>

text \<open>What is relied on of \<open>parse_timeframe\<close>: a canonical name is non-empty, has no blank at either end
  and is its own canonical form.\<close>

definition canonical_stable :: "parse_tf \<Rightarrow> bool" where
  "canonical_stable ptf \<longleftrightarrow> (\<forall>t c. ptf t = Inr c \<longrightarrow> ptf c = Inr c \<and> strip c = c \<and> c \<noteq> [])"

definition key_ok :: "parse_tf \<Rightarrow> mtf_series_key \<Rightarrow> bool" where
  "key_ok ptf k \<longleftrightarrow> mk_symbol k \<noteq> [] \<and> upper (strip (mk_symbol k)) = mk_symbol k \<and> mk_timeframe k \<noteq> [] \<and>
     strip (mk_timeframe k) = mk_timeframe k \<and> ptf (mk_timeframe k) = Inr (mk_timeframe k)"

lemma is_space_upper: "is_space (char_upper c) = is_space c"
proof (cases "97 \<le> (of_char c :: nat) \<and> (of_char c :: nat) \<le> 122")
  case True
  then have m: "((of_char c :: nat) - 32) mod 256 = of_char c - 32" by (intro mod_less) linarith
  from True have u: "char_upper c = char_of ((of_char c :: nat) - 32)" by (simp add: char_upper_def Let_def)
  have n: "(of_char (char_upper c) :: nat) = of_char c - 32" unfolding u by (simp add: m)
  have "char_upper c \<noteq> CHR '' ''" "c \<noteq> CHR '' ''" using True n by auto
  with True n show ?thesis by (auto simp: is_space_def)
next
  case False
  then show ?thesis by (auto simp: char_upper_def Let_def)
qed

lemma strip_upper: "strip (upper s) = upper (strip s)"
  by (simp add: strip_def upper_def dropWhile_map rev_map comp_def is_space_upper)

lemma dropWhile_idem: "dropWhile P (dropWhile P xs) = dropWhile P xs"
  by (induction xs) simp_all

lemma dropWhile_rev_dropWhile:
  "dropWhile P (rev (dropWhile P (rev (dropWhile P xs)))) = rev (dropWhile P (rev (dropWhile P xs)))"
proof (cases "dropWhile P xs")
  case (Cons y ys)
  then have "\<not> P y" by (metis hd_dropWhile list.discI list.sel(1))
  have "rev (dropWhile P (rev (y # ys))) = y # rev (dropWhile P (rev ys)) \<or> rev (dropWhile P (rev (y # ys))) = [y]"
    using \<open>\<not> P y\<close> by (cases "\<forall>x \<in> set ys. P x") (auto simp: dropWhile_append)
  with \<open>\<not> P y\<close> show ?thesis unfolding Cons by auto
next
  case Nil
  show ?thesis unfolding Nil by simp
qed

lemma strip_strip: "strip (strip s) = strip s"
  by (simp add: strip_def dropWhile_rev_dropWhile dropWhile_idem)

lemma normalize_item_ok:
  assumes "canonical_stable ptf" and "normalize_item ptf rp item = Inr k" shows "key_ok ptf k"
  using assms
  by (auto simp: normalize_item_def canonical_timeframe_def canonical_stable_def key_ok_def Let_def strip_upper
      strip_strip res_bind_Inr_iff split: if_splits sum.splits)

lemma normalize_item_key:
  assumes "key_ok ptf k" shows "normalize_item ptf rp (key_to_dict k) = Inr k"
  using assms
  by (simp add: normalize_item_def key_to_dict_def mtf_field_def json_get_def key_ok_def canonical_timeframe_def Let_def)

lemma normalize_loop_ok:
  assumes "canonical_stable ptf"
  shows "normalize_loop ptf rp keys items = Inr ks \<Longrightarrow> distinct keys \<Longrightarrow> \<forall>k \<in> set keys. key_ok ptf k \<Longrightarrow>
    distinct ks \<and> (\<forall>k \<in> set ks. key_ok ptf k)"
proof (induction items arbitrary: keys)
  case (Cons item items)
  from Cons.prems(1) obtain k where k: "normalize_item ptf rp item = Inr k" "k \<notin> set keys"
    "normalize_loop ptf rp (keys @ [k]) items = Inr ks" by (auto simp: res_bind_Inr_iff split: if_splits)
  from Cons.IH [OF k(3)] Cons.prems(2,3) k(2) normalize_item_ok [OF assms k(1)] show ?case by simp
qed simp

lemma normalize_loop_keys:
  "distinct (keys @ ks) \<Longrightarrow> \<forall>k \<in> set ks. key_ok ptf k \<Longrightarrow>
   normalize_loop ptf rp keys (map key_to_dict ks) = Inr (keys @ ks)"
  by (induction ks arbitrary: keys) (simp_all add: normalize_item_key)

text \<open>C36: the stored form of multi-timeframe requests reads back: whatever requests are admitted, their
  stored JSON decodes to the same normalised keys, which are distinct and at most sixteen.\<close>

theorem mtf_requests_roundtrip:
  assumes st: "canonical_stable ptf" and j: "mtf_requests_json ptf rp requests = Inr stored"
  shows "\<exists>ks. normalize_mtf_requests ptf rp requests = Inr ks \<and> mtf_requests_from_json ptf rp stored = Inr ks \<and>
    distinct ks \<and> length ks \<le> 16"
proof -
  from j obtain ks where ks: "normalize_mtf_requests ptf rp requests = Inr ks"
    "stored = JsonText (JList (map key_to_dict ks))" by (auto simp: mtf_requests_json_def res_bind_Inr_iff)
  have k: "distinct ks \<and> (\<forall>k \<in> set ks. key_ok ptf k) \<and> length ks \<le> 16"
  proof (cases requests)
    case (Some items)
    with ks(1) have "normalize_loop ptf rp [] items = Inr ks" "length ks \<le> 16"
      by (auto simp: normalize_mtf_requests_def res_bind_Inr_iff split: if_splits)
    with normalize_loop_ok [OF st this(1)] show ?thesis by simp
  qed (use ks(1) in \<open>simp add: normalize_mtf_requests_def\<close>)
  then have "mtf_requests_from_json ptf rp stored = Inr ks"
    using normalize_loop_keys [of "[]" ks ptf rp]
    by (simp add: ks(2) mtf_requests_from_json_def normalize_mtf_requests_def)
  with ks(1) k show ?thesis by blast
qed

definition sample_ptf :: parse_tf where
  "sample_ptf t = (if t = ''60'' \<or> t = ''1h'' then Inr ''1h'' else if t = ''D'' then Inr ''D'' else Inl PyValueError)"

theorem mtf_requests_roundtrip_witness:
  "mtf_requests_json sample_ptf (\<lambda>_. []) (Some [JObj [(''symbol'', JStr '' btcusdt ''), (''timeframe'', JInt 60)]]) =
     Inr (JsonText (JList [key_to_dict \<lparr>mk_symbol = ''BTCUSDT'', mk_timeframe = ''1h''\<rparr>])) \<and>
   mtf_requests_from_json sample_ptf (\<lambda>_. [])
     (JsonText (JList [key_to_dict \<lparr>mk_symbol = ''BTCUSDT'', mk_timeframe = ''1h''\<rparr>])) =
     Inr [\<lparr>mk_symbol = ''BTCUSDT'', mk_timeframe = ''1h''\<rparr>]"
proof -
  have s: "strip ''1h'' = ''1h''" "strip ''D'' = ''D''" by code_simp+
  have st: "canonical_stable sample_ptf" by (auto simp: canonical_stable_def sample_ptf_def s split: if_splits)
  have j: "mtf_requests_json sample_ptf (\<lambda>_. []) (Some [JObj [(''symbol'', JStr '' btcusdt ''), (''timeframe'', JInt 60)]]) =
     Inr (JsonText (JList [key_to_dict \<lparr>mk_symbol = ''BTCUSDT'', mk_timeframe = ''1h''\<rparr>]))" by code_simp
  have "normalize_mtf_requests sample_ptf (\<lambda>_. []) (Some [JObj [(''symbol'', JStr '' btcusdt ''), (''timeframe'', JInt 60)]]) =
     Inr [\<lparr>mk_symbol = ''BTCUSDT'', mk_timeframe = ''1h''\<rparr>]" by code_simp
  with mtf_requests_roundtrip [OF st j] j show ?thesis by simp
qed

end
