(* ===== verification/Fanout.thy ===== *)
theory Fanout
  imports MarketData Jobs Mtf
begin

text \<open>
  Fan-out of closed market bars into strategy jobs (\<^verbatim>\<open>openpine/workers/strategy_fanout.py\<close>): selection
  and grouping of the enabled strategies, aggregation of stored source bars into target bars through
  the data orchestrator, and one idempotent job per strategy and bar through the job scheduler. The
  strategy registry is read once per bar and is an argument; \<open>parse_timeframe\<close>, the contract default of
  a query field and the interpreter's float \<open>sum\<close> are parameters.
\<close>

subsection \<open>Strategies, configuration and results\<close>

record strategy_instance =
  si_strategy_id :: string
  si_artifact_id :: string
  si_params_hash :: string
  si_symbol :: string
  si_timeframe :: string
  si_exchange :: string
  si_market_type :: string
  si_price_type :: string
  si_mode :: string
  si_enabled :: bool
  si_mtf_series_json :: stored_text

record raw_market_key =
  rk_exchange :: string
  rk_market_type :: string
  rk_symbol :: string
  rk_price_type :: string

definition instrument_key_text :: "raw_market_key \<Rightarrow> string" where
  "instrument_key_text k = rk_exchange k @ '':'' @ rk_market_type k @ '':'' @ rk_symbol k @ '':'' @ rk_price_type k"

record fanout_config =
  fc_source_timeframe :: string
  fc_persist_source :: bool
  fc_persist_aggregates :: bool
  fc_source :: string
  fc_priority :: int

definition fanout_config_default :: fanout_config where
  "fanout_config_default = \<lparr>fc_source_timeframe = ''1m'', fc_persist_source = True, fc_persist_aggregates = True,
     fc_source = ''live'', fc_priority = 50\<rparr>"

datatype fanout_status = Enqueued | NoStrategies | TargetNotClosed | SourceIncomplete

record target_result =
  tr_timeframe :: string
  tr_status :: fanout_status
  tr_bar :: "bar option"
  tr_jobs :: "nat list"

record fanout_result =
  fr_market_key :: raw_market_key
  fr_source_timeframe :: string
  fr_strategies :: nat
  fr_targets :: "target_result list"

definition result_jobs :: "fanout_result \<Rightarrow> nat list" where
  "result_jobs r = concat (map tr_jobs (fr_targets r))"

text \<open>What the fan-out is built with; \<open>fe_fresh\<close> gives the id and creation time of a new job object.\<close>

record 'w fanout_env =
  fe_market :: "'w market"
  fe_ptf :: "string \<Rightarrow> py_exn + time_frame"
  fe_repr :: "json \<Rightarrow> string"
  fe_error_policy :: string
  fe_sum :: "pyfloat list \<Rightarrow> pyfloat"
  fe_config :: fanout_config
  fe_fresh :: "nat \<Rightarrow> string \<times> ms"

subsection \<open>Selection and grouping\<close>

definition market_key_of :: "bar \<Rightarrow> raw_market_key" where
  "market_key_of b = \<lparr>rk_exchange = lower (ik_exchange (b_instrument b)), rk_market_type = lower (ik_market (b_instrument b)),
     rk_symbol = upper (ik_symbol (b_instrument b)), rk_price_type = ''trade''\<rparr>"

definition enabled_strategies_for_market :: "strategy_instance list \<Rightarrow> raw_market_key \<Rightarrow> strategy_instance list" where
  "enabled_strategies_for_market strategies k =
     filter (\<lambda>s. si_enabled s \<and> lower (si_exchange s) = rk_exchange k \<and> lower (si_market_type s) = rk_market_type k \<and>
       upper (si_symbol s) = rk_symbol k \<and> lower (si_price_type s) = rk_price_type k) strategies"

definition add_to_group :: "string \<Rightarrow> 'a \<Rightarrow> (string \<times> 'a list) list \<Rightarrow> (string \<times> 'a list) list" where
  "add_to_group k x g = AList.update k ((case map_of g k of None \<Rightarrow> [] | Some xs \<Rightarrow> xs) @ [x]) g"

fun group_loop ::
  "(string \<Rightarrow> py_exn + time_frame) \<Rightarrow> (string \<times> strategy_instance list) list \<Rightarrow> strategy_instance list
   \<Rightarrow> data_error + (string \<times> strategy_instance list) list"
where
  "group_loop ptf g [] = Inr g"
| "group_loop ptf g (s # ss) =
     res_bind (raising (ptf (si_timeframe s))) (\<lambda>tf. group_loop ptf (add_to_group (tf_canonical tf) s g) ss)"

definition group_by_target_timeframe ::
  "(string \<Rightarrow> py_exn + time_frame) \<Rightarrow> strategy_instance list \<Rightarrow> data_error + (string \<times> strategy_instance list) list"
where
  "group_by_target_timeframe ptf ss = res_bind (group_loop ptf [] ss) (\<lambda>g. Inr (sort_key fst g))"

definition job_type_for_strategy_mode :: "string \<Rightarrow> job_type" where
  "job_type_for_strategy_mode mode =
     (if lower mode = ''live'' then LiveBarJob else if lower mode = ''observe'' then ObserveBarJob else PaperBarJob)"

fun job_type_value :: "job_type \<Rightarrow> string" where
  "job_type_value BacktestJob = ''backtest''"
| "job_type_value OptimizerJob = ''optimizer''"
| "job_type_value BackfillJob = ''backfill''"
| "job_type_value LiveBarJob = ''live_bar_process''"
| "job_type_value PaperBarJob = ''paper_bar_process''"
| "job_type_value ObserveBarJob = ''observe_bar_process''"
| "job_type_value ReportJob = ''report''"

subsection \<open>Aggregation\<close>

text \<open>\<open>max\<close> and \<open>min\<close> of floats: the first element unless a later one compares greater (smaller).\<close>

definition py_max :: "pyfloat list \<Rightarrow> pyfloat" where
  "py_max xs = foldl (\<lambda>a x. if flt a x then x else a) (hd xs) (tl xs)"

definition py_min :: "pyfloat list \<Rightarrow> pyfloat" where
  "py_min xs = foldl (\<lambda>a x. if flt x a then x else a) (hd xs) (tl xs)"

definition volume_or_zero :: "bar \<Rightarrow> pyfloat" where
  "volume_or_zero b = (case b_volume b of None \<Rightarrow> Fin 0 | Some v \<Rightarrow> if float_true v then v else Fin 0)"

definition aggregate_bars :: "'w fanout_env \<Rightarrow> bar list \<Rightarrow> string \<Rightarrow> data_error + bar" where
  "aggregate_bars E bars target =
     (if bars = [] then Inl (Raised PyValueError)
      else res_bind (raising (fe_ptf E target)) (\<lambda>tf.
        let ordered = sort_key b_time bars
        in Inr \<lparr>b_instrument = b_instrument (hd ordered), b_timeframe = tf, b_time = b_time (hd ordered),
             b_time_close = b_time (hd ordered) + (case tf_duration_ms tf of None \<Rightarrow> 0 | Some d \<Rightarrow> d),
             b_open = b_open (hd ordered), b_high = py_max (map b_high ordered),
             b_low = py_min (map b_low ordered), b_close = b_close (last ordered),
             b_volume = Some (fe_sum E (map volume_or_zero ordered)), b_closed = True\<rparr>))"

datatype target_bar = SourceBar | AggregateBar bar | NotClosed

text \<open>\<open>try: ... except IncompleteCoverageError: return None\<close>.\<close>

definition unless_incomplete :: "('w, 'a) io \<Rightarrow> ('w, 'a option) io" where
  "unless_incomplete m w =
     (case m w of (Inl IncompleteCoverage, w') \<Rightarrow> (Inr None, w') | (Inl e, w') \<Rightarrow> (Inl e, w') | (Inr x, w') \<Rightarrow> (Inr (Some x), w'))"

definition window_query :: "'w fanout_env \<Rightarrow> bar \<Rightarrow> time_frame \<Rightarrow> int \<Rightarrow> int \<Rightarrow> bar_query" where
  "window_query E b source_tf start stop = \<lparr>q_instrument = b_instrument b, q_timeframe = source_tf, q_start_ms = start,
     q_end_ms = stop, q_source = ''storage'', q_gap_policy = ''fail'', q_error_policy = fe_error_policy E\<rparr>"

text \<open>The end of \<open>_target_bar_from_source\<close>: the window of source bars and its aggregate.\<close>

definition aggregate_window ::
  "'w fanout_env \<Rightarrow> bar \<Rightarrow> time_frame \<Rightarrow> time_frame \<Rightarrow> int \<Rightarrow> int \<Rightarrow> ('w, target_bar) io"
where
  "aggregate_window E b src tgt d ds =
     io_bind (unless_incomplete (get_bars (fe_market E)
       (window_query E b src (b_time b + ds - d) (b_time b + ds)))) (\<lambda>found.
         case found of
           None \<Rightarrow> io_return NotClosed
         | Some bars \<Rightarrow>
             if int (length bars) \<noteq> d div ds then io_return NotClosed
             else io_bind (io_of (aggregate_bars E bars (tf_canonical tgt))) (\<lambda>a. io_return (AggregateBar a)))"

definition target_bar_from_source :: "'w fanout_env \<Rightarrow> bar \<Rightarrow> string \<Rightarrow> ('w, target_bar) io" where
  "target_bar_from_source E b target =
     io_bind (io_of (raising (fe_ptf E (fc_source_timeframe (fe_config E))))) (\<lambda>src.
     io_bind (io_of (raising (fe_ptf E target))) (\<lambda>tgt.
       case (tf_duration_ms tgt, tf_duration_ms src) of
         (Some d, Some ds) \<Rightarrow>
           if d < ds then io_raise (Raised PyValueError)
           else if ds = 0 then io_raise (Raised PyZeroDivisionError)
           else if d mod ds \<noteq> 0 then io_raise (Raised PyValueError)
           else if tf_canonical tgt = tf_canonical src then io_return SourceBar
           else if d = 0 then io_raise (Raised PyZeroDivisionError)
           else if (b_time b + ds) mod d \<noteq> 0 then io_return NotClosed
           else aggregate_window E b src tgt d ds
       | _ \<Rightarrow> io_raise (Raised PyValueError)))"

subsection \<open>Jobs\<close>

definition fanout_key :: "strategy_instance \<Rightarrow> bar \<Rightarrow> raw_market_key \<Rightarrow> string" where
  "fanout_key s b k = job_type_value (job_type_for_strategy_mode (si_mode s)) @ '':'' @ si_strategy_id s @ '':'' @
     instrument_key_text k @ '':'' @ tf_canonical (b_timeframe b) @ '':'' @ show_int (b_time b)"

definition fanout_job ::
  "fanout_config \<Rightarrow> strategy_instance \<Rightarrow> bar \<Rightarrow> raw_market_key \<Rightarrow> mtf_series_key list \<Rightarrow> string \<times> ms \<Rightarrow> job"
where
  "fanout_job c s b k series fresh =
     \<lparr>j_type = job_type_for_strategy_mode (si_mode s), j_id = fst fresh, j_strategy_id = Some (si_strategy_id s),
      j_status = JPending, j_idempotency_key = Some (fanout_key s b k), j_serialization_key = Some (si_strategy_id s),
      j_priority = fc_priority c, j_created_at = snd fresh, j_updated_at = snd fresh, j_scheduled_at = None,
      j_started_at = None, j_finished_at = None, j_error = None,
      j_input = Some (JObj [(''strategy_id'', JStr (si_strategy_id s)), (''artifact_id'', JStr (si_artifact_id s)),
        (''params_hash'', JStr (si_params_hash s)), (''instrument_key'', JStr (instrument_key_text k)),
        (''timeframe'', JStr (tf_canonical (b_timeframe b))), (''bar_time'', JInt (b_time b)),
        (''bar_close_time'', JInt (b_time_close b)), (''source'', JStr (fc_source c)),
        (''mtf_series'', JList (map key_to_dict series))]),
      j_result = None, j_worker_id = None, j_attempt = 1, j_max_retries = 3\<rparr>"

definition enqueue_strategy_job ::
  "'w fanout_env \<Rightarrow> strategy_instance \<Rightarrow> bar \<Rightarrow> raw_market_key \<Rightarrow> (scheduler, nat) io"
where
  "enqueue_strategy_job E s b k sch =
     (case mtf_requests_from_json (\<lambda>t. map_sum id tf_canonical (fe_ptf E t)) (fe_repr E) (si_mtf_series_json s) of
        Inl (TimeframeRaised e) \<Rightarrow> (Inl (Raised e), sch)
      | Inl e \<Rightarrow> (Inl (Raised PyValueError), sch)
      | Inr series \<Rightarrow>
          (let fresh = fe_fresh E (length (sc_heap sch));
               (ref, sch1) = new_job (fanout_job (fe_config E) s b k series fresh) sch;
               (r, sch2) = enqueue (fst fresh) ref sch1
           in (Inr r, sch2)))"

fun enqueue_all ::
  "'w fanout_env \<Rightarrow> bar \<Rightarrow> raw_market_key \<Rightarrow> strategy_instance list \<Rightarrow> (scheduler, nat list) io"
where
  "enqueue_all E b k [] = io_return []"
| "enqueue_all E b k (s # ss) =
     io_bind (enqueue_strategy_job E s b k) (\<lambda>r. io_bind (enqueue_all E b k ss) (\<lambda>rs. io_return (r # rs)))"

subsection \<open>Processing a source bar\<close>

definition in_world :: "('w, 'a) io \<Rightarrow> ('w \<times> scheduler, 'a) io" where
  "in_world m = (\<lambda>(w, s). case m w of (r, w') \<Rightarrow> (r, (w', s)))"

definition in_scheduler :: "(scheduler, 'a) io \<Rightarrow> ('w \<times> scheduler, 'a) io" where
  "in_scheduler m = (\<lambda>(w, s). case m s of (r, s') \<Rightarrow> (r, (w, s')))"

definition process_group ::
  "'w fanout_env \<Rightarrow> bar \<Rightarrow> raw_market_key \<Rightarrow> string \<times> strategy_instance list \<Rightarrow> ('w \<times> scheduler, target_result) io"
where
  "process_group E b k g =
     io_bind (in_world (target_bar_from_source E b (fst g))) (\<lambda>t.
       case t of
         NotClosed \<Rightarrow> io_return \<lparr>tr_timeframe = fst g, tr_status = TargetNotClosed, tr_bar = None, tr_jobs = []\<rparr>
       | SourceBar \<Rightarrow>
           io_bind (in_scheduler (enqueue_all E b k (snd g))) (\<lambda>jobs.
             io_return \<lparr>tr_timeframe = fst g, tr_status = Enqueued, tr_bar = Some b, tr_jobs = jobs\<rparr>)
       | AggregateBar a \<Rightarrow>
           io_bind (if fc_persist_aggregates (fe_config E)
                    then in_world (io_bind (on_candle_closed (fe_market E) a ''aggregate'') (\<lambda>_. io_return ()))
                    else io_return ()) (\<lambda>_.
           io_bind (in_scheduler (enqueue_all E a k (snd g))) (\<lambda>jobs.
             io_return \<lparr>tr_timeframe = fst g, tr_status = Enqueued, tr_bar = Some a, tr_jobs = jobs\<rparr>)))"

fun process_groups ::
  "'w fanout_env \<Rightarrow> bar \<Rightarrow> raw_market_key \<Rightarrow> (string \<times> strategy_instance list) list
   \<Rightarrow> ('w \<times> scheduler, target_result list) io"
where
  "process_groups E b k [] = io_return []"
| "process_groups E b k (g # gs) =
     io_bind (process_group E b k g) (\<lambda>t. io_bind (process_groups E b k gs) (\<lambda>ts. io_return (t # ts)))"

definition process_source_bar ::
  "'w fanout_env \<Rightarrow> strategy_instance list \<Rightarrow> bar \<Rightarrow> ('w \<times> scheduler, fanout_result) io"
where
  "process_source_bar E registry b =
     io_bind (io_of (raising (fe_ptf E (fc_source_timeframe (fe_config E))))) (\<lambda>src.
       if tf_canonical (b_timeframe b) \<noteq> tf_canonical src then io_raise (Raised PyValueError)
       else
         (let k = market_key_of b;
              strategies = enabled_strategies_for_market registry k
          in io_bind (if fc_persist_source (fe_config E)
                      then in_world (io_bind (on_candle_closed (fe_market E) b (fc_source (fe_config E))) (\<lambda>_. io_return ()))
                      else io_return ()) (\<lambda>_.
             if strategies = []
             then io_return \<lparr>fr_market_key = k, fr_source_timeframe = tf_canonical src, fr_strategies = 0,
                    fr_targets = [\<lparr>tr_timeframe = tf_canonical src, tr_status = NoStrategies, tr_bar = None, tr_jobs = []\<rparr>]\<rparr>
             else io_bind (io_of (group_by_target_timeframe (fe_ptf E) strategies)) (\<lambda>groups.
                  io_bind (process_groups E b k groups) (\<lambda>targets.
                    io_return \<lparr>fr_market_key = k, fr_source_timeframe = tf_canonical src,
                      fr_strategies = length strategies, fr_targets = targets\<rparr>)))))"

subsection \<open>Aggregated bars\<close>

lemma flt_asym: "flt a b \<Longrightarrow> \<not> flt b a"
  using flt_trans flt_irrefl by blast

lemma unless_incomplete_ok [io_iff]:
  "unless_incomplete m w = (Inr (Some x), w') \<longleftrightarrow> m w = (Inr x, w')"
  by (auto simp: unless_incomplete_def split: prod.splits sum.splits data_error.splits)

lemma get_bars_proper:
  assumes "get_bars M q w = (Inr bars, w')"
  shows "proper bars \<and> (q_source q = ''storage'' \<and> q_gap_policy q = ''fail'' \<longrightarrow>
    (\<exists>s :: bar_series. bs_bars s = bars \<and> mk_is_complete M (bs_coverage s)))"
proof -
  from assms obtain s where s: "load_bars M q w = (Inr s, w')" "bars = bs_bars s" by (auto simp: get_bars_def io_iff)
  from load_bars_ok [OF s(1)] s(2) show ?thesis by auto
qed

lemma proper_sorted: "proper bars \<Longrightarrow> sort_key b_time bars = bars"
  unfolding proper_def by (intro sort_key_id_if_sorted strict_sorted_imp_sorted) blast


subsection \<open>Registered jobs\<close>

definition registered :: "string \<Rightarrow> scheduler \<Rightarrow> bool" where
  "registered key s \<longleftrightarrow> map_of (sc_idempotency s) key \<noteq> None"

text \<open>Ids of new job objects are non-empty, pairwise different and not in use.\<close>

definition fresh_ids :: "'w fanout_env \<Rightarrow> scheduler \<Rightarrow> bool" where
  "fresh_ids E s \<longleftrightarrow> inj (\<lambda>n. fst (fe_fresh E n)) \<and>
     (\<forall>n \<ge> length (sc_heap s). fst (fe_fresh E n) \<noteq> [] \<and> fst (fe_fresh E n) \<notin> dom (map_of (sc_jobs s)))"

definition sched_ok :: "'w fanout_env \<Rightarrow> scheduler \<Rightarrow> bool" where
  "sched_ok E s \<longleftrightarrow> sched_inv s \<and> fresh_ids E s"

lemma fanout_key_nonempty: "fanout_key st b k \<noteq> []"
  by (simp add: fanout_key_def)

lemma enqueue_heap: "length (sc_heap (snd (enqueue u ref s))) = length (sc_heap s)"
  by (auto simp: enqueue_def requeue_sort_def Let_def split: option.split)

lemma enqueue_jobs_dom:
  "dom (map_of (sc_jobs (snd (enqueue u ref s)))) \<subseteq>
   insert (if j_id (sc_heap s ! ref) \<noteq> [] then j_id (sc_heap s ! ref) else u) (dom (map_of (sc_jobs s)))"
  by (auto simp: enqueue_def requeue_sort_def Let_def update_conv' split: option.splits if_splits)

lemma enqueue_strategy_step:
  assumes ok: "sched_ok E s" and e: "enqueue_strategy_job E st b k s = (Inr r, s')"
  shows "sched_step s s' \<and> sched_ok E s' \<and> registered (fanout_key st b k) s'"
proof -
  let ?f = "fe_fresh E (length (sc_heap s))"
  from e obtain series where e': "snd (enqueue (fst ?f) (length (sc_heap s))
      (s\<lparr>sc_heap := sc_heap s @ [fanout_job (fe_config E) st b k series ?f]\<rparr>)) = s'"
    by (auto simp: enqueue_strategy_job_def new_job_def Let_def split: sum.splits mtf_error.splits prod.splits
        dest: arg_cong [where f = snd])
  let ?j = "fanout_job (fe_config E) st b k series ?f"
  let ?s1 = "s\<lparr>sc_heap := sc_heap s @ [?j]\<rparr>"
  have j: "j_status ?j = JPending" "j_id ?j = fst ?f" "j_idempotency_key ?j = Some (fanout_key st b k)"
    by (simp_all add: fanout_job_def)
  have f: "fst ?f \<noteq> []" "fst ?f \<notin> dom (map_of (sc_jobs s))" using ok by (simp_all add: sched_ok_def fresh_ids_def)
  have n: "new_job ?j s = (length (sc_heap s), ?s1)" by (simp add: new_job_def)
  have step: "sched_step s s'"
    unfolding e' [symmetric] by (rule sched_step.submit [OF n j(1)]) (use j(2) f in simp)
  have h: "sc_heap ?s1 ! length (sc_heap s) = ?j" by simp
  have len: "length (sc_heap s') = Suc (length (sc_heap s))" unfolding e' [symmetric] enqueue_heap by simp
  have d: "dom (map_of (sc_jobs s')) \<subseteq> insert (fst ?f) (dom (map_of (sc_jobs s)))"
    using enqueue_jobs_dom [of "fst ?f" "length (sc_heap s)" ?s1] unfolding e' h j(2) using f(1) by simp
  have inj: "inj (\<lambda>n. fst (fe_fresh E n))" using ok by (simp add: sched_ok_def fresh_ids_def)
  have "fst (fe_fresh E n) \<noteq> [] \<and> fst (fe_fresh E n) \<notin> dom (map_of (sc_jobs s'))" if "n \<ge> length (sc_heap s')" for n
  proof -
    have "n \<noteq> length (sc_heap s)" "n \<ge> length (sc_heap s)" using that len by simp_all
    then have "fst (fe_fresh E n) \<noteq> fst ?f" "fst (fe_fresh E n) \<noteq> []" "fst (fe_fresh E n) \<notin> dom (map_of (sc_jobs s))"
      using injD [OF inj] ok unfolding sched_ok_def fresh_ids_def by blast+
    with d show ?thesis by blast
  qed
  with inj have "fresh_ids E s'" unfolding fresh_ids_def by blast
  moreover have "registered (fanout_key st b k) s'"
    using enqueue_idempotency [of ?s1 "length (sc_heap s)" "fst ?f"] fanout_key_nonempty [of st b k]
    unfolding e' h j(3) registered_def by auto
  ultimately show ?thesis using step sched_step_inv [OF step] ok by (simp add: sched_ok_def)
qed

lemma registered_steps:
  assumes "sched_step\<^sup>*\<^sup>* s s'" and "sched_inv s" and "registered key s" shows "registered key s'"
  using run_idempotency [OF assms(1,2)] assms(3) by (auto simp: registered_def)

lemma enqueue_all_steps:
  "sched_ok E s \<Longrightarrow> enqueue_all E b k ss s = (Inr rs, s') \<Longrightarrow>
   sched_step\<^sup>*\<^sup>* s s' \<and> sched_ok E s' \<and> length rs = length ss \<and> (\<forall>st \<in> set ss. registered (fanout_key st b k) s')"
proof (induction ss arbitrary: s rs)
  case (Cons st ss)
  from Cons.prems(2) obtain r s1 rs' where e: "enqueue_strategy_job E st b k s = (Inr r, s1)"
    "enqueue_all E b k ss s1 = (Inr rs', s')" "rs = r # rs'" by (auto simp: io_iff)
  from enqueue_strategy_step [OF Cons.prems(1) e(1)] have 1: "sched_step s s1" "sched_ok E s1"
    "registered (fanout_key st b k) s1" by blast+
  from Cons.IH [OF 1(2) e(2)] have 2: "sched_step\<^sup>*\<^sup>* s1 s'" "sched_ok E s'" "length rs' = length ss"
    "\<forall>st \<in> set ss. registered (fanout_key st b k) s'" by blast+
  have "registered (fanout_key st b k) s'"
    using registered_steps [OF 2(1) _ 1(3)] 1(2) by (simp add: sched_ok_def)
  with 1(1) 2 e(3) show ?case by (auto intro: converse_rtranclp_into_rtranclp)
qed (simp add: io_iff)

lemma in_world_ok [io_iff]: "in_world m (w, s) = (Inr x, ws) \<longleftrightarrow> (\<exists>w'. m w = (Inr x, w') \<and> ws = (w', s))"
  by (auto simp: in_world_def split: prod.splits)

lemma in_scheduler_ok [io_iff]: "in_scheduler m (w, s) = (Inr x, ws) \<longleftrightarrow> (\<exists>s'. m s = (Inr x, s') \<and> ws = (w, s'))"
  by (auto simp: in_scheduler_def split: prod.splits)

lemma process_group_ok:
  assumes ok: "sched_ok E s" and p: "process_group E b k g (w, s) = (Inr t, (w', s'))"
  shows "sched_step\<^sup>*\<^sup>* s s' \<and> sched_ok E s' \<and> tr_timeframe t = fst g \<and>
    (\<forall>tb. tr_bar t = Some tb \<longrightarrow> length (tr_jobs t) = length (snd g) \<and> (\<forall>st \<in> set (snd g). registered (fanout_key st tb k) s'))"
proof -
  from p obtain x w1 where "target_bar_from_source E b (fst g) w = (Inr x, w1)" and
    c: "(case x of
         NotClosed \<Rightarrow> io_return \<lparr>tr_timeframe = fst g, tr_status = TargetNotClosed, tr_bar = None, tr_jobs = []\<rparr>
       | SourceBar \<Rightarrow>
           io_bind (in_scheduler (enqueue_all E b k (snd g))) (\<lambda>jobs.
             io_return \<lparr>tr_timeframe = fst g, tr_status = Enqueued, tr_bar = Some b, tr_jobs = jobs\<rparr>)
       | AggregateBar a \<Rightarrow>
           io_bind (if fc_persist_aggregates (fe_config E)
                    then in_world (io_bind (on_candle_closed (fe_market E) a ''aggregate'') (\<lambda>_. io_return ()))
                    else io_return ()) (\<lambda>_.
           io_bind (in_scheduler (enqueue_all E a k (snd g))) (\<lambda>jobs.
             io_return \<lparr>tr_timeframe = fst g, tr_status = Enqueued, tr_bar = Some a, tr_jobs = jobs\<rparr>))) (w1, s) = (Inr t, (w', s'))"
    by (auto simp: process_group_def io_iff)
  from c consider "tr_bar t = None" "s' = s" "tr_timeframe t = fst g"
    | a rs where "tr_bar t = Some a" "tr_timeframe t = fst g" "tr_jobs t = rs" "enqueue_all E a k (snd g) s = (Inr rs, s')"
    by (cases x) (auto simp: io_iff split: if_splits)
  then show ?thesis
  proof cases
    case 2
    from enqueue_all_steps [OF ok 2(4)] 2 show ?thesis by simp
  qed (use ok in simp)
qed

lemma process_groups_ok:
  "sched_ok E s \<Longrightarrow> process_groups E b k gs (w, s) = (Inr ts, (w', s')) \<Longrightarrow>
   sched_step\<^sup>*\<^sup>* s s' \<and> sched_ok E s' \<and> map tr_timeframe ts = map fst gs \<and>
   list_all2 (\<lambda>g t. \<forall>tb. tr_bar t = Some tb \<longrightarrow> length (tr_jobs t) = length (snd g) \<and>
     (\<forall>st \<in> set (snd g). registered (fanout_key st tb k) s')) gs ts"
proof (induction gs arbitrary: w s ts)
  case (Cons g gs)
  from Cons.prems(2) obtain t w1 s1 ts' where p: "process_group E b k g (w, s) = (Inr t, (w1, s1))"
    "process_groups E b k gs (w1, s1) = (Inr ts', (w', s'))" "ts = t # ts'" by (auto simp: io_iff)
  note 1 = process_group_ok [OF Cons.prems(1) p(1)]
  then have ok1: "sched_ok E s1" by blast
  note 2 = Cons.IH [OF ok1 p(2)]
  have "registered key s'" if "registered key s1" for key
    using registered_steps [OF _ _ that] 2 ok1 by (simp add: sched_ok_def)
  with 1 2 p(3) show ?case by (auto intro: rtranclp_trans)
qed (simp add: io_iff)

subsection \<open>Grouping\<close>

definition group_of :: "(string \<times> 'a list) list \<Rightarrow> string \<Rightarrow> 'a list" where
  "group_of g k = (case map_of g k of None \<Rightarrow> [] | Some xs \<Rightarrow> xs)"

definition in_timeframe :: "(string \<Rightarrow> py_exn + time_frame) \<Rightarrow> string \<Rightarrow> strategy_instance \<Rightarrow> bool" where
  "in_timeframe ptf k s \<longleftrightarrow> (\<exists>tf. ptf (si_timeframe s) = Inr tf \<and> tf_canonical tf = k)"

lemma add_to_group: "group_of (add_to_group k x g) k' = (if k' = k then group_of g k @ [x] else group_of g k')"
  by (simp add: add_to_group_def group_of_def update_conv')

lemma group_loop_ok:
  "group_loop ptf g ss = Inr g' \<Longrightarrow> distinct (map fst g) \<Longrightarrow>
   distinct (map fst g') \<and> (\<forall>k. group_of g' k = group_of g k @ filter (in_timeframe ptf k) ss)"
proof (induction ss arbitrary: g)
  case (Cons s ss)
  from Cons.prems(1) obtain tf where tf: "ptf (si_timeframe s) = Inr tf"
    "group_loop ptf (add_to_group (tf_canonical tf) s g) ss = Inr g'" by (auto simp: res_bind_Inr_iff io_iff)
  have "distinct (map fst (add_to_group (tf_canonical tf) s g))"
    using Cons.prems(2) by (simp add: add_to_group_def distinct_update)
  from Cons.IH [OF tf(2) this] tf(1) show ?case by (auto simp: add_to_group in_timeframe_def)
qed simp

lemma group_by_ok:
  assumes "group_by_target_timeframe ptf ss = Inr gs"
  shows "distinct (map fst gs) \<and> sorted (map fst gs) \<and> (\<forall>(k, members) \<in> set gs. members = filter (in_timeframe ptf k) ss)"
proof -
  from assms obtain g where g: "group_loop ptf [] ss = Inr g" "gs = sort_key fst g"
    by (auto simp: group_by_target_timeframe_def res_bind_Inr_iff)
  from group_loop_ok [OF g(1)] have d: "distinct (map fst g)" "group_of g k = filter (in_timeframe ptf k) ss" for k
    by (simp_all add: group_of_def)
  have "members = filter (in_timeframe ptf k) ss" if "(k, members) \<in> set g" for k members
    using d(2) [of k] map_of_is_SomeI [OF d(1) that] by (simp add: group_of_def)
  moreover have "distinct (map fst gs)" unfolding g(2) using d(1) by (metis distinct_map distinct_sort set_sort)
  ultimately show ?thesis by (auto simp: g(2))
qed

subsection \<open>Once per strategy and bar\<close>

lemma requeue_known:
  assumes inv: "sched_inv s" and reg: "registered (fanout_key st b k) s"
    and e: "enqueue_strategy_job E st b k s = (Inr ref, s')"
  shows "sc_jobs s' = sc_jobs s \<and> sc_queue s' = sc_queue s \<and> map_of (sc_jobs s) (j_id (sc_heap s' ! ref)) = Some ref"
proof -
  let ?f = "fe_fresh E (length (sc_heap s))"
  from e obtain series where e': "enqueue (fst ?f) (length (sc_heap s))
      (s\<lparr>sc_heap := sc_heap s @ [fanout_job (fe_config E) st b k series ?f]\<rparr>) = (ref, s')"
    by (auto simp: enqueue_strategy_job_def new_job_def Let_def split: sum.splits mtf_error.splits prod.splits)
  let ?j = "fanout_job (fe_config E) st b k series ?f"
  from reg obtain jid where jid: "map_of (sc_idempotency s) (fanout_key st b k) = Some jid" by (auto simp: registered_def)
  with inv obtain r where r: "map_of (sc_jobs s) jid = Some r" by (auto simp: sched_inv_def idem_ok_def ran_def)
  with inv have h: "r < length (sc_heap s)" "j_id (sc_heap s ! r) = jid" by (auto simp: sched_inv_def jobs_ok_def)
  have "existing_job ?j s = Some r"
    using jid r fanout_key_nonempty [of st b k] by (simp add: existing_job_def fanout_job_def)
  with e' have "ref = r" "s' = s\<lparr>sc_heap := sc_heap s @ [?j]\<rparr>" by (auto simp: enqueue_def Let_def)
  with h r show ?thesis by (simp add: nth_append)
qed


definition sample_env :: "unit fanout_env" where
  "sample_env = \<lparr>fe_market = sample_market\<lparr>mk_read := \<lambda>q w. (Inr (SeriesPayload \<lparr>bs_query = q,
       bs_bars = [sample_bar 0, sample_bar 60], bs_coverage = (empty_coverage q ''s'')\<lparr>cr_status := ''valid''\<rparr>,
       bs_snapshot = None\<rparr>), w)\<rparr>,
     fe_ptf = (\<lambda>t. if t = ''1m'' then Inr \<lparr>tf_canonical = ''1m'', tf_duration_ms = Some 60\<rparr>
       else if t = ''2m'' then Inr \<lparr>tf_canonical = ''2m'', tf_duration_ms = Some 120\<rparr> else Inl PyValueError),
     fe_repr = \<lambda>_. [], fe_error_policy = ''raise'', fe_sum = hd, fe_config = fanout_config_default,
     fe_fresh = \<lambda>n. (CHR ''j'' # show_nat n, 5)\<rparr>"

definition sample_strategy :: strategy_instance where
  "sample_strategy = \<lparr>si_strategy_id = ''s1'', si_artifact_id = ''a'', si_params_hash = ''h'', si_symbol = ''btcusdt'',
     si_timeframe = ''2m'', si_exchange = ''Binance'', si_market_type = ''spot'', si_price_type = ''trade'',
     si_mode = ''paper'', si_enabled = True, si_mtf_series_json = NoText\<rparr>"

lemma sample_sched_ok: "sched_ok sample_env scheduler_init"
proof -
  have "inj show_nat" by (metis injI read_show_nat)
  then show ?thesis
    by (simp add: sched_ok_def fresh_ids_def reachable_inv sample_env_def scheduler_init_def inj_def)
qed

lemma sample_window:
  "fst (target_bar_from_source sample_env (sample_bar 60) ''2m'' ()) =
   Inr (AggregateBar ((sample_bar 0)\<lparr>b_timeframe := \<lparr>tf_canonical = ''2m'', tf_duration_ms = Some 120\<rparr>,
     b_time_close := 120, b_volume := Some (Fin 0)\<rparr>))"
  by code_simp


definition sample_fanout :: "(data_error + fanout_result) \<times> unit \<times> scheduler" where
  "sample_fanout = process_source_bar sample_env [sample_strategy] (sample_bar 60) ((), scheduler_init)"

lemma sample_fanout_shape:
  "(case fst sample_fanout of Inl e \<Rightarrow> False
    | Inr r \<Rightarrow> (case fr_targets r of [t] \<Rightarrow> tr_timeframe t = ''2m'' \<and> tr_jobs t = [0] \<and> tr_bar t \<noteq> None | _ \<Rightarrow> False))"
  by code_simp

lemma enqueue_sample:
  "\<exists>ref s3. enqueue_strategy_job sample_env sample_strategy tb k s2 = (Inr ref, s3)"
proof -
  have "mtf_requests_from_json (\<lambda>t. map_sum id tf_canonical (fe_ptf sample_env t)) (fe_repr sample_env)
      (si_mtf_series_json sample_strategy) = Inr []"
    by (simp add: sample_strategy_def mtf_requests_from_json_def normalize_mtf_requests_def)
  then show ?thesis by (simp add: enqueue_strategy_job_def Let_def split: prod.split)
qed


end
