(* ===== verification/WorkerProtocol.thy ===== *)
theory WorkerProtocol
  imports PyNum
begin

text \<open>
  The worker protocol transcript (\<^verbatim>\<open>openpine/runtime/worker_protocol.py\<close>): the tables of kinds, roles and
  successors, the identities taken from the execution context, and \<open>append\<close> and \<open>accept\<close>, which build
  and check sealed messages against the transcript so far. Contexts and messages are JSON objects. The
  contract package (sealing, hash and schema checks, the final check of a whole sequence) is the
  parameter record \<open>wp_contracts\<close>, together with \<open>str()\<close> of values that are not text (\<open>wp_repr\<close>).
\<close>

subsection \<open>Tables\<close>

definition component_by_kind :: "(string \<times> string) list" where
  "component_by_kind = [(''HELLO'', ''openpine''), (''LOAD_ARTIFACT'', ''openpine''), (''INIT_RUN'', ''openpine''),
     (''BAR_BEGIN'', ''openpine''), (''INTENT_BATCH'', ''pinelib''), (''BROKER_EVENT_BATCH'', ''backtest_engine''),
     (''RECALC_REQUEST'', ''backtest_engine''), (''RECALC_RESULT'', ''pinelib''), (''BAR_COMMIT'', ''backtest_engine''),
     (''CHECKPOINT'', ''openpine''), (''RESTORE'', ''openpine''), (''FINALIZE'', ''openpine''), (''ABORT'', ''openpine'')]"

definition role_by_kind :: "(string \<times> string) list" where
  "role_by_kind = [(''HELLO'', ''worker''), (''LOAD_ARTIFACT'', ''parent''), (''INIT_RUN'', ''parent''),
     (''BAR_BEGIN'', ''parent''), (''INTENT_BATCH'', ''worker''), (''BROKER_EVENT_BATCH'', ''engine''),
     (''RECALC_REQUEST'', ''engine''), (''RECALC_RESULT'', ''worker''), (''BAR_COMMIT'', ''engine''),
     (''CHECKPOINT'', ''parent''), (''RESTORE'', ''parent''), (''FINALIZE'', ''parent''), (''ABORT'', ''parent'')]"

definition roles_by_kind :: "string \<Rightarrow> string list" where
  "roles_by_kind kind =
     (if kind = ''ABORT'' then [''parent'', ''worker'', ''engine'']
      else case map_of role_by_kind kind of None \<Rightarrow> [] | Some r \<Rightarrow> [r])"

definition wp_allowed_after :: "(string \<times> string list) list" where
  "wp_allowed_after = [(''HELLO'', [''LOAD_ARTIFACT'', ''ABORT'']), (''LOAD_ARTIFACT'', [''INIT_RUN'', ''ABORT'']),
     (''INIT_RUN'', [''BAR_BEGIN'', ''RESTORE'', ''FINALIZE'', ''ABORT'']), (''BAR_BEGIN'', [''INTENT_BATCH'', ''ABORT'']),
     (''INTENT_BATCH'', [''BROKER_EVENT_BATCH'', ''BAR_COMMIT'', ''ABORT'']),
     (''BROKER_EVENT_BATCH'', [''RECALC_REQUEST'', ''BAR_COMMIT'', ''ABORT'']),
     (''RECALC_REQUEST'', [''RECALC_RESULT'', ''ABORT'']), (''RECALC_RESULT'', [''INTENT_BATCH'', ''ABORT'']),
     (''BAR_COMMIT'', [''BAR_BEGIN'', ''CHECKPOINT'', ''FINALIZE'', ''ABORT'']),
     (''CHECKPOINT'', [''BAR_BEGIN'', ''RESTORE'', ''FINALIZE'', ''ABORT'']),
     (''RESTORE'', [''BAR_BEGIN'', ''FINALIZE'', ''ABORT'']), (''FINALIZE'', []), (''ABORT'', [])]"

definition component_for :: "string \<Rightarrow> string \<Rightarrow> string" where
  "component_for kind role =
     (if kind = ''ABORT'' \<and> role = ''engine'' then ''backtest_engine'' else the (map_of component_by_kind kind))"

subsection \<open>Transcripts\<close>

type_synonym wp_message = "(string \<times> json) list"

record wp_contracts =
  wp_seal :: "wp_message \<Rightarrow> wp_message"
  wp_valid :: "string \<Rightarrow> wp_message \<Rightarrow> bool"
  wp_verify :: "string \<Rightarrow> wp_message \<Rightarrow> bool"
  wp_sequence_ok :: "wp_message list \<Rightarrow> bool"
  wp_repr :: "json \<Rightarrow> string"

record wp_transcript =
  wt_session_id :: string
  wt_run_id :: string
  wt_stack_id :: string
  wt_components :: "(string \<times> string \<times> string) list"
  wt_messages :: "wp_message list"

datatype wp_error =
    WpSchema
  | WpHash
  | WpVersionMissing
  | WpIdentityMissing
  | WpComponentMissing string
  | WpFieldMissing string
  | WpUnsupportedKind
  | WpInvalidRole
  | WpMustStartWithHello
  | WpInvalidTransition string string
  | WpMismatch string
  | WpSequence
  | WpKeyError

definition wp_schema_id :: string where
  "wp_schema_id = ''openpine.worker.protocol.v2''"

text \<open>\<open>value.partition("rc")\<close>: the parts around the first occurrence, if there is one.\<close>

fun partition_rc :: "string \<Rightarrow> (string \<times> string) option" where
  "partition_rc (c # d # s) =
     (if c = CHR ''r'' \<and> d = CHR ''c'' then Some ([], s) else map_option (\<lambda>(a, b). (c # a, b)) (partition_rc (d # s)))"
| "partition_rc _ = None"

fun contains :: "string \<Rightarrow> string \<Rightarrow> bool" where
  "contains pat [] = (pat = [])"
| "contains pat (c # s) = (take (length pat) (c # s) = pat \<or> contains pat s)"

definition semver :: "json \<Rightarrow> wp_error + string" where
  "semver v =
     (case v of
        JStr s \<Rightarrow>
          if s = [] then Inl WpVersionMissing
          else Inr (if contains ''-rc.'' s then s
            else case partition_rc s of
              None \<Rightarrow> s
            | Some (base, rc) \<Rightarrow> if base \<noteq> [] \<and> rc \<noteq> [] \<and> list_all is_digit rc then base @ ''-rc.'' @ rc else s)
      | _ \<Rightarrow> Inl WpVersionMissing)"

text \<open>The versions dict of \<open>_component_identities\<close>; a later wheel of the same name replaces an earlier one.\<close>

fun wheel_versions :: "json list \<Rightarrow> (string \<times> string) list \<Rightarrow> wp_error + (string \<times> string) list" where
  "wheel_versions [] vs = Inr vs"
| "wheel_versions (row # rows) vs =
     (case row of
        JObj d \<Rightarrow>
          (case json_get d ''name'' of
             JStr n \<Rightarrow> res_bind (semver (json_get d ''version'')) (\<lambda>v. wheel_versions rows (AList.update n v vs))
           | _ \<Rightarrow> wheel_versions rows vs)
      | _ \<Rightarrow> wheel_versions rows vs)"

fun identities_for ::
  "string list \<Rightarrow> (string \<times> string) list \<Rightarrow> (string \<times> json) list \<Rightarrow> wp_error + (string \<times> string \<times> string) list"
where
  "identities_for [] versions commits = Inr []"
| "identities_for (c # cs) versions commits =
     (case (map_of versions c, json_get commits c) of
        (Some v, JStr commit) \<Rightarrow>
          if v = [] \<or> length commit \<noteq> 40 then Inl (WpComponentMissing c)
          else res_bind (identities_for cs versions commits) (\<lambda>ids. Inr ((c, v, commit) # ids))
      | _ \<Rightarrow> Inl (WpComponentMissing c))"

definition wp_components :: "string list" where
  "wp_components = [''openpine'', ''pinelib'', ''backtest_engine'']"

definition component_identities :: "(string \<times> json) list \<Rightarrow> wp_error + (string \<times> string \<times> string) list" where
  "component_identities ctx =
     (case (json_items (json_get ctx ''producer_commits''), json_get ctx ''wheel_identities'') of
        (Some commits, JList wheels) \<Rightarrow>
          res_bind (wheel_versions wheels []) (\<lambda>versions. identities_for wp_components versions commits)
      | _ \<Rightarrow> Inl WpIdentityMissing)"

definition context_text :: "(string \<times> json) list \<Rightarrow> string \<Rightarrow> wp_error + string" where
  "context_text ctx f = (case json_get ctx f of JStr s \<Rightarrow> if s = [] then Inl (WpFieldMissing f) else Inr s | _ \<Rightarrow> Inl (WpFieldMissing f))"

definition wp_init :: "wp_contracts \<Rightarrow> (string \<times> json) list \<Rightarrow> wp_error + wp_transcript" where
  "wp_init K ctx =
     (if \<not> wp_valid K ''openpine.execution_context.v1'' ctx then Inl WpSchema
      else if \<not> wp_verify K ''openpine.execution_context.v1'' ctx then Inl WpHash
      else
        res_bind (component_identities ctx) (\<lambda>ids.
        res_bind (context_text ctx ''session_id'') (\<lambda>session.
        res_bind (context_text ctx ''run_id'') (\<lambda>run.
        res_bind (context_text ctx ''stack_manifest_hash'') (\<lambda>stack.
          Inr \<lparr>wt_session_id = session, wt_run_id = run, wt_stack_id = stack, wt_components = ids, wt_messages = []\<rparr>)))))"

text \<open>\<open>str(value)\<close> where it is looked up in the tables: what is no text has no entry there.\<close>

definition text_of :: "json \<Rightarrow> string option" where
  "text_of j = (case j of JStr s \<Rightarrow> Some s | _ \<Rightarrow> None)"

definition last_message_id :: "wp_contracts \<Rightarrow> wp_transcript \<Rightarrow> wp_error + json" where
  "last_message_id K t =
     (if wt_messages t = [] then Inr JNull
      else case map_of (last (wt_messages t)) ''message_id'' of
          None \<Rightarrow> Inl WpKeyError
        | Some j \<Rightarrow> Inr (JStr (case j of JStr s \<Rightarrow> s | _ \<Rightarrow> wp_repr K j)))"

definition last_kind :: "wp_transcript \<Rightarrow> string" where
  "last_kind t = (case text_of (json_get (last (wt_messages t)) ''kind'') of None \<Rightarrow> [] | Some s \<Rightarrow> s)"

definition check_transition :: "string \<Rightarrow> wp_transcript \<Rightarrow> wp_error + unit" where
  "check_transition kind t =
     (if wt_messages t = [] then (if kind = ''HELLO'' then Inr () else Inl WpMustStartWithHello)
      else if kind \<in> set (the (map_of wp_allowed_after (last_kind t))) then Inr ()
      else Inl (WpInvalidTransition (last_kind t) kind))"

text \<open>The fields both sides agree on, in the order of the \<open>expected\<close> dict.\<close>

definition expected_fields ::
  "wp_transcript \<Rightarrow> string \<Rightarrow> string \<Rightarrow> json \<Rightarrow> (string \<times> json) list"
where
  "expected_fields t component role cause =
     (case the (map_of (wt_components t) component) of (version, commit) \<Rightarrow>
         [(''producer'', JStr component), (''producer_version'', JStr version), (''producer_commit'', JStr commit),
          (''stack_id'', JStr (wt_stack_id t)), (''session_id'', JStr (wt_session_id t)), (''run_id'', JStr (wt_run_id t)),
          (''sequence'', JInt (int (length (wt_messages t)))), (''correlation_id'', JStr (wt_run_id t)),
          (''causation_id'', cause), (''sender_role'', JStr role)])"

text \<open>\<open>message.get(field) != value\<close>: an integer also equals the float and the truth value of the same size.\<close>

fun json_same :: "json \<Rightarrow> json \<Rightarrow> bool" where
  "json_same (JFloat (Fin r)) (JInt n) = (r = of_int n)"
| "json_same (JBool b) (JInt n) = ((if b then 1 else 0) = n)"
| "json_same j k = (j = k)"

fun check_fields :: "(string \<times> json) list \<Rightarrow> wp_message \<Rightarrow> wp_error + unit" where
  "check_fields [] m = Inr ()"
| "check_fields ((f, v) # fs) m = (if json_same (json_get m f) v then check_fields fs m else Inl (WpMismatch f))"

definition record_message ::
  "wp_contracts \<Rightarrow> string \<Rightarrow> wp_message \<Rightarrow> wp_transcript \<Rightarrow> wp_error + wp_message \<times> wp_transcript"
where
  "record_message K kind m t =
     (if kind \<in> {''FINALIZE'', ''ABORT''} \<and> \<not> wp_sequence_ok K (wt_messages t @ [m]) then Inl WpSequence
      else Inr (m, t\<lparr>wt_messages := wt_messages t @ [m]\<rparr>))"

definition wp_accept :: "wp_contracts \<Rightarrow> wp_message \<Rightarrow> wp_transcript \<Rightarrow> wp_error + wp_message \<times> wp_transcript" where
  "wp_accept K m t =
     (if \<not> wp_valid K wp_schema_id m then Inl WpSchema
      else if \<not> wp_verify K wp_schema_id m then Inl WpHash
      else case map_of m ''kind'' of
        None \<Rightarrow> Inl WpKeyError
      | Some kj \<Rightarrow>
          (case text_of kj of
             None \<Rightarrow> Inl WpUnsupportedKind
           | Some kind \<Rightarrow>
               if map_of component_by_kind kind = None then Inl WpUnsupportedKind
               else case text_of (json_get m ''sender_role'') of
                 None \<Rightarrow> Inl WpInvalidRole
               | Some role \<Rightarrow>
                   if role \<notin> set (roles_by_kind kind) then Inl WpInvalidRole
                   else
                     res_bind (check_transition kind t) (\<lambda>_.
                     res_bind (last_message_id K t) (\<lambda>cause.
                     res_bind (check_fields (expected_fields t (component_for kind role) role cause) m) (\<lambda>_.
                       record_message K kind m t)))))"

definition wp_payload ::
  "wp_transcript \<Rightarrow> string \<Rightarrow> string \<Rightarrow> json \<Rightarrow> int \<Rightarrow> (string \<times> json) list \<Rightarrow> wp_message"
where
  "wp_payload t kind role cause created body =
     (let component = component_for kind role in
      case the (map_of (wt_components t) component) of (version, commit) \<Rightarrow>
         [(''schema_id'', JStr wp_schema_id), (''schema_version'', JStr ''2.3.0''), (''producer'', JStr component),
          (''producer_version'', JStr version), (''producer_commit'', JStr commit), (''stack_id'', JStr (wt_stack_id t)),
          (''created_at_utc_ms'', JInt created), (''serializer_id'', JStr ''openpine.canonical.json.v1''),
          (''content_hash_alg'', JStr ''sha256''),
          (''message_id'', JStr (wt_session_id t @ '':'' @ show_nat (length (wt_messages t)) @ '':'' @ kind)),
          (''sender_role'', JStr role), (''session_id'', JStr (wt_session_id t)), (''run_id'', JStr (wt_run_id t)),
          (''sequence'', JInt (int (length (wt_messages t)))), (''correlation_id'', JStr (wt_run_id t)),
          (''causation_id'', cause), (''kind'', JStr kind), (''body'', JObj body)])"

definition wp_append ::
  "wp_contracts \<Rightarrow> string \<Rightarrow> (string \<times> json) list \<Rightarrow> int \<Rightarrow> string option \<Rightarrow> wp_transcript
   \<Rightarrow> wp_error + wp_message \<times> wp_transcript"
where
  "wp_append K kind body created sender t =
     (if map_of component_by_kind kind = None then Inl WpUnsupportedKind
      else
        (let role = str_or sender (the (map_of role_by_kind kind))
         in if role \<notin> set (roles_by_kind kind) then Inl WpInvalidRole
            else
              res_bind (check_transition kind t) (\<lambda>_.
              res_bind (last_message_id K t) (\<lambda>cause.
                let sealed = wp_seal K (wp_payload t kind role cause created body)
                in if \<not> wp_valid K wp_schema_id sealed then Inl WpSchema
                   else record_message K kind sealed t))))"

definition wp_validate :: "wp_contracts \<Rightarrow> wp_transcript \<Rightarrow> wp_error + unit" where
  "wp_validate K t = (if wp_sequence_ok K (wt_messages t) then Inr () else Inl WpSequence)"

subsection \<open>Sessions\<close>

text \<open>What is relied on of sealing: it only adds the content hash, and a sealed message verifies.\<close>

definition seals :: "wp_contracts \<Rightarrow> bool" where
  "seals K \<longleftrightarrow> (\<forall>m f. f \<noteq> ''content_hash'' \<longrightarrow> map_of (wp_seal K m) f = map_of m f)
     \<and> (\<forall>m. wp_verify K wp_schema_id (wp_seal K m))"

datatype wp_op =
    WpAppend string "(string \<times> json) list" int "string option"
  | WpAccept wp_message

definition after_call :: "wp_transcript \<Rightarrow> wp_error + wp_message \<times> wp_transcript \<Rightarrow> wp_transcript" where
  "after_call t r = (case r of Inl e \<Rightarrow> t | Inr (m, t') \<Rightarrow> t')"

fun wp_step :: "wp_contracts \<Rightarrow> wp_op \<Rightarrow> wp_transcript \<Rightarrow> wp_transcript" where
  "wp_step K (WpAppend kind body created sender) t = after_call t (wp_append K kind body created sender t)"
| "wp_step K (WpAccept m) t = after_call t (wp_accept K m t)"

text \<open>The identity of the session: what no call changes.\<close>

definition same_session :: "wp_transcript \<Rightarrow> wp_transcript \<Rightarrow> bool" where
  "same_session t t' \<longleftrightarrow> wt_session_id t' = wt_session_id t \<and> wt_run_id t' = wt_run_id t
     \<and> wt_stack_id t' = wt_stack_id t \<and> wt_components t' = wt_components t"

text \<open>A message that may follow the messages \<open>ms\<close> of a session.\<close>

definition cause_of :: "wp_contracts \<Rightarrow> wp_message list \<Rightarrow> json" where
  "cause_of K ms =
     (if ms = [] then JNull
      else JStr (case json_get (last ms) ''message_id'' of JStr s \<Rightarrow> s | j \<Rightarrow> wp_repr K j))"

definition identity_ok :: "wp_transcript \<Rightarrow> string \<Rightarrow> string \<Rightarrow> wp_message \<Rightarrow> bool" where
  "identity_ok t kind role m \<longleftrightarrow>
     (\<exists>version commit. map_of (wt_components t) (component_for kind role) = Some (version, commit)
        \<and> json_get m ''producer'' = JStr (component_for kind role)
        \<and> json_get m ''producer_version'' = JStr version \<and> json_get m ''producer_commit'' = JStr commit)
     \<and> json_get m ''stack_id'' = JStr (wt_stack_id t) \<and> json_get m ''session_id'' = JStr (wt_session_id t)
     \<and> json_get m ''run_id'' = JStr (wt_run_id t) \<and> json_get m ''correlation_id'' = JStr (wt_run_id t)"

definition follows :: "string \<Rightarrow> wp_message list \<Rightarrow> bool" where
  "follows kind ms \<longleftrightarrow>
     (if ms = [] then kind = ''HELLO''
      else \<exists>k. json_get (last ms) ''kind'' = JStr k \<and> kind \<in> set (the (map_of wp_allowed_after k)))"

definition next_ok :: "wp_contracts \<Rightarrow> wp_transcript \<Rightarrow> wp_message list \<Rightarrow> wp_message \<Rightarrow> bool" where
  "next_ok K t ms m \<longleftrightarrow>
     (\<exists>kind role. json_get m ''kind'' = JStr kind \<and> json_get m ''sender_role'' = JStr role
        \<and> kind \<in> fst ` set component_by_kind \<and> role \<in> set (roles_by_kind kind) \<and> follows kind ms
        \<and> identity_ok t kind role m \<and> json_same (json_get m ''sequence'') (JInt (int (length ms)))
        \<and> json_get m ''causation_id'' = cause_of K ms \<and> wp_valid K wp_schema_id m
        \<and> (kind \<in> {''FINALIZE'', ''ABORT''} \<longrightarrow> wp_sequence_ok K (ms @ [m])))"

definition transcript_ok :: "wp_contracts \<Rightarrow> wp_transcript \<Rightarrow> bool" where
  "transcript_ok K t \<longleftrightarrow>
     set wp_components \<subseteq> fst ` set (wt_components t)
     \<and> (\<forall>i < length (wt_messages t). next_ok K t (take i (wt_messages t)) (wt_messages t ! i))"

lemma all_snoc: "(\<forall>i < length (xs @ [x]). P (take i (xs @ [x])) ((xs @ [x]) ! i)) \<longleftrightarrow>
    (\<forall>i < length xs. P (take i xs) (xs ! i)) \<and> P xs x"
proof -
  have "(\<forall>i < Suc (length xs). P (take i (xs @ [x])) ((xs @ [x]) ! i)) \<longleftrightarrow>
      (\<forall>i < length xs. P (take i (xs @ [x])) ((xs @ [x]) ! i)) \<and> P xs x"
    by (simp add: All_less_Suc conj_commute)
  also have "(\<forall>i < length xs. P (take i (xs @ [x])) ((xs @ [x]) ! i)) \<longleftrightarrow> (\<forall>i < length xs. P (take i xs) (xs ! i))"
    by (simp add: nth_append)
  finally show ?thesis by simp
qed

lemma transcript_ok_snoc:
  "transcript_ok K (t\<lparr>wt_messages := wt_messages t @ [m]\<rparr>) \<longleftrightarrow> transcript_ok K t \<and> next_ok K t (wt_messages t) m"
proof -
  have "next_ok K (t\<lparr>wt_messages := ms\<rparr>) = next_ok K t" for ms
    by (intro ext) (simp add: next_ok_def identity_ok_def)
  moreover have "wt_messages (t\<lparr>wt_messages := ms\<rparr>) = ms" "wt_components (t\<lparr>wt_messages := ms\<rparr>) = wt_components t" for ms
    by simp_all
  ultimately show ?thesis by (simp only: transcript_ok_def all_snoc) blast
qed

lemma kind_component: "kind \<in> fst ` set component_by_kind \<Longrightarrow> component_for kind role \<in> set wp_components"
  unfolding component_by_kind_def component_for_def wp_components_def by auto

lemma known_component:
  assumes "transcript_ok K t" and "kind \<in> fst ` set component_by_kind"
  obtains version commit where "map_of (wt_components t) (component_for kind role) = Some (version, commit)"
proof -
  from assms kind_component [OF assms(2), of role] have "component_for kind role \<in> fst ` set (wt_components t)"
    unfolding transcript_ok_def by blast
  then obtain vc where "map_of (wt_components t) (component_for kind role) = Some vc"
    by (metis map_of_eq_None_iff not_None_eq)
  then show thesis by (cases vc) (auto intro: that)
qed

lemma json_same_text [simp]: "json_same j (JStr s) \<longleftrightarrow> j = JStr s" "json_same j JNull \<longleftrightarrow> j = JNull"
  by (cases "(j, JStr s)" rule: json_same.cases; simp) (cases "(j, JNull)" rule: json_same.cases; simp)

lemma json_same_refl [simp]: "json_same j j"
  by (cases "(j, j)" rule: json_same.cases) auto

lemma check_fields_ok: "check_fields fs m = Inr () \<longleftrightarrow> (\<forall>(f, v) \<in> set fs. json_same (json_get m f) v)"
  by (induction fs) (auto split: if_splits)

lemma last_kind_ok:
  assumes "transcript_ok K t" and "wt_messages t \<noteq> []"
  shows "json_get (last (wt_messages t)) ''kind'' = JStr (last_kind t)"
proof -
  let ?n = "length (wt_messages t) - 1"
  from assms(2) have "?n < length (wt_messages t)" and "wt_messages t ! ?n = last (wt_messages t)"
    by (simp_all add: last_conv_nth)
  with assms(1) have "next_ok K t (take ?n (wt_messages t)) (last (wt_messages t))"
    unfolding transcript_ok_def by metis
  then show ?thesis by (auto simp: next_ok_def last_kind_def text_of_def)
qed

lemma check_transition_ok:
  assumes "transcript_ok K t"
  shows "check_transition kind t = Inr () \<longleftrightarrow> follows kind (wt_messages t)"
  using last_kind_ok [OF assms] by (auto simp: check_transition_def follows_def)

lemma last_message_id_ok:
  assumes "last_message_id K t = Inr c"
  shows "c = cause_of K (wt_messages t)"
  using assms by (auto simp: last_message_id_def cause_of_def json_get_def split: option.splits if_splits json.splits)

lemma record_message_ok:
  "record_message K kind m t = Inr (m', t') \<longleftrightarrow>
     m' = m \<and> t' = t\<lparr>wt_messages := wt_messages t @ [m]\<rparr>
     \<and> (kind \<in> {''FINALIZE'', ''ABORT''} \<longrightarrow> wp_sequence_ok K (wt_messages t @ [m]))"
  by (auto simp: record_message_def)

lemma expected_fields_ok:
  assumes "check_fields (expected_fields t (component_for kind role) role cause) m = Inr ()"
    and "map_of (wt_components t) (component_for kind role) = Some (version, commit)"
  shows "identity_ok t kind role m" "json_same (json_get m ''sequence'') (JInt (int (length (wt_messages t))))"
    "json_same (json_get m ''causation_id'') cause" "json_get m ''sender_role'' = JStr role"
  using assms unfolding check_fields_ok by (simp_all add: expected_fields_def identity_ok_def)

lemma cause_same: "json_same j (cause_of K ms) \<longleftrightarrow> j = cause_of K ms"
  by (simp add: cause_of_def)

lemma accept_next:
  assumes ok: "transcript_ok K t" and acc: "wp_accept K m t = Inr (m', t')"
  shows "m' = m" "t' = t\<lparr>wt_messages := wt_messages t @ [m]\<rparr>" "next_ok K t (wt_messages t) m"
proof -
  from acc obtain kj kind where kj: "map_of m ''kind'' = Some kj" "text_of kj = Some kind"
      and known: "map_of component_by_kind kind \<noteq> None" and valid: "wp_valid K wp_schema_id m"
    by (auto simp: wp_accept_def split: if_splits option.splits)
  with acc obtain role cause where role: "role \<in> set (roles_by_kind kind)"
      and trans: "check_transition kind t = Inr ()" and cause: "last_message_id K t = Inr cause"
      and fields: "check_fields (expected_fields t (component_for kind role) role cause) m = Inr ()"
      and rec: "record_message K kind m t = Inr (m', t')"
    by (auto simp: wp_accept_def res_bind_Inr_iff split: if_splits option.splits)
  from kj have kind: "json_get m ''kind'' = JStr kind" by (auto simp: json_get_def text_of_def split: json.splits)
  from known have dom: "kind \<in> fst ` set component_by_kind" by (simp add: map_of_eq_None_iff)
  obtain version commit where "map_of (wt_components t) (component_for kind role) = Some (version, commit)"
    using known_component [OF ok dom] .
  note ident = expected_fields_ok [OF fields this]
  from rec show "m' = m" and "t' = t\<lparr>wt_messages := wt_messages t @ [m]\<rparr>" by (simp_all add: record_message_ok)
  from trans have "follows kind (wt_messages t)" by (simp add: check_transition_ok [OF ok])
  moreover from ident(3) have "json_get m ''causation_id'' = cause_of K (wt_messages t)"
    by (simp add: last_message_id_ok [OF cause] cause_same)
  ultimately show "next_ok K t (wt_messages t) m"
    unfolding next_ok_def using kind ident(1,2,4) dom role valid rec by (auto simp: record_message_ok)
qed

lemma append_cases:
  assumes "wp_append K kind body created sender t = Inr (m, t')"
  obtains role cause where "map_of component_by_kind kind \<noteq> None" "role \<in> set (roles_by_kind kind)"
    "check_transition kind t = Inr ()" "last_message_id K t = Inr cause"
    "m = wp_seal K (wp_payload t kind role cause created body)" "wp_valid K wp_schema_id m"
    "record_message K kind m t = Inr (m, t')"
proof -
  from assms obtain cause where "map_of component_by_kind kind \<noteq> None"
      "str_or sender (the (map_of role_by_kind kind)) \<in> set (roles_by_kind kind)"
      "check_transition kind t = Inr ()" "last_message_id K t = Inr cause"
      "m = wp_seal K (wp_payload t kind (str_or sender (the (map_of role_by_kind kind))) cause created body)"
      "wp_valid K wp_schema_id m" "record_message K kind m t = Inr (m, t')"
    by (auto simp: wp_append_def Let_def res_bind_Inr_iff record_message_ok split: if_splits)
  then show thesis by (rule that)
qed

lemma seal_fields: "seals K \<Longrightarrow> f \<noteq> ''content_hash'' \<Longrightarrow> json_get (wp_seal K m) f = json_get m f"
  by (simp add: seals_def json_get_def)

lemma payload_fields:
  assumes "map_of (wt_components t) (component_for kind role) = Some (version, commit)"
  shows "check_fields (expected_fields t (component_for kind role) role cause)
      (wp_payload t kind role cause created body) = Inr ()"
    "json_get (wp_payload t kind role cause created body) ''kind'' = JStr kind"
    "json_get (wp_payload t kind role cause created body) ''sender_role'' = JStr role"
  using assms by (simp_all add: wp_payload_def expected_fields_def json_get_def Let_def)

lemma append_next:
  assumes K: "seals K" and ok: "transcript_ok K t" and app: "wp_append K kind body created sender t = Inr (m, t')"
  shows "t' = t\<lparr>wt_messages := wt_messages t @ [m]\<rparr>" "wp_accept K m t = Inr (m, t')"
proof -
  from app obtain role cause where known: "map_of component_by_kind kind \<noteq> None"
      and role: "role \<in> set (roles_by_kind kind)" and trans: "check_transition kind t = Inr ()"
      and cause: "last_message_id K t = Inr cause"
      and m: "m = wp_seal K (wp_payload t kind role cause created body)" and valid: "wp_valid K wp_schema_id m"
      and rec: "record_message K kind m t = Inr (m, t')"
    by (rule append_cases)
  from rec show "t' = t\<lparr>wt_messages := wt_messages t @ [m]\<rparr>" by (simp add: record_message_ok)
  from known have "kind \<in> fst ` set component_by_kind" by (simp add: map_of_eq_None_iff)
  then obtain version commit where vc: "map_of (wt_components t) (component_for kind role) = Some (version, commit)"
    using known_component [OF ok] by metis
  have get: "json_get m f = json_get (wp_payload t kind role cause created body) f" if "f \<noteq> ''content_hash''" for f
    unfolding m by (rule seal_fields [OF K that])
  have fields: "check_fields (expected_fields t (component_for kind role) role cause) m = Inr ()"
    using payload_fields(1) [OF vc, of cause created body] vc get
    unfolding check_fields_ok by (simp add: expected_fields_def)
  have "json_get m ''kind'' = JStr kind" and srole: "json_get m ''sender_role'' = JStr role"
    by (simp_all add: get payload_fields [OF vc])
  then have kind: "map_of m ''kind'' = Some (JStr kind)" by (simp add: json_get_def split: option.splits)
  have "wp_verify K wp_schema_id m" using K unfolding m seals_def by blast
  then show "wp_accept K m t = Inr (m, t')"
    using valid kind srole known role trans cause fields rec by (auto simp: wp_accept_def text_of_def)
qed

lemma wp_step_cases:
  assumes "seals K" and ok: "transcript_ok K t"
  shows "wp_step K op t = t \<or>
    (\<exists>m. wp_step K op t = t\<lparr>wt_messages := wt_messages t @ [m]\<rparr> \<and> next_ok K t (wt_messages t) m)"
proof (cases op)
  case op: (WpAppend kind body created sender)
  show ?thesis
  proof (cases "wp_append K kind body created sender t")
    case (Inr b)
    then obtain m t' where r: "wp_append K kind body created sender t = Inr (m, t')" by (cases b) auto
    from accept_next [OF ok append_next(2) [OF assms r]] r op show ?thesis by (auto simp: after_call_def)
  qed (simp add: op after_call_def)
next
  case op: (WpAccept m)
  show ?thesis
  proof (cases "wp_accept K m t")
    case (Inr b)
    then obtain m' t' where r: "wp_accept K m t = Inr (m', t')" by (cases b) auto
    from accept_next [OF ok r] r op show ?thesis by (auto simp: after_call_def)
  qed (simp add: op after_call_def)
qed

lemma wp_step_ok: "seals K \<Longrightarrow> transcript_ok K t \<Longrightarrow> transcript_ok K (wp_step K op t)"
  using wp_step_cases [of K t op] by (auto simp: transcript_ok_snoc)

lemma same_session_step: "seals K \<Longrightarrow> transcript_ok K t \<Longrightarrow> same_session t (wp_step K op t)"
  using wp_step_cases [of K t op] by (auto simp: same_session_def)

lemma identities_for_ok: "identities_for cs versions commits = Inr ids \<Longrightarrow> map fst ids = cs"
  by (induction cs arbitrary: ids)
    (auto simp: res_bind_Inr_iff split: option.splits json.splits if_splits)

lemma wp_init_ok:
  assumes "wp_init K ctx = Inr t"
  shows "transcript_ok K t" "wt_messages t = []"
proof -
  from assms obtain versions commits where "identities_for wp_components versions commits = Inr (wt_components t)"
      and "wt_messages t = []"
    by (auto simp: wp_init_def component_identities_def res_bind_Inr_iff split: if_splits option.splits json.splits)
  then show "wt_messages t = []" and "transcript_ok K t"
    by (auto simp: transcript_ok_def dest!: identities_for_ok) (metis image_set)
qed

text \<open>Two processes that hold the same session: one appends a message, the other accepts it.\<close>

datatype wp_send = WpSend bool string "(string \<times> json) list" int "string option"

fun send_op :: "wp_send \<Rightarrow> wp_op" where
  "send_op (WpSend left kind body created sender) = WpAppend kind body created sender"

fun deliver ::
  "wp_contracts \<Rightarrow> wp_send \<Rightarrow> wp_transcript \<times> wp_transcript \<Rightarrow> wp_transcript \<times> wp_transcript"
where
  "deliver K (WpSend left kind body created sender) (a, b) =
     (case wp_append K kind body created sender (if left then a else b) of
        Inl e \<Rightarrow> (a, b)
      | Inr (m, t') \<Rightarrow> if left then (t', wp_step K (WpAccept m) b) else (wp_step K (WpAccept m) a, t'))"

lemma deliver_same:
  assumes "seals K" and "transcript_ok K t"
  shows "deliver K x (t, t) = (wp_step K (send_op x) t, wp_step K (send_op x) t)"
  using append_next(2) [OF assms] by (cases x) (auto simp: after_call_def split: sum.splits)

interpretation wp: invariant_machine "wp_step K" "\<lambda>t. seals K \<and> transcript_ok K t" for K
  by unfold_locales (simp add: wp_step_ok)

interpretation wps: refinement_machine "deliver K" "\<lambda>p. seals K \<and> fst p = snd p \<and> transcript_ok K (fst p)"
    fst "\<lambda>x. wp_step K (send_op x)" for K
  by unfold_locales (auto simp: deliver_same wp_step_ok)

lemma run_same_session:
  assumes "seals K" and "transcript_ok K t0"
  shows "same_session t0 (fold (wp_step K) ops t0)"
proof (rule wp.run_stable [of K])
  show "same_session t0 t0" by (simp add: same_session_def)
  show "same_session t0 (wp_step K op t)" if "seals K \<and> transcript_ok K t" "same_session t0 t" for t op
    using that same_session_step [of K t op] by (simp add: same_session_def)
qed (use assms in blast)

lemma next_ok_session: "same_session t0 t \<Longrightarrow> next_ok K t = next_ok K t0"
  by (intro ext) (simp add: next_ok_def identity_ok_def same_session_def)

lemma closing_is_last:
  assumes ok: "transcript_ok K t" and "Suc i < length (wt_messages t)"
  shows "json_get (wt_messages t ! i) ''kind'' \<notin> {JStr ''FINALIZE'', JStr ''ABORT''}"
proof -
  let ?ms = "wt_messages t"
  from ok assms(2) have "next_ok K t (take (Suc i) ?ms) (?ms ! Suc i)" by (simp add: transcript_ok_def)
  then obtain kind where "follows kind (take (Suc i) ?ms)" unfolding next_ok_def by blast
  moreover have "last (take (Suc i) ?ms) = ?ms ! i" "take (Suc i) ?ms \<noteq> []" using assms(2) by (simp_all add: take_Suc_conv_app_nth)
  ultimately show ?thesis by (auto simp: follows_def wp_allowed_after_def)
qed

text \<open>C37: the transcript of a worker session is well formed after any sequence of \<open>append\<close> and \<open>accept\<close>
  calls, refused ones included: it belongs to the session it was opened for, every message has a known
  kind, a role that may send that kind and the identity (producer, version, commit, stack, session, run)
  of the component that role stands for, is numbered by its position, is caused by the message before
  it, is \<open>HELLO\<close> or a permitted successor of its predecessor, and nothing follows a \<open>FINALIZE\<close> or \<open>ABORT\<close>.\<close>

theorem transcript_well_formed:
  assumes "seals K" and "wp_init K ctx = Inr t0" and "i < length (wt_messages (fold (wp_step K) ops t0))"
  shows "same_session t0 (fold (wp_step K) ops t0)
    \<and> next_ok K t0 (take i (wt_messages (fold (wp_step K) ops t0))) (wt_messages (fold (wp_step K) ops t0) ! i)
    \<and> (json_get (wt_messages (fold (wp_step K) ops t0) ! i) ''kind'' \<in> {JStr ''FINALIZE'', JStr ''ABORT''}
         \<longrightarrow> Suc i = length (wt_messages (fold (wp_step K) ops t0)))"
proof -
  let ?t = "fold (wp_step K) ops t0"
  note t0 = wp_init_ok(1) [OF assms(2)]
  with assms(1) have same: "same_session t0 ?t" by (rule run_same_session)
  from wp.run_inv [of K t0] assms(1) t0 have ok: "transcript_ok K ?t" by blast
  with assms(3) have "next_ok K t0 (take i (wt_messages ?t)) (wt_messages ?t ! i)"
    unfolding transcript_ok_def next_ok_session [OF same] by blast
  with same closing_is_last [OF ok] assms(3) show ?thesis by (metis Suc_lessI)
qed

text \<open>C38: the two processes of a session agree. Whichever side appends each message, when the other side is
  given what was appended it accepts it, so both transcripts stay equal to the one a single transcript
  would hold after the same calls.\<close>

theorem session_lockstep:
  assumes "seals K" and "wp_init K ctx = Inr t0"
  shows "fold (deliver K) xs (t0, t0) = (fold (wp_step K) (map send_op xs) t0, fold (wp_step K) (map send_op xs) t0)"
proof -
  let ?p = "fold (deliver K) xs (t0, t0)"
  have start: "seals K \<and> fst (t0, t0) = snd (t0, t0) \<and> transcript_ok K (fst (t0, t0))"
    using assms wp_init_ok(1) by simp
  have "fst ?p = fold (wp_step K) (map send_op xs) t0"
    using wps.run_abs [OF start] by (simp add: fold_map comp_def)
  moreover have "fst ?p = snd ?p" using wps.run_inv [OF start] by blast
  ultimately show ?thesis by (metis prod.collapse)
qed

definition sample_wp :: wp_contracts where
  "sample_wp = \<lparr>wp_seal = (\<lambda>m. (''content_hash'', JStr ''sealed'') # m),
     wp_valid = (\<lambda>schema m. json_get m ''content_hash'' \<noteq> JNull),
     wp_verify = (\<lambda>schema m. json_get m ''content_hash'' = JStr ''sealed''),
     wp_sequence_ok = (\<lambda>ms. length ms \<ge> 2), wp_repr = (\<lambda>j. ''?'')\<rparr>"

definition sample_commit :: string where
  "sample_commit = replicate 40 (CHR ''a'')"

definition sample_context :: "(string \<times> json) list" where
  "sample_context = [(''content_hash'', JStr ''sealed''), (''session_id'', JStr ''s1''), (''run_id'', JStr ''r1''),
     (''stack_manifest_hash'', JStr ''st''),
     (''producer_commits'', JObj [(''openpine'', JStr sample_commit), (''pinelib'', JStr sample_commit),
        (''backtest_engine'', JStr sample_commit)]),
     (''wheel_identities'', JList [JObj [(''name'', JStr ''openpine''), (''version'', JStr ''1.2.0rc3'')],
        JObj [(''name'', JStr ''pinelib''), (''version'', JStr ''2.0.0'')],
        JObj [(''name'', JStr ''backtest_engine''), (''version'', JStr ''3.1.0-rc.4'')]])]"

definition sample_transcript :: wp_transcript where
  "sample_transcript = \<lparr>wt_session_id = ''s1'', wt_run_id = ''r1'', wt_stack_id = ''st'',
     wt_components = [(''openpine'', ''1.2.0-rc.3'', sample_commit), (''pinelib'', ''2.0.0'', sample_commit),
       (''backtest_engine'', ''3.1.0-rc.4'', sample_commit)], wt_messages = []\<rparr>"

lemma sample_seals: "seals sample_wp"
  by (simp add: seals_def sample_wp_def json_get_def)

lemma sample_init: "wp_init sample_wp sample_context = Inr sample_transcript"
  by code_simp

definition sample_sends :: "wp_send list" where
  "sample_sends = [WpSend True ''HELLO'' [] 10 None, WpSend False ''BAR_BEGIN'' [] 11 None,
     WpSend False ''LOAD_ARTIFACT'' [(''artifact'', JStr ''a'')] 12 (Some []), WpSend True ''ABORT'' [] 13 (Some ''engine''),
     WpSend True ''INIT_RUN'' [] 14 None]"

lemma sample_messages:
  "map (\<lambda>m. json_get m ''kind'') (wt_messages (fold (wp_step sample_wp) (map send_op sample_sends) sample_transcript))
     = [JStr ''HELLO'', JStr ''LOAD_ARTIFACT'', JStr ''ABORT'']"
  by code_simp

theorem transcript_well_formed_witness:
  "next_ok sample_wp sample_transcript
     (take 2 (wt_messages (fold (wp_step sample_wp) (map send_op sample_sends) sample_transcript)))
     (wt_messages (fold (wp_step sample_wp) (map send_op sample_sends) sample_transcript) ! 2)"
proof -
  have "length (wt_messages (fold (wp_step sample_wp) (map send_op sample_sends) sample_transcript)) = 3"
    using arg_cong [OF sample_messages, of length] by simp
  then show ?thesis using transcript_well_formed [OF sample_seals sample_init, of 2 "map send_op sample_sends"] by simp
qed

theorem session_lockstep_witness:
  "fst (fold (deliver sample_wp) sample_sends (sample_transcript, sample_transcript))
     = snd (fold (deliver sample_wp) sample_sends (sample_transcript, sample_transcript))
   \<and> map (\<lambda>m. json_get m ''kind'')
       (wt_messages (fst (fold (deliver sample_wp) sample_sends (sample_transcript, sample_transcript))))
     = [JStr ''HELLO'', JStr ''LOAD_ARTIFACT'', JStr ''ABORT'']"
  unfolding session_lockstep [OF sample_seals sample_init] fst_conv snd_conv by (simp only: sample_messages simp_thms)

end
