(* ===== verification/Supervisor.thy ===== *)
theory Supervisor
  imports PyNum
begin

text \<open>
  The supervisor of the gateway's background worker (\<^verbatim>\<open>openpine/gateway/worker_supervisor.py\<close>): starting
  and replacing the worker process, the monitor with its restart budget and backoff, the fail-safe task
  and its retries, termination, shutdown and the health snapshot.

  Coroutines are functions on a world (processes, events, clocks, the event loop) and the supervisor's
  fields. At every \<open>await\<close> the running fail-safe task may finish, another coroutine may read the
  status, and the coroutine may be cancelled; \<open>Halted\<close> stands for a coroutine that takes no further
  step. Processes, events and clocks are the parameter record \<open>worker_env\<close>. Loops that need not end
  carry a number of rounds after which the coroutine is looked at no further (\<open>Halted\<close> again).
\<close>

subsection \<open>Configuration\<close>

record supervisor_config =
  scf_poll_interval :: pyfloat
  scf_backoff_initial :: pyfloat
  scf_backoff_max :: pyfloat
  scf_max_restarts :: int
  scf_restart_window :: pyfloat
  scf_shutdown_timeout :: pyfloat
  scf_terminate_timeout :: pyfloat
  scf_kill_timeout :: pyfloat
  scf_heartbeat_stale :: pyfloat
  scf_startup_timeout :: pyfloat
  scf_fail_safe_max_attempts :: int
  scf_fail_safe_retry :: pyfloat
  scf_fail_safe_attempt_timeout :: pyfloat

definition supervisor_config_default :: supervisor_config where
  "supervisor_config_default = \<lparr>scf_poll_interval = Fin 1, scf_backoff_initial = Fin 1, scf_backoff_max = Fin 30,
     scf_max_restarts = 3, scf_restart_window = Fin 300, scf_shutdown_timeout = Fin 10, scf_terminate_timeout = Fin 5,
     scf_kill_timeout = Fin 2, scf_heartbeat_stale = Fin 15, scf_startup_timeout = Fin 30,
     scf_fail_safe_max_attempts = 3, scf_fail_safe_retry = Fin 1, scf_fail_safe_attempt_timeout = Fin 5\<rparr>"

text \<open>\<open>__post_init__\<close>: the message of the \<open>ValueError\<close>, if one is raised.\<close>

definition config_error :: "supervisor_config \<Rightarrow> string option" where
  "config_error c =
     (if fle (scf_poll_interval c) (Fin 0) then Some ''poll_interval_seconds must be positive''
      else if flt (scf_backoff_initial c) (Fin 0) \<or> flt (scf_backoff_max c) (Fin 0) then Some ''restart backoff must be non-negative''
      else if scf_max_restarts c < 0 then Some ''max_restarts must be non-negative''
      else if fle (scf_restart_window c) (Fin 0) then Some ''restart_window_seconds must be positive''
      else if flt (fmin (fmin (scf_shutdown_timeout c) (scf_terminate_timeout c)) (scf_kill_timeout c)) (Fin 0)
        then Some ''shutdown timeouts must be non-negative''
      else if fle (scf_heartbeat_stale c) (Fin 0) then Some ''heartbeat_stale_seconds must be positive''
      else if fle (scf_startup_timeout c) (Fin 0) then Some ''startup_readiness_timeout_seconds must be positive''
      else if scf_fail_safe_max_attempts c \<le> 0 \<or> flt (scf_fail_safe_retry c) (Fin 0) then Some ''fail-safe retry policy is invalid''
      else if fle (scf_fail_safe_attempt_timeout c) (Fin 0) then Some ''fail_safe_attempt_timeout_seconds must be positive''
      else None)"

subsection \<open>Supervisor, environment and coroutines\<close>

datatype fail_safe_status = FsNotRun | FsRunning | FsFailed | FsOk

text \<open>How the fail-safe task ended.\<close>

datatype fs_end = EndOk | EndError string | EndCancelled

record supervisor =
  su_process :: "nat option"
  su_stop_event :: "nat option"
  su_ready_event :: "nat option"
  su_heartbeat :: "nat option"
  su_started_at :: "pyfloat option"
  su_start_failed :: "nat option"
  su_start_failed_liveness :: "bool option"
  su_monitoring :: bool
  su_stopping :: bool
  su_restart_times :: "pyfloat list"
  su_restart_count :: nat
  su_last_transition :: "pyfloat option"
  su_last_exitcode :: "int option"
  su_degraded :: bool
  su_reason :: "string option"
  su_fs_status :: fail_safe_status
  su_fs_attempts :: int
  su_fs_error :: "string option"
  su_fs_task :: bool

definition supervisor_init :: supervisor where
  "supervisor_init = \<lparr>su_process = None, su_stop_event = None, su_ready_event = None, su_heartbeat = None,
     su_started_at = None, su_start_failed = None, su_start_failed_liveness = None, su_monitoring = False,
     su_stopping = False, su_restart_times = [], su_restart_count = 0, su_last_transition = None,
     su_last_exitcode = None, su_degraded = False, su_reason = None, su_fs_status = FsNotRun,
     su_fs_attempts = 0, su_fs_error = None, su_fs_task = False\<rparr>"

text \<open>What the factory returns: a process with its events, or a tuple of another length.\<close>

datatype created = Created nat "nat option" "nat option" "nat option" | OtherArity

text \<open>Calls that can raise answer \<open>None\<close> (or \<open>False\<close> where nothing is returned) when they do.\<close>

record 'w worker_env =
  we_factory :: "'w \<Rightarrow> created option \<times> 'w"
  we_start :: "nat \<Rightarrow> 'w \<Rightarrow> bool \<times> 'w"
  we_is_alive :: "nat \<Rightarrow> 'w \<Rightarrow> bool option \<times> 'w"
  we_exitcode :: "nat \<Rightarrow> 'w \<Rightarrow> int option option \<times> 'w"
  we_terminate :: "nat \<Rightarrow> 'w \<Rightarrow> bool \<times> 'w"
  we_kill :: "nat \<Rightarrow> 'w \<Rightarrow> bool \<times> 'w"
  we_join :: "nat \<Rightarrow> pyfloat \<Rightarrow> 'w \<Rightarrow> bool \<times> 'w"
  we_event_is_set :: "nat \<Rightarrow> 'w \<Rightarrow> bool option \<times> 'w"
  we_event_set :: "nat \<Rightarrow> 'w \<Rightarrow> bool \<times> 'w"
  we_heartbeat :: "nat \<Rightarrow> 'w \<Rightarrow> pyfloat option \<times> 'w"
  we_on_process :: "nat \<Rightarrow> 'w \<Rightarrow> bool \<times> 'w"
  we_time :: "'w \<Rightarrow> pyfloat \<times> 'w"
  we_monotonic :: "'w \<Rightarrow> pyfloat \<times> 'w"
  we_sleep :: "pyfloat \<Rightarrow> 'w \<Rightarrow> 'w"
  we_settled :: "'w \<Rightarrow> fs_end option \<times> 'w"
  we_finish :: "'w \<Rightarrow> fs_end option \<times> 'w"
  we_polled :: "'w \<Rightarrow> bool \<times> 'w"
  we_cancelled :: "'w \<Rightarrow> bool \<times> 'w"
  we_pid :: "nat \<Rightarrow> int option"

datatype 'a outcome = Finished 'a | Raised | Halted

type_synonym ('w, 'a) act = "'w \<times> supervisor \<Rightarrow> 'a outcome \<times> 'w \<times> supervisor"

definition act_return :: "'a \<Rightarrow> ('w, 'a) act" where
  "act_return x st = (Finished x, st)"

definition act_stop :: "'a outcome \<Rightarrow> ('w, 'a) act" where
  "act_stop r st = (r, st)"

definition act_bind :: "('w, 'a) act \<Rightarrow> ('a \<Rightarrow> ('w, 'b) act) \<Rightarrow> ('w, 'b) act" where
  "act_bind m f st = (case m st of (Finished x, st') \<Rightarrow> f x st' | (Raised, st') \<Rightarrow> (Raised, st') | (Halted, st') \<Rightarrow> (Halted, st'))"

definition act_then :: "('w, 'a) act \<Rightarrow> ('w, 'b) act \<Rightarrow> ('w, 'b) act" where
  "act_then m k = act_bind m (\<lambda>_. k)"

definition act_catch :: "('w, 'a) act \<Rightarrow> ('w, 'a) act \<Rightarrow> ('w, 'a) act" where
  "act_catch m h st = (case m st of (Raised, st') \<Rightarrow> h st' | r \<Rightarrow> r)"

definition reading :: "(supervisor \<Rightarrow> ('w, 'a) act) \<Rightarrow> ('w, 'a) act" where
  "reading f st = f (snd st) st"

definition assign :: "(supervisor \<Rightarrow> supervisor) \<Rightarrow> ('w, unit) act" where
  "assign f st = (Finished (), fst st, f (snd st))"

definition asking :: "('w \<Rightarrow> 'a \<times> 'w) \<Rightarrow> ('w, 'a) act" where
  "asking f st = (case f (fst st) of (x, w) \<Rightarrow> (Finished x, w, snd st))"

subsection \<open>Health\<close>

definition mark_degraded :: "'w worker_env \<Rightarrow> string \<Rightarrow> ('w, unit) act" where
  "mark_degraded E reason = act_bind (asking (we_time E)) (\<lambda>now.
     assign (\<lambda>s. s\<lparr>su_degraded := True, su_reason := Some reason, su_last_transition := Some now\<rparr>))"

text \<open>A call whose exception is recorded and otherwise ignored.\<close>

definition guarded :: "'w worker_env \<Rightarrow> string \<Rightarrow> ('w \<Rightarrow> bool \<times> 'w) \<Rightarrow> ('w, unit) act" where
  "guarded E reason f = act_bind (asking f) (\<lambda>ok. if ok then act_return () else mark_degraded E reason)"

definition safe_is_alive :: "'w worker_env \<Rightarrow> nat \<Rightarrow> ('w, bool option) act" where
  "safe_is_alive E p = act_bind (asking (we_is_alive E p)) (\<lambda>r.
     case r of Some b \<Rightarrow> act_return (Some b) | None \<Rightarrow> act_then (mark_degraded E ''process_status_failed'') (act_return None))"

definition safe_event_is_set :: "'w worker_env \<Rightarrow> nat option \<Rightarrow> ('w, bool) act" where
  "safe_event_is_set E ev =
     (case ev of
        None \<Rightarrow> act_return False
      | Some e \<Rightarrow> act_bind (asking (we_event_is_set E e)) (\<lambda>r.
          case r of Some b \<Rightarrow> act_return b | None \<Rightarrow> act_then (mark_degraded E ''ready_status_failed'') (act_return False)))"

definition safe_exitcode :: "'w worker_env \<Rightarrow> nat \<Rightarrow> ('w, int option) act" where
  "safe_exitcode E p = act_bind (asking (we_exitcode E p)) (\<lambda>r.
     case r of Some c \<Rightarrow> act_return c | None \<Rightarrow> act_then (mark_degraded E ''process_status_failed'') (act_return None))"

record worker_status =
  ws_enabled :: bool
  ws_pid :: "int option"
  ws_alive :: "bool option"
  ws_ready :: bool
  ws_heartbeat_age :: "pyfloat option"
  ws_heartbeat_stale :: bool
  ws_exitcode :: "int option"
  ws_last_exitcode :: "int option"
  ws_restart_count :: nat
  ws_last_transition :: "pyfloat option"
  ws_degraded :: bool
  ws_reason :: "string option"
  ws_fail_safe :: "(fail_safe_status \<times> int \<times> string option) option"

definition liveness_text :: "bool option \<Rightarrow> string" where
  "liveness_text a = (case a of None \<Rightarrow> ''unknown'' | Some True \<Rightarrow> ''alive'' | Some False \<Rightarrow> ''dead'')"

definition heartbeat_status :: "'w worker_env \<Rightarrow> supervisor_config \<Rightarrow> nat option \<Rightarrow> ('w, pyfloat option \<times> bool) act" where
  "heartbeat_status E c hb =
     (case hb of
        None \<Rightarrow> act_return (None, True)
      | Some h \<Rightarrow> act_bind (asking (we_heartbeat E h)) (\<lambda>r.
          case r of
            None \<Rightarrow> act_then (mark_degraded E ''heartbeat_status_failed'') (act_return (None, True))
          | Some v \<Rightarrow>
              if flt (Fin 0) v
              then act_bind (asking (we_time E)) (\<lambda>now.
                     let age = fmax (Fin 0) (fsub now v)
                     in act_return (Some age, flt (scf_heartbeat_stale c) age))
              else act_return (None, True)))"

definition sup_snapshot :: "'w worker_env \<Rightarrow> supervisor_config \<Rightarrow> ('w, worker_status) act" where
  "sup_snapshot E c = reading (\<lambda>s0.
     act_bind (case su_process s0 of None \<Rightarrow> act_return (Some False) | Some p \<Rightarrow> safe_is_alive E p) (\<lambda>alive.
     act_bind (safe_event_is_set E (su_ready_event s0)) (\<lambda>signal.
     act_bind (heartbeat_status E c (su_heartbeat s0)) (\<lambda>(age, stale).
     act_bind (case su_process s0 of None \<Rightarrow> act_return None | Some p \<Rightarrow> safe_exitcode E p) (\<lambda>code.
     reading (\<lambda>s. act_return
       \<lparr>ws_enabled = True, ws_pid = Option.bind (su_process s0) (we_pid E), ws_alive = alive,
        ws_ready = (alive = Some True \<and> signal \<and> \<not> stale), ws_heartbeat_age = age, ws_heartbeat_stale = stale,
        ws_exitcode = code, ws_last_exitcode = su_last_exitcode s, ws_restart_count = su_restart_count s,
        ws_last_transition = su_last_transition s, ws_degraded = su_degraded s, ws_reason = su_reason s,
        ws_fail_safe = Some (su_fs_status s, su_fs_attempts s, su_fs_error s)\<rparr>))))))"

text \<open>What the gateway keeps: the supervisor, or a process started without one, or nothing.\<close>

datatype worker_mode = Supervised | Unsupervised nat | NoWorker

definition worker_runtime_snapshot :: "'w worker_env \<Rightarrow> supervisor_config \<Rightarrow> worker_mode \<Rightarrow> ('w, worker_status) act" where
  "worker_runtime_snapshot E c mode =
     (case mode of
        Supervised \<Rightarrow> sup_snapshot E c
      | Unsupervised p \<Rightarrow>
          act_bind (asking (we_is_alive E p)) (\<lambda>alive.
          act_bind (asking (we_exitcode E p)) (\<lambda>code1. act_bind (asking (we_exitcode E p)) (\<lambda>code2.
            case (code1, code2) of
              (Some c1, Some c2) \<Rightarrow> act_return
                \<lparr>ws_enabled = True, ws_pid = we_pid E p, ws_alive = alive, ws_ready = False, ws_heartbeat_age = None,
                 ws_heartbeat_stale = True, ws_exitcode = c1, ws_last_exitcode = c2, ws_restart_count = 0,
                 ws_last_transition = None, ws_degraded = True, ws_reason = Some ''legacy_unsupervised'', ws_fail_safe = None\<rparr>
            | _ \<Rightarrow> act_stop Raised)))
      | NoWorker \<Rightarrow> act_return
          \<lparr>ws_enabled = False, ws_pid = None, ws_alive = Some False, ws_ready = False, ws_heartbeat_age = None,
           ws_heartbeat_stale = False, ws_exitcode = None, ws_last_exitcode = None, ws_restart_count = 0,
           ws_last_transition = None, ws_degraded = False, ws_reason = Some ''disabled'', ws_fail_safe = None\<rparr>)"

definition worker_accepts_strategy_activation ::
  "'w worker_env \<Rightarrow> supervisor_config \<Rightarrow> worker_mode \<Rightarrow> ('w, bool \<times> worker_status) act"
where
  "worker_accepts_strategy_activation E c mode = act_bind (worker_runtime_snapshot E c mode) (\<lambda>status.
     act_return (if \<not> ws_enabled status then True
       else ws_alive status = Some True \<and> ws_ready status \<and> \<not> ws_heartbeat_stale status \<and> \<not> ws_degraded status, status))"

subsection \<open>Awaiting and the fail-safe task\<close>

definition finish_fail_safe_task :: "fs_end \<Rightarrow> supervisor \<Rightarrow> supervisor" where
  "finish_fail_safe_task r s =
     (case r of
        EndCancelled \<Rightarrow> s\<lparr>su_fs_status := FsFailed, su_fs_error := Some ''fail-safe task cancelled'', su_fs_task := False\<rparr>
      | EndOk \<Rightarrow> s\<lparr>su_fs_status := FsOk, su_fs_error := None, su_fs_task := False\<rparr>
      | EndError e \<Rightarrow> s\<lparr>su_fs_status := FsFailed, su_fs_error := Some e, su_fs_task := False\<rparr>)"

text \<open>What other coroutines do while this one awaits: the fail-safe task may end, the status may be read.\<close>

definition settle :: "'w worker_env \<Rightarrow> supervisor_config \<Rightarrow> ('w, fs_end option) act" where
  "settle E c =
     act_bind (reading (\<lambda>s. if su_fs_task s then asking (we_settled E) else act_return None)) (\<lambda>r.
     act_then (case r of None \<Rightarrow> act_return () | Some x \<Rightarrow> assign (finish_fail_safe_task x))
     (act_bind (asking (we_polled E)) (\<lambda>polled.
        if polled then act_then (sup_snapshot E c) (act_return r) else act_return r)))"

definition await :: "'w worker_env \<Rightarrow> supervisor_config \<Rightarrow> ('w, fs_end option) act" where
  "await E c = act_bind (settle E c) (\<lambda>r. act_bind (asking (we_cancelled E)) (\<lambda>cancelled.
     if cancelled then act_stop Halted else act_return r))"

definition sleep :: "'w worker_env \<Rightarrow> supervisor_config \<Rightarrow> pyfloat \<Rightarrow> ('w, unit) act" where
  "sleep E c d = act_then (asking (\<lambda>w. ((), we_sleep E d w))) (act_then (await E c) (act_return ()))"

definition join :: "'w worker_env \<Rightarrow> supervisor_config \<Rightarrow> nat \<Rightarrow> pyfloat \<Rightarrow> ('w, unit) act" where
  "join E c p timeout = act_bind (asking (we_join E p timeout)) (\<lambda>ok. act_then (await E c)
     (if ok then act_return () else mark_degraded E ''process_join_failed''))"

definition still_running :: string where
  "still_running = ''fail-safe attempt timed out and is still running''"

fun fail_safe_attempts :: "'w worker_env \<Rightarrow> supervisor_config \<Rightarrow> nat \<Rightarrow> int \<Rightarrow> ('w, unit) act" where
  "fail_safe_attempts E c 0 attempt = act_return ()"
| "fail_safe_attempts E c (Suc n) attempt =
     act_then (assign (\<lambda>s. s\<lparr>su_fs_attempts := attempt, su_fs_status := FsRunning, su_fs_task := True\<rparr>))
     (act_bind (await E c) (\<lambda>r.
        case r of
          None \<Rightarrow> assign (\<lambda>s. s\<lparr>su_fs_status := FsRunning, su_fs_error := Some still_running\<rparr>)
        | Some EndCancelled \<Rightarrow> act_stop Halted
        | Some (EndError e) \<Rightarrow>
            act_then (assign (\<lambda>s. s\<lparr>su_fs_status := FsFailed, su_fs_error := Some e\<rparr>))
            (act_then (if n = 0 then act_return () else sleep E c (scf_fail_safe_retry c))
              (fail_safe_attempts E c n (attempt + 1)))
        | Some EndOk \<Rightarrow> assign (\<lambda>s. s\<lparr>su_fs_status := FsOk, su_fs_error := None\<rparr>)))"

definition invoke_fail_safe :: "'w worker_env \<Rightarrow> supervisor_config \<Rightarrow> ('w, unit) act" where
  "invoke_fail_safe E c = reading (\<lambda>s.
     if su_fs_task s
     then act_bind (await E c) (\<lambda>r.
            if r = None then assign (\<lambda>s. s\<lparr>su_fs_status := FsRunning, su_fs_error := Some still_running\<rparr>)
            else act_return ())
     else fail_safe_attempts E c (nat (scf_fail_safe_max_attempts c)) 1)"

definition ensure_terminal_fail_safe :: "'w worker_env \<Rightarrow> supervisor_config \<Rightarrow> ('w, unit) act" where
  "ensure_terminal_fail_safe E c = reading (\<lambda>s. if su_fs_status s = FsOk then act_return () else invoke_fail_safe E c)"

text \<open>\<open>await asyncio.shield(task)\<close> has no timeout: \<open>we_finish\<close> is \<open>None\<close> if the task never ends.\<close>

definition wait_for_fail_safe :: "'w worker_env \<Rightarrow> supervisor_config \<Rightarrow> ('w, bool) act" where
  "wait_for_fail_safe E c = reading (\<lambda>s.
     act_bind (if su_fs_task s
       then act_bind (asking (we_finish E)) (\<lambda>r.
              case r of
                None \<Rightarrow> act_stop Halted
              | Some x \<Rightarrow> act_then (assign (finish_fail_safe_task x)) (act_then (await E c)
                  (case x of EndOk \<Rightarrow> act_return True | EndError e \<Rightarrow> act_return False | EndCancelled \<Rightarrow> act_stop Halted)))
       else act_return True) (\<lambda>ok.
     if ok then reading (\<lambda>s. act_return (su_fs_status s = FsOk)) else act_return False))"

definition await_fail_safe_completion :: "'w worker_env \<Rightarrow> supervisor_config \<Rightarrow> ('w, bool) act" where
  "await_fail_safe_completion E c = reading (\<lambda>s.
     if \<not> su_fs_task s then act_return True
     else act_bind (settle E c) (\<lambda>r.
       case r of
         None \<Rightarrow> act_then (mark_degraded E ''fail_safe_shutdown_incomplete'') (act_return False)
       | Some EndOk \<Rightarrow> act_return True
       | Some (EndError e) \<Rightarrow> act_then (mark_degraded E ''fail_safe_shutdown_failed'') (act_return False)
       | Some EndCancelled \<Rightarrow> act_stop Halted))"

subsection \<open>Starting, ending and replacing the process\<close>

definition note_start_failure :: "'w worker_env \<Rightarrow> nat \<Rightarrow> ('w, bool) act" where
  "note_start_failure E p =
     act_then (assign (\<lambda>s. s\<lparr>su_start_failed := Some p\<rparr>))
     (act_bind (safe_is_alive E p) (\<lambda>alive.
      act_then (assign (\<lambda>s. s\<lparr>su_start_failed_liveness := alive\<rparr>))
      (act_then (mark_degraded E ''process_start_failed'') (act_return False))))"

definition note_started :: "'w worker_env \<Rightarrow> nat \<Rightarrow> ('w, bool) act" where
  "note_started E p =
     act_bind (asking (we_monotonic E)) (\<lambda>mono.
     act_bind (asking (we_time E)) (\<lambda>now.
     act_then (assign (\<lambda>s. s\<lparr>su_started_at := Some mono, su_degraded := True,
       su_reason := Some ''worker_starting'', su_last_transition := Some now\<rparr>))
     (act_then (guarded E ''process_callback_failed'' (we_on_process E p)) (act_return True))))"

definition launch_process ::
  "'w worker_env \<Rightarrow> nat \<Rightarrow> nat option \<Rightarrow> nat option \<Rightarrow> nat option \<Rightarrow> ('w, bool) act"
where
  "launch_process E p stop_event ready heartbeat =
     act_then (assign (\<lambda>s. s\<lparr>su_process := Some p, su_stop_event := stop_event, su_ready_event := ready,
       su_heartbeat := heartbeat\<rparr>))
     (act_bind (asking (we_start E p)) (\<lambda>started.
        if started then note_started E p else note_start_failure E p))"

definition start_process :: "'w worker_env \<Rightarrow> ('w, bool) act" where
  "start_process E =
     act_then (assign (\<lambda>s. s\<lparr>su_start_failed := None, su_start_failed_liveness := None\<rparr>))
     (act_bind (asking (we_factory E)) (\<lambda>created.
        case created of
          Some (Created p stop_event ready heartbeat) \<Rightarrow> launch_process E p stop_event ready heartbeat
        | _ \<Rightarrow> act_then (mark_degraded E ''process_factory_failed'') (act_return False)))"

definition kill_unless_dead ::
  "'w worker_env \<Rightarrow> supervisor_config \<Rightarrow> string \<Rightarrow> (nat \<Rightarrow> 'w \<Rightarrow> bool \<times> 'w) \<Rightarrow> pyfloat \<Rightarrow> nat \<Rightarrow> ('w, unit) act"
where
  "kill_unless_dead E c reason signal timeout p = act_bind (safe_is_alive E p) (\<lambda>alive.
     if alive = Some False then act_return ()
     else act_then (guarded E reason (signal p)) (join E c p timeout))"

definition note_exit :: "'w worker_env \<Rightarrow> nat \<Rightarrow> ('w, unit) act" where
  "note_exit E p = act_bind (safe_exitcode E p) (\<lambda>code. act_bind (asking (we_time E)) (\<lambda>now.
     assign (\<lambda>s. s\<lparr>su_last_exitcode := code, su_last_transition := Some now\<rparr>)))"

definition terminate_unhealthy :: "'w worker_env \<Rightarrow> supervisor_config \<Rightarrow> nat \<Rightarrow> ('w, bool) act" where
  "terminate_unhealthy E c p =
     act_then (guarded E ''process_terminate_failed'' (we_terminate E p))
     (act_then (join E c p (scf_terminate_timeout c))
     (act_then (kill_unless_dead E c ''process_kill_failed'' (we_kill E) (scf_kill_timeout c) p)
     (act_then (note_exit E p)
     (act_bind (safe_is_alive E p) (\<lambda>alive.
        if alive = Some False then act_return True
        else act_then (assign (\<lambda>s. s\<lparr>su_degraded := True, su_reason := Some ''unhealthy_process_shutdown_incomplete''\<rparr>))
             (act_return False))))))"

definition contain_start_failed :: "'w worker_env \<Rightarrow> supervisor_config \<Rightarrow> ('w, bool) act" where
  "contain_start_failed E c = reading (\<lambda>s.
     case su_start_failed s of
       None \<Rightarrow> act_return True
     | Some p \<Rightarrow> act_bind (terminate_unhealthy E c p) (\<lambda>contained.
         act_then (if contained then assign (\<lambda>s. s\<lparr>su_start_failed := None, su_start_failed_liveness := None\<rparr>) else act_return ())
         (act_return (contained \<and> su_start_failed_liveness s = Some False))))"

text \<open>\<open>min(initial * 2 ** n, max)\<close>; the power has no float from \<open>2 ** 1024\<close> on.\<close>

definition backoff_delay :: "supervisor_config \<Rightarrow> nat \<Rightarrow> pyfloat option" where
  "backoff_delay c n = (if n \<ge> 1024 then None else Some (fmin (fmul (scf_backoff_initial c) (Fin (2 ^ n))) (scf_backoff_max c)))"

definition prune_restarts :: "supervisor_config \<Rightarrow> pyfloat \<Rightarrow> supervisor \<Rightarrow> supervisor" where
  "prune_restarts c now s =
     s\<lparr>su_restart_times := filter (fle (fsub now (scf_restart_window c))) (su_restart_times s)\<rparr>"

definition restart_reason :: "string option \<Rightarrow> string" where
  "restart_reason incident = (case incident of None \<Rightarrow> ''worker_restarted'' | Some r \<Rightarrow> r @ ''_restarted'')"

text \<open>One attempt of the restart loop after its delay; \<open>again\<close> is the next round.\<close>

definition restart_outcome ::
  "'w worker_env \<Rightarrow> supervisor_config \<Rightarrow> string option \<Rightarrow> ('w, bool) act \<Rightarrow> bool \<Rightarrow> ('w, bool) act"
where
  "restart_outcome E c incident again started =
     (if started
      then act_then (assign (\<lambda>s. s\<lparr>su_degraded := True, su_reason := Some (restart_reason incident)\<rparr>)) (act_return True)
      else reading (\<lambda>s.
        if su_start_failed s = None then again
        else act_bind (contain_start_failed E c) (\<lambda>contained.
          if contained then again else act_then (ensure_terminal_fail_safe E c) (act_return False))))"

definition restart_attempt ::
  "'w worker_env \<Rightarrow> supervisor_config \<Rightarrow> string option \<Rightarrow> ('w, bool) act \<Rightarrow> ('w, bool) act"
where
  "restart_attempt E c incident again = reading (\<lambda>s.
     if su_stopping s then act_return False
     else
       act_bind (asking (we_monotonic E)) (\<lambda>stamp.
       act_then (assign (\<lambda>s. s\<lparr>su_restart_times := su_restart_times s @ [stamp], su_restart_count := su_restart_count s + 1\<rparr>))
       (act_bind (start_process E) (restart_outcome E c incident again))))"

definition budget_exhausted :: "'w worker_env \<Rightarrow> supervisor_config \<Rightarrow> bool \<Rightarrow> ('w, bool) act" where
  "budget_exhausted E c on_exhaustion =
     act_then (assign (\<lambda>s. s\<lparr>su_degraded := True, su_reason := Some ''restart_budget_exhausted''\<rparr>))
     (act_then (if on_exhaustion then invoke_fail_safe E c else act_return ()) (act_return False))"

fun restart_until_started ::
  "'w worker_env \<Rightarrow> supervisor_config \<Rightarrow> nat \<Rightarrow> string option \<Rightarrow> bool \<Rightarrow> ('w, bool) act"
where
  "restart_until_started E c 0 incident on_exhaustion = act_stop Halted"
| "restart_until_started E c (Suc n) incident on_exhaustion = reading (\<lambda>s.
     if su_stopping s then act_return False
     else
       act_bind (asking (we_monotonic E)) (\<lambda>now.
       act_then (assign (prune_restarts c now)) (reading (\<lambda>s.
       if int (length (su_restart_times s)) \<ge> scf_max_restarts c then budget_exhausted E c on_exhaustion
       else case backoff_delay c (length (su_restart_times s)) of
         None \<Rightarrow> act_stop Raised
       | Some delay \<Rightarrow>
           act_then (if float_true delay then sleep E c delay else act_return ())
           (restart_attempt E c incident (restart_until_started E c n incident on_exhaustion))))))"

subsection \<open>The monitor\<close>

text \<open>The replacement of an unhealthy process: fail-safe first, then its verified end, then the new one.\<close>

definition replace_unhealthy ::
  "'w worker_env \<Rightarrow> supervisor_config \<Rightarrow> nat \<Rightarrow> string \<Rightarrow> nat \<Rightarrow> ('w, bool) act"
where
  "replace_unhealthy E c n incident p =
     act_then (assign (\<lambda>s. s\<lparr>su_degraded := True, su_reason := Some incident\<rparr>))
     (act_then (invoke_fail_safe E c)
     (act_bind (terminate_unhealthy E c p) (\<lambda>ended.
        if \<not> ended then act_return False
        else act_bind (wait_for_fail_safe E c) (\<lambda>ok.
          if \<not> ok then act_then (mark_degraded E (incident @ ''_fail_safe_incomplete'')) (act_return False)
          else restart_until_started E c n (Some incident) False))))"

fun ends_restarted :: "string option \<Rightarrow> bool" where
  "ends_restarted None = False"
| "ends_restarted (Some r) = (drop (length r - length ''_restarted'') r = ''_restarted'')"

definition note_healthy :: "'w worker_env \<Rightarrow> ('w, unit) act" where
  "note_healthy E = reading (\<lambda>s.
     if su_reason s = Some ''worker_starting'' \<and> su_fs_status s \<in> {FsNotRun, FsOk}
     then act_bind (asking (we_time E)) (\<lambda>now.
            assign (\<lambda>s. s\<lparr>su_degraded := False, su_reason := Some ''ready'', su_last_transition := Some now\<rparr>))
     else if ends_restarted (su_reason s) \<and> su_fs_status s \<in> {FsNotRun, FsOk}
     then act_bind (asking (we_time E)) (\<lambda>now.
            assign (\<lambda>s. s\<lparr>su_degraded := False, su_reason := Some ''recovered'', su_last_transition := Some now\<rparr>))
     else act_return ())"

definition startup_elapsed :: "'w worker_env \<Rightarrow> ('w, pyfloat) act" where
  "startup_elapsed E = reading (\<lambda>s.
     case su_started_at s of
       None \<Rightarrow> act_return (Fin 0)
     | Some t \<Rightarrow> act_bind (asking (we_monotonic E)) (\<lambda>now. act_return (fmax (Fin 0) (fsub now t))))"

text \<open>One round of the loop after its sleep; the answer says whether the loop goes on.\<close>

definition monitor_alive :: "'w worker_env \<Rightarrow> supervisor_config \<Rightarrow> nat \<Rightarrow> nat \<Rightarrow> ('w, bool) act" where
  "monitor_alive E c n p =
     act_bind (sup_snapshot E c) (\<lambda>status.
     if ws_ready status \<and> \<not> ws_heartbeat_stale status
     then act_then (note_healthy E) (act_return True)
     else act_bind (reading (\<lambda>s. safe_event_is_set E (su_ready_event s))) (\<lambda>signal.
       if signal then replace_unhealthy E c n ''heartbeat_stale'' p
       else act_bind (startup_elapsed E) (\<lambda>elapsed.
         if fle (scf_startup_timeout c) elapsed then replace_unhealthy E c n ''startup_readiness_timeout'' p
         else act_return True)))"

definition monitor_body :: "'w worker_env \<Rightarrow> supervisor_config \<Rightarrow> nat \<Rightarrow> nat option \<Rightarrow> ('w, bool) act" where
  "monitor_body E c n process =
     (case process of
        None \<Rightarrow> act_then (mark_degraded E ''process_missing'') (restart_until_started E c n None True)
      | Some p \<Rightarrow> act_bind (safe_is_alive E p) (\<lambda>alive.
          case alive of
            None \<Rightarrow> act_then (invoke_fail_safe E c) (act_then (terminate_unhealthy E c p) (act_return False))
          | Some True \<Rightarrow> monitor_alive E c n p
          | Some False \<Rightarrow>
              act_then (join E c p (Fin 0)) (act_then (note_exit E p) (restart_until_started E c n None True))))"

definition monitor_failed :: "'w worker_env \<Rightarrow> supervisor_config \<Rightarrow> nat option \<Rightarrow> ('w, bool) act" where
  "monitor_failed E c process =
     act_then (mark_degraded E ''monitor_failed'')
     (act_then (invoke_fail_safe E c)
     (act_then (case process of
         None \<Rightarrow> act_return ()
       | Some p \<Rightarrow> act_bind (terminate_unhealthy E c p) (\<lambda>ended.
           if ended then act_return () else mark_degraded E ''monitor_failure_shutdown_incomplete''))
     (act_return False)))"

fun monitor_loop :: "'w worker_env \<Rightarrow> supervisor_config \<Rightarrow> nat \<Rightarrow> ('w, unit) act" where
  "monitor_loop E c 0 = act_stop Halted"
| "monitor_loop E c (Suc n) = reading (\<lambda>s.
     if su_stopping s then act_return ()
     else act_then (sleep E c (scf_poll_interval c)) (reading (\<lambda>s.
       act_bind (act_catch (monitor_body E c n (su_process s)) (monitor_failed E c (su_process s))) (\<lambda>goes_on.
         if goes_on then monitor_loop E c n else act_return ()))))"

definition monitor :: "'w worker_env \<Rightarrow> supervisor_config \<Rightarrow> nat \<Rightarrow> bool \<Rightarrow> ('w, unit) act" where
  "monitor E c n initial_start_failed =
     (if initial_start_failed
      then reading (\<lambda>s.
        act_bind (if su_start_failed s = None then act_return True else contain_start_failed E c) (\<lambda>contained.
          if \<not> contained then ensure_terminal_fail_safe E c
          else act_bind (restart_until_started E c n None True) (\<lambda>started.
            if started then monitor_loop E c n else act_return ())))
      else monitor_loop E c n)"

text \<open>\<open>start()\<close> and the monitor task it creates.\<close>

definition sup_start :: "'w worker_env \<Rightarrow> supervisor_config \<Rightarrow> nat \<Rightarrow> ('w, unit) act" where
  "sup_start E c n = reading (\<lambda>s.
     if su_monitoring s then act_return ()
     else act_then (assign (\<lambda>s. s\<lparr>su_stopping := False\<rparr>)) (act_bind (start_process E) (\<lambda>started.
       act_then (assign (\<lambda>s. s\<lparr>su_monitoring := True\<rparr>)) (monitor E c n (\<not> started)))))"

text \<open>The escalation of \<open>stop()\<close> until the death of the process is verified.\<close>

definition stop_process ::
  "'w worker_env \<Rightarrow> supervisor_config \<Rightarrow> bool \<Rightarrow> nat \<Rightarrow> ('w, bool) act"
where
  "stop_process E c safe p =
           act_then (join E c p (scf_shutdown_timeout c))
           (act_then (kill_unless_dead E c ''process_terminate_failed'' (we_terminate E) (scf_terminate_timeout c) p)
           (act_then (kill_unless_dead E c ''process_kill_failed'' (we_kill E) (scf_kill_timeout c) p)
           (act_bind (safe_is_alive E p) (\<lambda>alive.
            act_then (note_exit E p)
              (if alive \<noteq> Some False
               then act_then (assign (\<lambda>s. s\<lparr>su_degraded := True, su_reason := Some ''shutdown_incomplete''\<rparr>)) (act_return False)
               else act_then (if safe then assign (\<lambda>s. s\<lparr>su_reason := Some ''stopped''\<rparr>) else act_return ())
                    (act_return safe))))))"

text \<open>\<open>stop()\<close>, once the cancelled monitor has ended.\<close>

definition sup_stop :: "'w worker_env \<Rightarrow> supervisor_config \<Rightarrow> ('w, bool) act" where
  "sup_stop E c =
     act_then (assign (\<lambda>s. s\<lparr>su_stopping := True, su_monitoring := False\<rparr>))
     (act_then (settle E c)
     (act_bind (await_fail_safe_completion E c) (\<lambda>safe.
      reading (\<lambda>s.
        act_then (case su_stop_event s of None \<Rightarrow> act_return () | Some e \<Rightarrow> guarded E ''stop_event_failed'' (we_event_set E e))
        (case su_process s of None \<Rightarrow> act_return safe | Some p \<Rightarrow> stop_process E c safe p)))))"

end
