(* ===== verification/SupervisorProps.thy ===== *)
theory SupervisorProps
  imports Supervisor
begin

text \<open>
  What the worker supervisor guarantees: a small program logic for its coroutines, that at most one
  worker is alive, that a reported shutdown is verified, and that restarts stay within their budget.
\<close>

subsection \<open>Reasoning about coroutines\<close>

text \<open>
  Partial correctness with one postcondition for a result and one for an exception or a halt, and the
  frame of the actions that neither start a process nor touch the restart record: the set of live
  processes may only shrink.
\<close>

named_theorems quiet_intros

definition valid ::
  "('w \<times> supervisor \<Rightarrow> bool) \<Rightarrow> ('w, 'a) act \<Rightarrow> ('a \<Rightarrow> 'w \<times> supervisor \<Rightarrow> bool) \<Rightarrow> ('w \<times> supervisor \<Rightarrow> bool) \<Rightarrow> bool"
where
  "valid P m Q R \<longleftrightarrow> (\<forall>st. P st \<longrightarrow> (case m st of (Finished x, st') \<Rightarrow> Q x st' | (_, st') \<Rightarrow> R st'))"

definition inside :: "('w \<times> supervisor \<Rightarrow> 'w \<times> supervisor \<Rightarrow> bool) \<Rightarrow> ('w, 'a) act \<Rightarrow> bool" where
  "inside F m \<longleftrightarrow> (\<forall>st. F st (snd (m st)))"

definition preorder_on_states :: "('w \<times> supervisor \<Rightarrow> 'w \<times> supervisor \<Rightarrow> bool) \<Rightarrow> bool" where
  "preorder_on_states F \<longleftrightarrow> (\<forall>a. F a a) \<and> (\<forall>a b c. F a b \<longrightarrow> F b c \<longrightarrow> F a c)"

lemma insideD: "inside F m \<Longrightarrow> m st = (r, st') \<Longrightarrow> F st st'"
  by (metis inside_def snd_conv)

lemma inside_return:
  "preorder_on_states F \<Longrightarrow> inside F (act_return x)" "preorder_on_states F \<Longrightarrow> inside F (act_stop r)"
  by (simp_all add: inside_def act_return_def act_stop_def preorder_on_states_def)

lemma inside_bind:
  assumes F: "preorder_on_states F" and "inside F m" and "\<And>x. inside F (f x)"
  shows "inside F (act_bind m f)"
  unfolding inside_def
proof
  fix st
  obtain r st' where m: "m st = (r, st')" by (cases "m st") blast
  with assms(2) have fr: "F st st'" by (metis insideD)
  show "F st (snd (act_bind m f st))"
  proof (cases r)
    case (Finished x)
    have "F st' (snd (f x st'))" using assms(3) unfolding inside_def by blast
    with fr F have "F st (snd (f x st'))" unfolding preorder_on_states_def by blast
    then show ?thesis by (simp add: act_bind_def m Finished)
  qed (simp_all add: act_bind_def m fr)
qed

lemma inside_then: "preorder_on_states F \<Longrightarrow> inside F m \<Longrightarrow> inside F k \<Longrightarrow> inside F (act_then m k)"
  unfolding act_then_def by (rule inside_bind)

lemma inside_reading [quiet_intros]: "(\<And>s. inside F (f s)) \<Longrightarrow> inside F (reading f)"
  by (simp add: inside_def reading_def)

lemma inside_if [quiet_intros]: "inside F m \<Longrightarrow> inside F k \<Longrightarrow> inside F (if b then m else k)"
  by simp

lemma inside_option [quiet_intros]:
  "inside F m \<Longrightarrow> (\<And>x. inside F (f x)) \<Longrightarrow> inside F (case v of None \<Rightarrow> m | Some x \<Rightarrow> f x)"
  by (cases v) simp_all

lemma inside_prod [quiet_intros]: "(\<And>x y. inside F (f x y)) \<Longrightarrow> inside F (case v of (x, y) \<Rightarrow> f x y)"
  by (cases v) simp

lemma inside_end [quiet_intros]:
  "inside F a \<Longrightarrow> (\<And>e. inside F (b e)) \<Longrightarrow> inside F d \<Longrightarrow>
     inside F (case v of EndOk \<Rightarrow> a | EndError e \<Rightarrow> b e | EndCancelled \<Rightarrow> d)"
  by (cases v) simp_all

definition frame :: "('w \<Rightarrow> nat set) \<Rightarrow> 'w \<times> supervisor \<Rightarrow> 'w \<times> supervisor \<Rightarrow> bool" where
  "frame live st st' \<longleftrightarrow> live (fst st') \<subseteq> live (fst st) \<and> su_process (snd st') = su_process (snd st)
     \<and> su_start_failed (snd st') = su_start_failed (snd st) \<and> su_restart_times (snd st') = su_restart_times (snd st)
     \<and> su_restart_count (snd st') = su_restart_count (snd st)"

abbreviation quiet :: "('w \<Rightarrow> nat set) \<Rightarrow> ('w, 'a) act \<Rightarrow> bool" where
  "quiet live \<equiv> inside (frame live)"

lemma preorder_frame: "preorder_on_states (frame live)"
  by (auto simp: preorder_on_states_def frame_def)

lemmas quiet_basic [quiet_intros] =
  inside_return [OF preorder_frame] inside_bind [OF preorder_frame] inside_then [OF preorder_frame]

lemma quiet_assign [quiet_intros]:
  assumes "\<And>s. su_process (f s) = su_process s" "\<And>s. su_start_failed (f s) = su_start_failed s"
    "\<And>s. su_restart_times (f s) = su_restart_times s" "\<And>s. su_restart_count (f s) = su_restart_count s"
  shows "quiet live (assign f)"
  by (simp add: inside_def assign_def frame_def assms)

lemma quiet_asking [quiet_intros]: "(\<And>w. live (snd (f w)) \<subseteq> live w) \<Longrightarrow> quiet live (asking f)"
  by (simp add: inside_def asking_def frame_def split_beta)

text \<open>What is relied on of processes: only \<open>start\<close> brings one to life, and \<open>is_alive\<close> answers \<open>False\<close>
  only for a process that is dead.\<close>

definition honest :: "'w worker_env \<Rightarrow> ('w \<Rightarrow> nat set) \<Rightarrow> bool" where
  "honest E live \<longleftrightarrow>
     (\<forall>w p. live (snd (we_start E p w)) \<subseteq> insert p (live w))
   \<and> (\<forall>w p. fst (we_is_alive E p w) = Some False \<longrightarrow> p \<notin> live (snd (we_is_alive E p w)))
   \<and> (\<forall>w p. live (snd (we_is_alive E p w)) \<subseteq> live w) \<and> (\<forall>w. live (snd (we_factory E w)) \<subseteq> live w)
   \<and> (\<forall>w p. live (snd (we_exitcode E p w)) \<subseteq> live w) \<and> (\<forall>w p. live (snd (we_terminate E p w)) \<subseteq> live w)
   \<and> (\<forall>w p. live (snd (we_kill E p w)) \<subseteq> live w) \<and> (\<forall>w p d. live (snd (we_join E p d w)) \<subseteq> live w)
   \<and> (\<forall>w e. live (snd (we_event_is_set E e w)) \<subseteq> live w) \<and> (\<forall>w e. live (snd (we_event_set E e w)) \<subseteq> live w)
   \<and> (\<forall>w h. live (snd (we_heartbeat E h w)) \<subseteq> live w) \<and> (\<forall>w p. live (snd (we_on_process E p w)) \<subseteq> live w)
   \<and> (\<forall>w. live (snd (we_time E w)) \<subseteq> live w) \<and> (\<forall>w. live (snd (we_monotonic E w)) \<subseteq> live w)
   \<and> (\<forall>w d. live (we_sleep E d w) \<subseteq> live w) \<and> (\<forall>w. live (snd (we_settled E w)) \<subseteq> live w)
   \<and> (\<forall>w. live (snd (we_finish E w)) \<subseteq> live w) \<and> (\<forall>w. live (snd (we_polled E w)) \<subseteq> live w)
   \<and> (\<forall>w. live (snd (we_cancelled E w)) \<subseteq> live w)"

lemma honest_frames:
  assumes "honest E live"
  shows "live (snd (we_is_alive E p w)) \<subseteq> live w" "live (snd (we_factory E w)) \<subseteq> live w"
    "live (snd (we_exitcode E p w)) \<subseteq> live w" "live (snd (we_terminate E p w)) \<subseteq> live w"
    "live (snd (we_kill E p w)) \<subseteq> live w" "live (snd (we_join E p d w)) \<subseteq> live w"
    "live (snd (we_event_is_set E p w)) \<subseteq> live w" "live (snd (we_event_set E p w)) \<subseteq> live w"
    "live (snd (we_heartbeat E p w)) \<subseteq> live w" "live (snd (we_on_process E p w)) \<subseteq> live w"
    "live (snd (we_time E w)) \<subseteq> live w" "live (snd (we_monotonic E w)) \<subseteq> live w"
    "live (we_sleep E d w) \<subseteq> live w" "live (snd (we_settled E w)) \<subseteq> live w"
    "live (snd (we_finish E w)) \<subseteq> live w" "live (snd (we_polled E w)) \<subseteq> live w"
    "live (snd (we_cancelled E w)) \<subseteq> live w"
  using assms unfolding honest_def by simp_all

lemma honest_start: "honest E live \<Longrightarrow> we_start E p w = (r, w') \<Longrightarrow> live w' \<subseteq> insert p (live w)"
  unfolding honest_def by (metis snd_conv)

lemma honest_dead: "honest E live \<Longrightarrow> we_is_alive E p w = (Some False, w') \<Longrightarrow> p \<notin> live w'"
  unfolding honest_def by (metis fst_conv snd_conv)

lemma quiet_mark_degraded [quiet_intros]: "honest E live \<Longrightarrow> quiet live (mark_degraded E r)"
  unfolding mark_degraded_def by (intro quiet_intros honest_frames) simp_all

lemma quiet_guarded [quiet_intros]: "honest E live \<Longrightarrow> (\<And>w. live (snd (f w)) \<subseteq> live w) \<Longrightarrow> quiet live (guarded E r f)"
  unfolding guarded_def by (intro quiet_intros) simp_all

lemma quiet_checks [quiet_intros]:
  assumes "honest E live"
  shows "quiet live (safe_is_alive E p)" "quiet live (safe_event_is_set E ev)" "quiet live (safe_exitcode E p)"
    "quiet live (heartbeat_status E c hb)" "quiet live (note_exit E p)" "quiet live (startup_elapsed E)" "quiet live (note_healthy E)"
  unfolding safe_is_alive_def safe_event_is_set_def safe_exitcode_def heartbeat_status_def note_exit_def
    startup_elapsed_def note_healthy_def Let_def
  by (intro quiet_intros honest_frames assms; simp)+

lemma quiet_snapshot [quiet_intros]: "honest E live \<Longrightarrow> quiet live (sup_snapshot E c)"
  unfolding sup_snapshot_def by (intro quiet_intros honest_frames)

lemma finish_fields:
  "su_process (finish_fail_safe_task x s) = su_process s"
  "su_start_failed (finish_fail_safe_task x s) = su_start_failed s"
  "su_restart_times (finish_fail_safe_task x s) = su_restart_times s"
  "su_restart_count (finish_fail_safe_task x s) = su_restart_count s"
  by (cases x; simp add: finish_fail_safe_task_def)+

lemma quiet_waits [quiet_intros]:
  assumes "honest E live"
  shows "quiet live (settle E c)" "quiet live (await E c)" "quiet live (sleep E c d)" "quiet live (join E c p d)"
  unfolding settle_def await_def sleep_def join_def
  by (intro quiet_intros assms; simp add: honest_frames [OF assms] finish_fields)+

lemma quiet_fail_safe_attempts [quiet_intros]: "honest E live \<Longrightarrow> quiet live (fail_safe_attempts E c n k)"
  by (induction n arbitrary: k) (auto intro!: quiet_intros)

lemma quiet_fail_safe [quiet_intros]:
  assumes "honest E live"
  shows "quiet live (invoke_fail_safe E c)" "quiet live (ensure_terminal_fail_safe E c)" "quiet live (wait_for_fail_safe E c)"
    "quiet live (await_fail_safe_completion E c)"
  unfolding invoke_fail_safe_def ensure_terminal_fail_safe_def wait_for_fail_safe_def await_fail_safe_completion_def
  by (intro quiet_intros assms; simp add: honest_frames [OF assms] finish_fields)+

lemma quiet_ending [quiet_intros]:
  assumes "honest E live"
  shows "(\<And>w. live (snd (signal p w)) \<subseteq> live w) \<Longrightarrow> quiet live (kill_unless_dead E c r signal d p)"
    "quiet live (terminate_unhealthy E c p)" "quiet live (note_started E q)" "quiet live (monitor_failed E c r')"
  unfolding kill_unless_dead_def terminate_unhealthy_def note_started_def monitor_failed_def
  by (intro quiet_intros assms; simp add: honest_frames [OF assms])+

subsection \<open>At most one live worker\<close>

lemma valid_return: "(\<And>st. P st \<Longrightarrow> Q x st) \<Longrightarrow> valid P (act_return x) Q R"
  by (simp add: valid_def act_return_def)

lemma valid_stop: "(\<And>st. P st \<Longrightarrow> R st) \<Longrightarrow> valid P (act_stop Halted) Q R" "(\<And>st. P st \<Longrightarrow> R st) \<Longrightarrow> valid P (act_stop Raised) Q R"
  by (simp_all add: valid_def act_stop_def)

lemma valid_bind:
  assumes "valid P m B R" and "\<And>x. valid (B x) (f x) Q R"
  shows "valid P (act_bind m f) Q R"
  unfolding valid_def
proof (intro allI impI)
  fix st assume "P st"
  moreover obtain r st' where m: "m st = (r, st')" by (cases "m st") blast
  ultimately have "case (r, st') of (Finished x, st') \<Rightarrow> B x st' | (_, st') \<Rightarrow> R st'"
    using assms(1) unfolding valid_def by metis
  then show "case act_bind m f st of (Finished x, st') \<Rightarrow> Q x st' | (_, st') \<Rightarrow> R st'"
    using assms(2) by (cases r) (simp_all add: act_bind_def m valid_def del: split_paired_All)
qed

lemma valid_then: "valid P m (\<lambda>_. B) R \<Longrightarrow> valid B k Q R \<Longrightarrow> valid P (act_then m k) Q R"
  unfolding act_then_def by (rule valid_bind)

lemma valid_reading: "(\<And>s. valid (\<lambda>st. P st \<and> snd st = s) (f s) Q R) \<Longrightarrow> valid P (reading f) Q R"
  by (simp add: valid_def reading_def)

lemma valid_assign: "(\<And>w s. P (w, s) \<Longrightarrow> Q () (w, f s)) \<Longrightarrow> valid P (assign f) Q R"
  by (simp add: valid_def assign_def)

lemma valid_asking: "(\<And>w s x w'. P (w, s) \<Longrightarrow> f w = (x, w') \<Longrightarrow> Q x (w', s)) \<Longrightarrow> valid P (asking f) Q R"
  by (auto simp: valid_def asking_def split: prod.splits)

lemma validI:
  assumes "\<And>st x st'. P st \<Longrightarrow> m st = (Finished x, st') \<Longrightarrow> Q x st'"
    and "\<And>st r st'. P st \<Longrightarrow> m st = (r, st') \<Longrightarrow> R st'"
  shows "valid P m Q R"
  unfolding valid_def
proof (intro allI impI)
  fix st assume "P st"
  obtain r st' where "m st = (r, st')" by (cases "m st") blast
  with assms \<open>P st\<close> show "case m st of (Finished x, st') \<Rightarrow> Q x st' | (_, st') \<Rightarrow> R st'" by (cases r) auto
qed

lemma validD:
  assumes "valid P m Q R" and "P st"
  shows "m st = (Finished x, st') \<Longrightarrow> Q x st'" "m st = (Raised, st') \<Longrightarrow> R st'" "m st = (Halted, st') \<Longrightarrow> R st'"
  using assms unfolding valid_def by (metis (mono_tags, lifting) outcome.simps case_prod_conv)+

lemma valid_catch:
  assumes "valid P m Q R" and "valid R h Q R"
  shows "valid P (act_catch m h) Q R"
  unfolding valid_def
proof (intro allI impI)
  fix st assume st: "P st"
  obtain r st' where m: "m st = (r, st')" by (cases "m st") blast
  show "case act_catch m h st of (Finished x, st') \<Rightarrow> Q x st' | (_, st') \<Rightarrow> R st'"
  proof (cases r)
    case Raised
    with validD(2) [OF assms(1) st] m have "R st'" by simp
    with assms(2) Raised show ?thesis by (simp add: act_catch_def m valid_def del: split_paired_All)
  qed (use validD [OF assms(1) st] m in \<open>simp_all add: act_catch_def\<close>)
qed

lemma valid_weaken:
  assumes "valid P' m Q' R" and "\<And>st. P st \<Longrightarrow> P' st" and "\<And>x st. Q' x st \<Longrightarrow> Q x st"
  shows "valid P m Q R"
  unfolding valid_def
proof (intro allI impI)
  fix st assume "P st"
  then have "P' st" by (rule assms(2))
  moreover obtain r st' where "m st = (r, st')" by (cases "m st") blast
  ultimately show "case m st of (Finished x, st') \<Rightarrow> Q x st' | (_, st') \<Rightarrow> R st'"
    using assms(1,3) validD [OF assms(1)] by (cases r) auto
qed

definition watched :: "('w \<Rightarrow> nat set) \<Rightarrow> 'w \<times> supervisor \<Rightarrow> bool" where
  "watched live st \<longleftrightarrow> live (fst st) \<subseteq> set_option (su_process (snd st))"

definition all_dead :: "('w \<Rightarrow> nat set) \<Rightarrow> 'w \<times> supervisor \<Rightarrow> bool" where
  "all_dead live st \<longleftrightarrow> live (fst st) = {}"

definition watching :: "('w \<Rightarrow> nat set) \<Rightarrow> nat \<Rightarrow> 'w \<times> supervisor \<Rightarrow> bool" where
  "watching live p st \<longleftrightarrow> live (fst st) \<subseteq> {p} \<and> su_process (snd st) = Some p"

lemmas watch_defs = watched_def all_dead_def watching_def

lemma watch_imp [simp]: "all_dead live st \<Longrightarrow> watched live st" "watching live p st \<Longrightarrow> watched live st"
  by (simp_all add: watch_defs)

lemma watched_watching: "watched live st \<Longrightarrow> su_process (snd st) = Some p \<Longrightarrow> watching live p st"
  by (simp add: watch_defs)

text \<open>Conditions that actions within a frame keep.\<close>

definition stable ::
  "('w \<times> supervisor \<Rightarrow> 'w \<times> supervisor \<Rightarrow> bool) \<Rightarrow> ('w \<times> supervisor \<Rightarrow> bool) \<Rightarrow> ('w \<times> supervisor \<Rightarrow> bool) \<Rightarrow> bool"
where
  "stable F P R \<longleftrightarrow> (\<forall>st st'. P st \<longrightarrow> F st st' \<longrightarrow> P st') \<and> (\<forall>st. P st \<longrightarrow> R st)"

lemma stable_watch:
  "stable (frame live) (watched live) (watched live)" "stable (frame live) (all_dead live) (watched live)"
  "stable (frame live) (watching live p) (watched live)"
  "stable (frame live) (\<lambda>st. all_dead live st \<and> su_start_failed (snd st) = q) (watched live)"
  "stable (frame live) (\<lambda>st. watching live p st \<and> su_start_failed (snd st) = q) (watched live)"
  unfolding stable_def watch_defs frame_def by auto

lemma valid_inside:
  assumes "inside F m" and "stable F P R"
  shows "valid P m (\<lambda>_. P) R"
  using insideD [OF assms(1)] assms(2) unfolding stable_def by (intro validI) metis+

lemma inside_then_valid: "inside F m \<Longrightarrow> stable F P R \<Longrightarrow> valid P k Q R \<Longrightarrow> valid P (act_then m k) Q R"
  by (rule valid_then, rule valid_inside)

lemma inside_bind_valid: "inside F m \<Longrightarrow> stable F P R \<Longrightarrow> (\<And>x. valid P (f x) Q R) \<Longrightarrow> valid P (act_bind m f) Q R"
  by (rule valid_bind, rule valid_inside)

lemma assign_then_valid: "(\<And>w s. P (w, s) \<Longrightarrow> P' (w, f s)) \<Longrightarrow> valid P' k Q R \<Longrightarrow> valid P (act_then (assign f) k) Q R"
  by (rule valid_then [where B = P'], rule valid_assign)

lemmas quiet_then_valid = inside_then_valid [where F = "frame live" and R = "watched live"] for live

lemmas quiet_bind_valid = inside_bind_valid [where F = "frame live" and R = "watched live"] for live

lemma is_alive_watch:
  assumes "honest E live"
  shows "valid (watching live p) (safe_is_alive E p)
    (\<lambda>r st. watching live p st \<and> (r = Some False \<longrightarrow> all_dead live st)) (watched live)"
proof -
  have w: "watching live p st'" if "watching live p st" "safe_is_alive E p st = (r, st')" for st r st'
    using insideD [OF quiet_checks(1) [OF assms] that(2)] that(1) stable_watch(3) unfolding stable_def by blast
  have "all_dead live st'" if "watching live p st" "safe_is_alive E p st = (Finished (Some False), st')" for st st'
  proof -
    have "we_is_alive E p (fst st) = (Some False, fst st')"
      using that(2) by (auto simp: safe_is_alive_def act_bind_def act_then_def asking_def act_return_def
          split: prod.splits option.splits outcome.splits)
    with honest_dead [OF assms] w [OF that] show ?thesis by (auto simp: watch_defs)
  qed
  with w show ?thesis by (intro validI conjI) (blast, blast, metis watch_imp(2))
qed

lemma terminate_watch:
  assumes E: "honest E live"
  shows "valid (watching live p) (terminate_unhealthy E c p)
    (\<lambda>r st. watching live p st \<and> (r \<longrightarrow> all_dead live st)) (watched live)"
  unfolding terminate_unhealthy_def
proof (intro quiet_then_valid quiet_intros stable_watch E honest_frames [OF E])
  show "valid (watching live p) (act_bind (safe_is_alive E p) (\<lambda>alive.
      if alive = Some False then act_return True
      else act_then (assign (\<lambda>s. s\<lparr>su_degraded := True, su_reason := Some ''unhealthy_process_shutdown_incomplete''\<rparr>))
             (act_return False)))
    (\<lambda>r st. watching live p st \<and> (r \<longrightarrow> all_dead live st)) (watched live)"
    by (rule valid_bind [OF is_alive_watch [OF E]])
      (auto intro!: valid_return assign_then_valid [where P' = "watching live p"] simp: watch_defs)
qed

lemma contain_watch:
  assumes E: "honest E live"
  shows "valid (\<lambda>st. watching live p st \<and> su_start_failed (snd st) = Some p) (contain_start_failed E c)
    (\<lambda>r st. watched live st \<and> (r \<longrightarrow> all_dead live st)) (watched live)"
  unfolding contain_start_failed_def
proof (rule valid_reading)
  fix s :: supervisor
  let ?P = "\<lambda>contained st. watching live p st \<and> (contained \<longrightarrow> all_dead live st)"
  let ?k = "\<lambda>contained. act_then (if contained then assign (\<lambda>s. s\<lparr>su_start_failed := None, su_start_failed_liveness := None\<rparr>) else act_return ())
         (act_return (contained \<and> su_start_failed_liveness s = Some False))"
  have k: "valid (?P contained) (?k contained) (\<lambda>r st. watched live st \<and> (r \<longrightarrow> all_dead live st)) (watched live)" for contained
    by (rule valid_then [where B = "?P contained"]) (auto intro!: valid_return valid_assign simp: watch_defs)
  show "valid (\<lambda>st. (watching live p st \<and> su_start_failed (snd st) = Some p) \<and> snd st = s)
     (case su_start_failed s of None \<Rightarrow> act_return True | Some q \<Rightarrow> act_bind (terminate_unhealthy E c q) ?k)
     (\<lambda>r st. watched live st \<and> (r \<longrightarrow> all_dead live st)) (watched live)"
  proof (cases "su_start_failed s = Some p")
    case True
    have "valid (watching live p) (act_bind (terminate_unhealthy E c p) ?k)
        (\<lambda>r st. watched live st \<and> (r \<longrightarrow> all_dead live st)) (watched live)"
      by (rule valid_bind [OF terminate_watch [OF E]]) (rule k)
    then show ?thesis unfolding True by (simp, rule valid_weaken) simp_all
  qed (auto simp: valid_def)
qed

lemma note_start_failure_watch:
  assumes E: "honest E live"
  shows "valid (watching live p) (note_start_failure E p)
    (\<lambda>r st. \<not> r \<and> watching live p st \<and> su_start_failed (snd st) = Some p) (watched live)"
  unfolding note_start_failure_def
proof (rule assign_then_valid [where P' = "\<lambda>st. watching live p st \<and> su_start_failed (snd st) = Some p"])
  show "valid (\<lambda>st. watching live p st \<and> su_start_failed (snd st) = Some p)
     (act_bind (safe_is_alive E p) (\<lambda>alive. act_then (assign (\<lambda>s. s\<lparr>su_start_failed_liveness := alive\<rparr>))
       (act_then (mark_degraded E ''process_start_failed'') (act_return False))))
     (\<lambda>r st. \<not> r \<and> watching live p st \<and> su_start_failed (snd st) = Some p) (watched live)"
    by (intro quiet_bind_valid quiet_then_valid quiet_intros stable_watch E valid_return) simp_all
qed (simp add: watch_defs)

text \<open>After an attempt to start: nothing lives if there is no new process; a process whose start
  raised is the supervised one.\<close>

definition attempted :: "('w \<Rightarrow> nat set) \<Rightarrow> bool \<Rightarrow> 'w \<times> supervisor \<Rightarrow> bool" where
  "attempted live started st \<longleftrightarrow> watched live st
     \<and> (\<not> started \<and> su_start_failed (snd st) = None \<longrightarrow> all_dead live st)
     \<and> (\<forall>p. su_start_failed (snd st) = Some p \<longrightarrow> watching live p st)"

lemma launch_watch:
  assumes E: "honest E live"
  shows "valid (\<lambda>st. all_dead live st \<and> su_start_failed (snd st) = None) (launch_process E p stop_event ready heartbeat)
    (attempted live) (watched live)"
  unfolding launch_process_def
proof (rule valid_then [where B = "\<lambda>st. all_dead live st \<and> su_process (snd st) = Some p \<and> su_start_failed (snd st) = None"])
  let ?P = "\<lambda>st. watching live p st \<and> su_start_failed (snd st) = None"
  have "valid ?P (note_started E p) (attempted live) (watched live)"
    unfolding note_started_def
    by (intro quiet_bind_valid quiet_then_valid quiet_intros stable_watch E honest_frames [OF E] valid_return)
      (auto simp: attempted_def intro: watch_imp)
  moreover have "valid ?P (note_start_failure E p) (attempted live) (watched live)"
    by (rule valid_weaken [OF note_start_failure_watch [OF E]]) (auto simp: attempted_def intro: watch_imp)
  ultimately have started: "valid ?P (if started then note_started E p else note_start_failure E p) (attempted live) (watched live)"
    for started by simp
  show "valid (\<lambda>st. all_dead live st \<and> su_process (snd st) = Some p \<and> su_start_failed (snd st) = None)
      (act_bind (asking (we_start E p)) (\<lambda>started. if started then note_started E p else note_start_failure E p))
      (attempted live) (watched live)"
    by (rule valid_bind [where B = "\<lambda>_. ?P"], rule valid_asking)
      (use honest_start [OF E] started in \<open>force simp: watch_defs\<close>)+
qed (auto intro!: valid_assign simp: watch_defs)

lemma start_process_watch:
  assumes E: "honest E live"
  shows "valid (all_dead live) (start_process E) (attempted live) (watched live)"
  unfolding start_process_def
proof (rule assign_then_valid [where P' = "\<lambda>st. all_dead live st \<and> su_start_failed (snd st) = None"])
  have failed: "valid (\<lambda>st. all_dead live st \<and> su_start_failed (snd st) = None)
      (act_then (mark_degraded E r) (act_return False)) (attempted live) (watched live)" for r
    by (intro quiet_then_valid quiet_intros stable_watch E valid_return) (simp add: attempted_def)
  show "valid (\<lambda>st. all_dead live st \<and> su_start_failed (snd st) = None)
     (act_bind (asking (we_factory E)) (\<lambda>created.
        case created of
          Some (Created p stop_event ready heartbeat) \<Rightarrow> launch_process E p stop_event ready heartbeat
        | _ \<Rightarrow> act_then (mark_degraded E ''process_factory_failed'') (act_return False))) (attempted live) (watched live)"
    by (intro quiet_bind_valid quiet_intros stable_watch honest_frames [OF E])
      (auto split: option.split created.split intro: failed launch_watch [OF E])
qed (simp add: watch_defs)

lemma valid_watched: "quiet live m \<Longrightarrow> valid (watched live) m (\<lambda>_. watched live) (watched live)"
  by (rule valid_inside [OF _ stable_watch(1)])

text \<open>What is read of the supervisor does not matter for these conditions.\<close>

lemma valid_reading_any: "(\<And>s. valid P (f s) Q R) \<Longrightarrow> valid P (reading f) Q R"
  by (rule valid_reading, rule valid_weaken) blast+

lemma restart_outcome_watch:
  assumes E: "honest E live" and again: "valid (all_dead live) again (\<lambda>_. watched live) (watched live)"
  shows "valid (attempted live started) (restart_outcome E c incident again started) (\<lambda>_. watched live) (watched live)"
proof (cases started)
  case True
  then show ?thesis unfolding restart_outcome_def
    by (auto intro!: assign_then_valid [where P' = "watched live"] valid_return simp: attempted_def watch_defs)
next
  case False
  let ?k = "\<lambda>contained. if contained then again else act_then (ensure_terminal_fail_safe E c) (act_return False)"
  have k: "valid (\<lambda>st. watched live st \<and> (contained \<longrightarrow> all_dead live st)) (?k contained) (\<lambda>_. watched live) (watched live)" for contained
  proof (cases contained)
    case True
    then show ?thesis by (auto intro: valid_weaken [OF again])
  next
    case False
    have "valid (watched live) (?k False) (\<lambda>_. watched live) (watched live)"
      by (simp, intro quiet_then_valid quiet_intros stable_watch E valid_return)
    with False show ?thesis by (auto intro: valid_weaken)
  qed
  have "valid (\<lambda>st. attempted live False st \<and> snd st = s)
      (if su_start_failed s = None then again else act_bind (contain_start_failed E c) ?k) (\<lambda>_. watched live) (watched live)" for s
  proof (cases "su_start_failed s")
    case None
    then show ?thesis by (auto intro!: valid_weaken [OF again] simp: attempted_def)
  next
    case (Some p)
    have "valid (\<lambda>st. attempted live False st \<and> snd st = s) (contain_start_failed E c)
        (\<lambda>r st. watched live st \<and> (r \<longrightarrow> all_dead live st)) (watched live)"
      by (rule valid_weaken [OF contain_watch [OF E, of p]]) (auto simp: attempted_def Some)
    from valid_bind [OF this k] Some show ?thesis by simp
  qed
  with False show ?thesis by (auto intro: valid_reading simp: restart_outcome_def)
qed

lemma restart_attempt_watch:
  assumes E: "honest E live" and again: "valid (all_dead live) again (\<lambda>_. watched live) (watched live)"
  shows "valid (all_dead live) (restart_attempt E c incident again) (\<lambda>_. watched live) (watched live)"
proof -
  have "valid (all_dead live)
     (act_then (assign (\<lambda>s. s\<lparr>su_restart_times := su_restart_times s @ [stamp], su_restart_count := su_restart_count s + 1\<rparr>))
       (act_bind (start_process E) (restart_outcome E c incident again))) (\<lambda>_. watched live) (watched live)" for stamp
    by (rule assign_then_valid [where P' = "all_dead live"], simp add: watch_defs)
      (rule valid_bind [OF start_process_watch [OF E] restart_outcome_watch [OF E again]])
  moreover have "valid (all_dead live) (act_return False) (\<lambda>_. watched live) (watched live)"
    by (rule valid_return) simp
  ultimately show ?thesis unfolding restart_attempt_def
    by (auto intro!: valid_reading_any quiet_bind_valid quiet_intros stable_watch honest_frames [OF E])
qed

lemma restart_watch:
  assumes E: "honest E live"
  shows "valid (all_dead live) (restart_until_started E c n incident fs) (\<lambda>_. watched live) (watched live)"
proof (induction n)
  case 0
  show ?case by (simp add: valid_stop)
next
  case (Suc n)
  have "quiet live (budget_exhausted E c fs)"
    unfolding budget_exhausted_def by (intro quiet_intros E) simp_all
  then have over: "valid (all_dead live) (budget_exhausted E c fs) (\<lambda>_. watched live) (watched live)"
    by (intro valid_weaken [OF valid_inside [OF _ stable_watch(2)]]) simp_all
  have tried: "valid (all_dead live) (act_then m (restart_attempt E c incident (restart_until_started E c n incident fs)))
       (\<lambda>_. watched live) (watched live)" if "quiet live m" for m :: "('a, unit) act"
    by (intro quiet_then_valid stable_watch that E restart_attempt_watch Suc.IH)
  have prune: "valid (all_dead live) (assign (prune_restarts c now)) (\<lambda>_. all_dead live) (watched live)" for now
    by (rule valid_assign) (simp add: watch_defs prune_restarts_def)
  show ?case
    by (simp, intro valid_reading_any)
      (auto intro!: valid_return quiet_bind_valid quiet_intros stable_watch honest_frames [OF E] valid_then [OF prune]
        valid_reading_any over tried valid_stop E split: option.split)
qed

lemma replace_watch:
  assumes E: "honest E live"
  shows "valid (watching live p) (replace_unhealthy E c n incident p) (\<lambda>_. watched live) (watched live)"
proof -
  have stay: "valid (watching live p) (act_return False) (\<lambda>_. watched live) (watched live)" for p
    by (rule valid_return) (rule watch_imp)
  have "valid (all_dead live) (act_then (mark_degraded E r) (act_return False)) (\<lambda>_. watched live) (watched live)" for r
    by (intro quiet_then_valid quiet_intros stable_watch E valid_return) simp
  then have ended: "valid (all_dead live) (act_bind (wait_for_fail_safe E c) (\<lambda>ok.
      if \<not> ok then act_then (mark_degraded E (incident @ ''_fail_safe_incomplete'')) (act_return False)
      else restart_until_started E c n (Some incident) False)) (\<lambda>_. watched live) (watched live)"
    by (auto intro!: quiet_bind_valid quiet_intros stable_watch E restart_watch)
  show ?thesis unfolding replace_unhealthy_def
    apply (intro quiet_then_valid quiet_intros stable_watch E; simp?)
    apply (rule valid_bind [OF terminate_watch [OF E]])
    subgoal for done'
      using ended stay by (cases done') (auto intro: valid_weaken)
    done
qed

lemma stay_watch: "quiet live m \<Longrightarrow> valid (watching live p) m (\<lambda>_. watched live) (watched live)"
  by (rule valid_weaken [OF valid_inside [OF _ stable_watch(3)]]) (auto intro: watch_imp)

lemma alive_watch:
  assumes E: "honest E live"
  shows "valid (watching live p) (monitor_alive E c n p) (\<lambda>_. watched live) (watched live)"
proof -
  have "quiet live (act_then (note_healthy E) (act_return True))" "quiet live (act_return True)"
    by (intro quiet_intros E)+
  note this [THEN stay_watch, of p]
  then show ?thesis unfolding monitor_alive_def
    by (auto intro!: quiet_bind_valid quiet_intros stable_watch E replace_watch)
qed

lemma body_watch:
  assumes E: "honest E live"
  shows "valid (\<lambda>st. watched live st \<and> su_process (snd st) = q) (monitor_body E c n q) (\<lambda>_. watched live) (watched live)"
proof (cases q)
  case None
  have "valid (all_dead live) (monitor_body E c n None) (\<lambda>_. watched live) (watched live)"
    by (simp add: monitor_body_def) (intro quiet_then_valid quiet_intros stable_watch E restart_watch)
  then show ?thesis unfolding None by (rule valid_weaken) (auto simp: watch_defs)
next
  case (Some p)
  let ?k = "\<lambda>alive. case alive of
            None \<Rightarrow> act_then (invoke_fail_safe E c) (act_then (terminate_unhealthy E c p) (act_return False))
          | Some True \<Rightarrow> monitor_alive E c n p
          | Some False \<Rightarrow>
              act_then (join E c p (Fin 0)) (act_then (note_exit E p) (restart_until_started E c n None True))"
  have "valid (watching live p) (act_then (invoke_fail_safe E c) (act_then (terminate_unhealthy E c p) (act_return False)))
      (\<lambda>_. watched live) (watched live)"
    by (rule stay_watch) (intro quiet_intros E)
  moreover have "valid (all_dead live) (act_then (join E c p (Fin 0)) (act_then (note_exit E p) (restart_until_started E c n None True)))
      (\<lambda>_. watched live) (watched live)"
    by (intro quiet_then_valid quiet_intros stable_watch E restart_watch)
  ultimately have k: "valid (\<lambda>st. watching live p st \<and> (alive = Some False \<longrightarrow> all_dead live st)) (?k alive)
      (\<lambda>_. watched live) (watched live)" for alive
    using alive_watch [OF E, of p c n] by (cases alive rule: option.exhaust) (auto split: bool.splits intro: valid_weaken)
  have "valid (watching live p) (monitor_body E c n (Some p)) (\<lambda>_. watched live) (watched live)"
    unfolding monitor_body_def option.case by (rule valid_bind [OF is_alive_watch [OF E] k])
  then show ?thesis unfolding Some by (rule valid_weaken) (auto simp: watch_defs)
qed

lemma monitor_loop_watch:
  assumes E: "honest E live"
  shows "valid (watched live) (monitor_loop E c n) (\<lambda>_. watched live) (watched live)"
proof (induction n)
  case 0
  show ?case by (simp add: valid_stop)
next
  case (Suc n)
  have "valid (\<lambda>st. watched live st \<and> snd st = s)
      (act_catch (monitor_body E c n (su_process s)) (monitor_failed E c (su_process s))) (\<lambda>_. watched live) (watched live)" for s
    by (rule valid_weaken [OF valid_catch [OF body_watch [OF E] valid_watched]]) (auto intro!: quiet_intros E)
  moreover have "valid (watched live) (if goes_on then monitor_loop E c n else act_return ()) (\<lambda>_. watched live) (watched live)" for goes_on
    using Suc.IH by (auto intro: valid_return)
  ultimately have "valid (watched live) (reading (\<lambda>s.
       act_bind (act_catch (monitor_body E c n (su_process s)) (monitor_failed E c (su_process s))) (\<lambda>goes_on.
         if goes_on then monitor_loop E c n else act_return ()))) (\<lambda>_. watched live) (watched live)"
    by (intro valid_reading valid_bind)
  then show ?case
    by (auto intro!: valid_reading_any quiet_then_valid quiet_intros stable_watch E valid_return)
qed

lemma monitor_watch:
  assumes E: "honest E live"
  shows "valid (attempted live started) (monitor E c n (\<not> started)) (\<lambda>_. watched live) (watched live)"
proof (cases started)
  case True
  have "valid (attempted live True) (monitor_loop E c n) (\<lambda>_. watched live) (watched live)"
    by (rule valid_weaken [OF monitor_loop_watch [OF E]]) (auto simp: attempted_def)
  with True show ?thesis by (simp add: monitor_def)
next
  case False
  let ?k = "\<lambda>contained. if \<not> contained then ensure_terminal_fail_safe E c
          else act_bind (restart_until_started E c n None True) (\<lambda>started. if started then monitor_loop E c n else act_return ())"
  have loop: "valid (watched live) (if started then monitor_loop E c n else act_return ()) (\<lambda>_. watched live) (watched live)" for started
    using monitor_loop_watch [OF E] by (auto intro: valid_return)
  have "valid (all_dead live) (?k True) (\<lambda>_. watched live) (watched live)"
    unfolding not_True_eq_False if_False by (rule valid_bind [OF restart_watch [OF E] loop])
  then have k: "valid (\<lambda>st. watched live st \<and> (contained \<longrightarrow> all_dead live st)) (?k contained) (\<lambda>_. watched live) (watched live)" for contained
    using valid_watched [OF quiet_fail_safe(2) [OF E, of c]] by (cases contained) (auto intro: valid_weaken)
  have "valid (\<lambda>st. attempted live False st \<and> snd st = s)
      (if su_start_failed s = None then act_return True else contain_start_failed E c)
      (\<lambda>r st. watched live st \<and> (r \<longrightarrow> all_dead live st)) (watched live)" for s
  proof (cases "su_start_failed s")
    case None
    then show ?thesis by (auto intro!: valid_return simp: attempted_def)
  next
    case (Some p)
    have "valid (\<lambda>st. attempted live False st \<and> snd st = s) (contain_start_failed E c)
        (\<lambda>r st. watched live st \<and> (r \<longrightarrow> all_dead live st)) (watched live)"
      by (rule valid_weaken [OF contain_watch [OF E, of p]]) (auto simp: attempted_def Some)
    with Some show ?thesis by simp
  qed
  from valid_bind [OF this k] False show ?thesis by (auto intro: valid_reading simp: monitor_def)
qed

lemma start_watch:
  assumes E: "honest E live"
  shows "valid (all_dead live) (sup_start E c n) (\<lambda>_. watched live) (watched live)"
proof -
  have "valid (attempted live started) (act_then (assign (\<lambda>s. s\<lparr>su_monitoring := True\<rparr>)) (monitor E c n (\<not> started)))
      (\<lambda>_. watched live) (watched live)" for started
    by (rule assign_then_valid [OF _ monitor_watch [OF E]]) (simp add: attempted_def watch_defs)
  from valid_bind [OF start_process_watch [OF E] this]
  show ?thesis unfolding sup_start_def
    by (auto intro!: valid_reading_any valid_return assign_then_valid [where P' = "all_dead live"] simp: watch_defs)
qed

lemma stop_process_watch:
  assumes E: "honest E live"
  shows "valid (watching live p) (stop_process E c safe p) (\<lambda>r st. watched live st \<and> (r \<longrightarrow> all_dead live st)) (watched live)"
proof -
  let ?Q = "\<lambda>r st. watched live st \<and> (r \<longrightarrow> all_dead live st)"
  have "valid (watching live p) (act_then (note_exit E p)
      (act_then (assign (\<lambda>s. s\<lparr>su_degraded := True, su_reason := Some ''shutdown_incomplete''\<rparr>)) (act_return False))) ?Q (watched live)"
    by (intro quiet_then_valid quiet_intros stable_watch E valid_return; simp)
  moreover have "valid (all_dead live) (act_then (note_exit E p)
      (act_then (if safe then assign (\<lambda>s. s\<lparr>su_reason := Some ''stopped''\<rparr>) else act_return ()) (act_return safe))) ?Q (watched live)"
    by (intro quiet_then_valid quiet_intros stable_watch E valid_return; simp)
  ultimately have k: "valid (\<lambda>st. watching live p st \<and> (alive = Some False \<longrightarrow> all_dead live st)) (act_then (note_exit E p)
      (if alive \<noteq> Some False
       then act_then (assign (\<lambda>s. s\<lparr>su_degraded := True, su_reason := Some ''shutdown_incomplete''\<rparr>)) (act_return False)
       else act_then (if safe then assign (\<lambda>s. s\<lparr>su_reason := Some ''stopped''\<rparr>) else act_return ()) (act_return safe)))
      ?Q (watched live)" for alive
    by (cases "alive = Some False") (auto intro: valid_weaken)
  show ?thesis unfolding stop_process_def
    by (intro quiet_then_valid quiet_intros stable_watch E honest_frames [OF E] valid_bind [OF is_alive_watch [OF E] k])
qed

lemma stop_watch:
  assumes E: "honest E live"
  shows "valid (watched live) (sup_stop E c) (\<lambda>r st. watched live st \<and> (r \<longrightarrow> all_dead live st)) (watched live)"
proof -
  let ?Q = "\<lambda>r st. watched live st \<and> (r \<longrightarrow> all_dead live st)"
  have "valid (\<lambda>st. watched live st \<and> snd st = s)
     (act_then (case su_stop_event s of None \<Rightarrow> act_return () | Some e \<Rightarrow> guarded E ''stop_event_failed'' (we_event_set E e))
        (case su_process s of None \<Rightarrow> act_return safe | Some p \<Rightarrow> stop_process E c safe p)) ?Q (watched live)" for s safe
  proof (cases "su_process s")
    case None
    have "valid (all_dead live) (act_then (case su_stop_event s of None \<Rightarrow> act_return () | Some e \<Rightarrow> guarded E ''stop_event_failed'' (we_event_set E e))
        (act_return safe)) ?Q (watched live)"
      by (intro quiet_then_valid quiet_intros stable_watch E honest_frames [OF E] valid_return) simp
    then show ?thesis unfolding None option.case by (rule valid_weaken) (auto simp: watch_defs None)
  next
    case (Some p)
    have "valid (watching live p) (act_then (case su_stop_event s of None \<Rightarrow> act_return () | Some e \<Rightarrow> guarded E ''stop_event_failed'' (we_event_set E e))
        (stop_process E c safe p)) ?Q (watched live)"
      by (intro quiet_then_valid quiet_intros stable_watch E honest_frames [OF E] stop_process_watch)
    then show ?thesis unfolding Some option.case by (rule valid_weaken) (simp_all add: watched_watching Some)
  qed
  then have "valid (watched live) (reading (\<lambda>s.
        act_then (case su_stop_event s of None \<Rightarrow> act_return () | Some e \<Rightarrow> guarded E ''stop_event_failed'' (we_event_set E e))
        (case su_process s of None \<Rightarrow> act_return safe | Some p \<Rightarrow> stop_process E c safe p))) ?Q (watched live)" for safe
    by (rule valid_reading)
  then show ?thesis unfolding sup_stop_def
    by (intro quiet_then_valid quiet_bind_valid quiet_intros stable_watch E; simp)
qed

subsection \<open>The restart budget\<close>

definition same_restarts :: "'w \<times> supervisor \<Rightarrow> 'w \<times> supervisor \<Rightarrow> bool" where
  "same_restarts st st' \<longleftrightarrow> su_restart_times (snd st') = su_restart_times (snd st)
     \<and> su_restart_count (snd st') = su_restart_count (snd st)"

lemma preorder_same_restarts: "preorder_on_states same_restarts"
  by (auto simp: preorder_on_states_def same_restarts_def)

lemma always_honest: "honest E (\<lambda>_. {})"
  by (simp add: honest_def)

lemma quiet_same_restarts: "quiet (\<lambda>_. {}) m \<Longrightarrow> inside same_restarts m"
  by (simp add: inside_def frame_def same_restarts_def)

lemma same_restarts_assign:
  "(\<And>s. su_restart_times (f s) = su_restart_times s) \<Longrightarrow> (\<And>s. su_restart_count (f s) = su_restart_count s) \<Longrightarrow>
     inside same_restarts (assign f)"
  by (simp add: inside_def assign_def same_restarts_def)

lemma same_restarts_asking: "inside same_restarts (asking f)"
  by (simp add: inside_def asking_def same_restarts_def split_beta)

lemmas same_restarts_intros =
  inside_return [OF preorder_same_restarts] inside_bind [OF preorder_same_restarts] inside_then [OF preorder_same_restarts]
  inside_reading inside_if inside_option same_restarts_assign same_restarts_asking

lemma same_restarts_steps:
  "inside same_restarts (contain_start_failed E c)" "inside same_restarts (start_process E)"
proof -
  note base = quiet_same_restarts [OF quiet_mark_degraded [OF always_honest]]
    quiet_same_restarts [OF quiet_checks(1) [OF always_honest]]
    quiet_same_restarts [OF quiet_ending(2) [OF always_honest]] quiet_same_restarts [OF quiet_ending(3) [OF always_honest]]
  show "inside same_restarts (contain_start_failed E c)"
    unfolding contain_start_failed_def by (intro same_restarts_intros base) simp_all
  have "inside same_restarts (launch_process E p a b d)" for p a b d
    unfolding launch_process_def note_start_failure_def by (intro same_restarts_intros base) simp_all
  then show "inside same_restarts (start_process E)"
    unfolding start_process_def
    by (intro same_restarts_intros base) (auto intro!: same_restarts_intros base split: option.split created.split)
qed

text \<open>Within the budget: every restart since the count was \<open>k\<close> is still on record.\<close>

definition budgeted :: "supervisor_config \<Rightarrow> nat \<Rightarrow> pyfloat \<Rightarrow> 'w \<times> supervisor \<Rightarrow> bool" where
  "budgeted c k t0 st \<longleftrightarrow>
     su_restart_count (snd st) \<le> k + length (filter (fle t0) (su_restart_times (snd st)))
     \<and> int (length (su_restart_times (snd st))) \<le> max 0 (scf_max_restarts c)"

definition clock_in_window :: "'w worker_env \<Rightarrow> supervisor_config \<Rightarrow> pyfloat \<Rightarrow> bool" where
  "clock_in_window E c t0 \<longleftrightarrow>
     (\<forall>w. fle t0 (fst (we_monotonic E w)) \<and> fle (fsub (fst (we_monotonic E w)) (scf_restart_window c)) t0)"

abbreviation room :: "supervisor_config \<Rightarrow> 'w \<times> supervisor \<Rightarrow> bool" where
  "room c st \<equiv> int (length (su_restart_times (snd st))) < scf_max_restarts c"

lemma stable_budget:
  "stable same_restarts (budgeted c k t0) (budgeted c k t0)"
  "stable same_restarts (\<lambda>st. budgeted c k t0 st \<and> room c st) (budgeted c k t0)"
  by (auto simp: stable_def same_restarts_def budgeted_def)

lemma quiet_budget: "quiet (\<lambda>_. {}) m \<Longrightarrow> valid (budgeted c k t0) m (\<lambda>_. budgeted c k t0) (budgeted c k t0)"
  by (rule valid_inside [OF quiet_same_restarts stable_budget(1)])

lemma prune_budget:
  assumes "clock_in_window E c t0" and "we_monotonic E w = (now, w')" and "budgeted c k t0 st"
  shows "budgeted c k t0 (w', prune_restarts c now (snd st))"
proof -
  let ?cut = "fsub now (scf_restart_window c)"
  from assms(1,2) have "fle ?cut t0" unfolding clock_in_window_def by (metis fst_conv)
  then have "filter (fle t0) (filter (fle ?cut) ts) = filter (fle t0) ts" for ts
    by (auto intro!: filter_cong dest: fle_trans)
  moreover have "int (length (filter (fle ?cut) (su_restart_times (snd st)))) \<le> int (length (su_restart_times (snd st)))" by simp
  then have "int (length (filter (fle ?cut) (su_restart_times (snd st)))) \<le> max 0 (scf_max_restarts c)"
    using assms(3) unfolding budgeted_def by (blast intro: order_trans)
  ultimately show ?thesis using assms(3) unfolding budgeted_def prune_restarts_def by simp
qed

lemmas steady_then_valid = inside_then_valid [where F = same_restarts and R = "budgeted c k t0"] for c k t0

lemmas steady_bind_valid = inside_bind_valid [where F = same_restarts and R = "budgeted c k t0"] for c k t0

lemmas quiet_free = quiet_same_restarts [OF quiet_mark_degraded [OF always_honest]]
  quiet_checks [OF always_honest, THEN quiet_same_restarts] quiet_snapshot [OF always_honest, THEN quiet_same_restarts]
  quiet_waits [OF always_honest, THEN quiet_same_restarts] quiet_fail_safe [OF always_honest, THEN quiet_same_restarts]
  quiet_ending(2-4) [OF always_honest, THEN quiet_same_restarts]

abbreviation keeps_budget :: "supervisor_config \<Rightarrow> nat \<Rightarrow> pyfloat \<Rightarrow> ('w, 'a) act \<Rightarrow> bool" where
  "keeps_budget c k t0 m \<equiv> valid (budgeted c k t0) m (\<lambda>_. budgeted c k t0) (budgeted c k t0)"

lemma return_budget: "keeps_budget c k t0 (act_return x)"
  by (rule valid_return)

lemma restart_attempt_budget:
  assumes clock: "clock_in_window E c t0" and again: "keeps_budget c k t0 again"
  shows "valid (\<lambda>st. budgeted c k t0 st \<and> room c st) (restart_attempt E c incident again) (\<lambda>_. budgeted c k t0) (budgeted c k t0)"
proof -
  have outcome: "keeps_budget c k t0 (restart_outcome E c incident again started)" for started
    unfolding restart_outcome_def
    by (auto intro!: valid_reading_any again steady_then_valid steady_bind_valid stable_budget same_restarts_intros same_restarts_steps
        quiet_free return_budget)
  then have start: "keeps_budget c k t0 (act_bind (start_process E) (restart_outcome E c incident again))"
    by (intro steady_bind_valid stable_budget same_restarts_steps)
  have "valid (\<lambda>st. budgeted c k t0 st \<and> room c st) (act_bind (asking (we_monotonic E)) (\<lambda>stamp.
       act_then (assign (\<lambda>s. s\<lparr>su_restart_times := su_restart_times s @ [stamp], su_restart_count := su_restart_count s + 1\<rparr>))
       (act_bind (start_process E) (restart_outcome E c incident again)))) (\<lambda>_. budgeted c k t0) (budgeted c k t0)"
  proof (rule valid_bind [where B = "\<lambda>stamp st. (budgeted c k t0 st \<and> room c st) \<and> fle t0 stamp"])
    show "valid (\<lambda>st. budgeted c k t0 st \<and> room c st) (asking (we_monotonic E))
        (\<lambda>stamp st. (budgeted c k t0 st \<and> room c st) \<and> fle t0 stamp) (budgeted c k t0)"
      by (rule valid_asking) (use clock in \<open>auto simp: clock_in_window_def budgeted_def dest: spec\<close>, metis fst_conv)
    show "valid (\<lambda>st. (budgeted c k t0 st \<and> room c st) \<and> fle t0 stamp)
        (act_then (assign (\<lambda>s. s\<lparr>su_restart_times := su_restart_times s @ [stamp], su_restart_count := su_restart_count s + 1\<rparr>))
       (act_bind (start_process E) (restart_outcome E c incident again))) (\<lambda>_. budgeted c k t0) (budgeted c k t0)" for stamp
      by (rule assign_then_valid [OF _ start]) (simp add: budgeted_def)
  qed
  then show ?thesis unfolding restart_attempt_def
    by (intro valid_reading_any) (auto intro: valid_return)
qed

lemma restart_budget_step:
  assumes clock: "clock_in_window E c t0"
  shows "keeps_budget c k t0 (restart_until_started E c n incident fs)"
proof (induction n)
  case 0
  show ?case by (simp add: valid_stop)
next
  case (Suc n)
  let ?again = "restart_until_started E c n incident fs"
  have over: "keeps_budget c k t0 (budget_exhausted E c fs)"
    unfolding budget_exhausted_def by (intro steady_then_valid stable_budget same_restarts_intros quiet_free return_budget) simp_all
  have tried: "valid (\<lambda>st. budgeted c k t0 st \<and> room c st) (act_then m (restart_attempt E c incident ?again))
       (\<lambda>_. budgeted c k t0) (budgeted c k t0)" if "inside same_restarts m" for m :: "('a, unit) act"
    by (intro steady_then_valid stable_budget that restart_attempt_budget clock Suc.IH)
  have checked: "valid (\<lambda>st. budgeted c k t0 st \<and> snd st = s)
      (if int (length (su_restart_times s)) \<ge> scf_max_restarts c then budget_exhausted E c fs
       else case backoff_delay c (length (su_restart_times s)) of
         None \<Rightarrow> act_stop Raised
       | Some delay \<Rightarrow> act_then (if float_true delay then sleep E c delay else act_return ()) (restart_attempt E c incident ?again))
      (\<lambda>_. budgeted c k t0) (budgeted c k t0)" for s
  proof (cases "int (length (su_restart_times s)) \<ge> scf_max_restarts c")
    case True
    with over show ?thesis by (auto intro: valid_weaken)
  next
    case False
    have "inside same_restarts (if float_true delay then sleep E c delay else act_return ())" for delay
      by (intro same_restarts_intros quiet_free)
    note tried = tried [OF this]
    show ?thesis
    proof (cases "backoff_delay c (length (su_restart_times s))")
      case None
      then show ?thesis using False by (auto intro: valid_stop)
    next
      case (Some delay)
      show ?thesis unfolding if_not_P [OF False] Some option.case
        by (rule valid_weaken [OF tried]) (use False in auto)
    qed
  qed
  have "keeps_budget c k t0 (act_bind (asking (we_monotonic E)) (\<lambda>now. act_then (assign (prune_restarts c now)) m))"
    if "keeps_budget c k t0 m" for m :: "('a, bool) act"
  proof (rule valid_bind [where B = "\<lambda>now st. budgeted c k t0 (fst st, prune_restarts c now (snd st))"])
    show "valid (budgeted c k t0) (asking (we_monotonic E))
        (\<lambda>now st. budgeted c k t0 (fst st, prune_restarts c now (snd st))) (budgeted c k t0)"
      by (rule valid_asking) (use prune_budget [OF clock] in fastforce)
    show "valid (\<lambda>st. budgeted c k t0 (fst st, prune_restarts c now (snd st))) (act_then (assign (prune_restarts c now)) m)
        (\<lambda>_. budgeted c k t0) (budgeted c k t0)" for now
      by (rule assign_then_valid [OF _ that]) simp
  qed
  from this [OF valid_reading [OF checked]] show ?case
    by (auto intro!: valid_reading_any return_budget)
qed

lemma monitor_loop_budget:
  assumes clock: "clock_in_window E c t0"
  shows "keeps_budget c k t0 (monitor_loop E c n)"
proof (induction n)
  case 0
  show ?case by (simp add: valid_stop)
next
  case (Suc n)
  note intros = steady_then_valid steady_bind_valid stable_budget same_restarts_intros quiet_free return_budget
    restart_budget_step [OF clock]
  have replace: "keeps_budget c k t0 (replace_unhealthy E c n incident p)" for incident p
    unfolding replace_unhealthy_def by (auto intro!: intros)
  have alive: "keeps_budget c k t0 (monitor_alive E c n p)" for p
    unfolding monitor_alive_def by (auto intro!: intros replace)
  have body: "keeps_budget c k t0 (monitor_body E c n q)" for q
    unfolding monitor_body_def by (auto intro!: intros alive split: option.split bool.split)
  have "keeps_budget c k t0 (act_catch (monitor_body E c n q) (monitor_failed E c q))" for q
    by (rule valid_catch [OF body]) (rule valid_inside [OF quiet_free(20) stable_budget(1)])
  moreover have "keeps_budget c k t0 (if goes_on then monitor_loop E c n else act_return ())" for goes_on
    by (cases goes_on) (auto intro: Suc.IH return_budget)
  ultimately have "keeps_budget c k t0 (act_bind (act_catch (monitor_body E c n q) (monitor_failed E c q)) (\<lambda>goes_on.
         if goes_on then monitor_loop E c n else act_return ()))" for q
    by (rule valid_bind)
  then have "keeps_budget c k t0 (act_then (sleep E c (scf_poll_interval c)) (reading (\<lambda>s.
       act_bind (act_catch (monitor_body E c n (su_process s)) (monitor_failed E c (su_process s))) (\<lambda>goes_on.
         if goes_on then monitor_loop E c n else act_return ()))))"
    by (intro steady_then_valid stable_budget quiet_free valid_reading_any)
  then show ?case by (auto intro!: valid_reading_any return_budget)
qed

subsection \<open>Properties\<close>

lemma valid_result: "valid P m Q R \<Longrightarrow> P st \<Longrightarrow> m st = (r, st') \<Longrightarrow> (\<exists>x. r = Finished x \<and> Q x st') \<or> R st'"
  by (cases r) (auto dest: validD)

text \<open>C26: the supervisor never has two workers alive. Whatever the environment does (processes that die,
  starts that raise although the process lives, status calls that fail, cancellation at any \<open>await\<close>),
  from \<open>start()\<close> on and at every point where the monitor waits or has ended, every live worker is the
  one process the supervisor holds. A replacement is only started after the old one was seen dead.\<close>

theorem at_most_one_worker:
  assumes "honest E live" and "live w = {}" and "sup_start E c n (w, s) = (r, w', s')"
  shows "live w' \<subseteq> set_option (su_process s') \<and> card (live w') \<le> 1"
proof -
  have "watched live (w', s')"
    using valid_result [OF start_watch [OF assms(1)] _ assms(3)] assms(2) by (auto simp: all_dead_def)
  then have "live w' \<subseteq> set_option (su_process s')" by (simp add: watched_def)
  moreover have "card (set_option q) \<le> 1" "finite (set_option q)" for q :: "nat option" by (cases q; simp)+
  ultimately show ?thesis by (meson card_mono le_trans)
qed

text \<open>C27: \<open>stop()\<close> reports success only for a verified shutdown: wherever the monitor was cancelled, when
  \<open>stop()\<close> returns \<open>True\<close> no worker is alive any more.\<close>

theorem stop_verified:
  assumes "honest E live" and "live w = {}" and "sup_start E c n (w, s) = (r, w1, s1)"
    and "sup_stop E c (w1, s1) = (Finished True, w2, s2)"
  shows "live w2 = {}"
proof -
  have "watched live (w1, s1)"
    using valid_result [OF start_watch [OF assms(1)] _ assms(3)] assms(2) by (auto simp: all_dead_def)
  from validD(1) [OF stop_watch [OF assms(1)] this assms(4)] show ?thesis by (simp add: all_dead_def)
qed


text \<open>A world of processes that die while the supervisor sleeps: the live ones and the next id.\<close>

definition sample_worker_env :: "(nat list \<times> nat) worker_env" where
  "sample_worker_env = \<lparr>we_factory = (\<lambda>(l, k). (Some (Created k None None None), l, k + 1)),
     we_start = (\<lambda>p (l, k). (True, p # l, k)), we_is_alive = (\<lambda>p (l, k). (Some (p \<in> set l), l, k)),
     we_exitcode = (\<lambda>p w. (Some (Some 1), w)), we_terminate = (\<lambda>p (l, k). (True, removeAll p l, k)),
     we_kill = (\<lambda>p (l, k). (True, removeAll p l, k)), we_join = (\<lambda>p d w. (True, w)),
     we_event_is_set = (\<lambda>e w. (Some False, w)), we_event_set = (\<lambda>e w. (True, w)), we_heartbeat = (\<lambda>h w. (None, w)),
     we_on_process = (\<lambda>p w. (True, w)), we_time = (\<lambda>w. (Fin 0, w)), we_monotonic = (\<lambda>w. (Fin 0, w)),
     we_sleep = (\<lambda>d (l, k). ([], k)), we_settled = (\<lambda>w. (Some EndOk, w)), we_finish = (\<lambda>w. (Some EndOk, w)),
     we_polled = (\<lambda>w. (False, w)), we_cancelled = (\<lambda>w. (False, w)), we_pid = (\<lambda>p. Some (int p))\<rparr>"

definition sample_supervision :: supervisor_config where
  "sample_supervision = supervisor_config_default\<lparr>scf_backoff_initial := Fin 0, scf_restart_window := PInf\<rparr>"

lemma sample_honest: "honest sample_worker_env (\<lambda>(l, k). set l)"
  by (auto simp: honest_def sample_worker_env_def)

lemma sample_clock: "clock_in_window sample_worker_env sample_supervision (Fin 0)"
  by (simp add: clock_in_window_def sample_worker_env_def sample_supervision_def fsub_def fle_def)

lemma sample_supervised:
  "(case sup_start sample_worker_env sample_supervision 3 (([], 0), supervisor_init) of
      (r, (l, k), s) \<Rightarrow> r = Halted \<and> l = [] \<and> k = 3 \<and> su_restart_count s = 2)"
  by code_simp

theorem at_most_one_worker_witness:
  "(case sup_start sample_worker_env sample_supervision 3 (([], 0), supervisor_init) of
      (r, w', s') \<Rightarrow> su_restart_count s' = 2 \<and> (case w' of (l, k) \<Rightarrow> set l) \<subseteq> set_option (su_process s'))"
proof -
  obtain r w' s' where run: "sup_start sample_worker_env sample_supervision 3 (([], 0), supervisor_init) = (r, w', s')"
    by (metis prod_cases3)
  from at_most_one_worker [OF sample_honest _ run] sample_supervised run show ?thesis by (auto split: prod.splits)
qed

definition sample_stop :: "bool outcome \<times> (nat list \<times> nat) \<times> supervisor" where
  "sample_stop = (case sup_start sample_worker_env sample_supervision 3 (([], 0), supervisor_init) of
     (r, st) \<Rightarrow> sup_stop sample_worker_env sample_supervision st)"

lemma sample_stopped: "(case sample_stop of (r, w, s) \<Rightarrow> r = Finished True)"
  by code_simp

theorem stop_verified_witness: "(case fst (snd sample_stop) of (l, k) \<Rightarrow> set l) = {}"
proof -
  obtain r w1 s1 where run: "sup_start sample_worker_env sample_supervision 3 (([], 0), supervisor_init) = (r, w1, s1)"
    by (metis prod_cases3)
  obtain q w2 s2 where stop: "sample_stop = (q, w2, s2)" by (metis prod_cases3)
  with sample_stopped have "sup_stop sample_worker_env sample_supervision (w1, s1) = (Finished True, w2, s2)"
    by (simp add: sample_stop_def run)
  from stop_verified [OF sample_honest _ run this] show ?thesis unfolding stop by simp
qed


end
