(* ===== verification/StateStore.thy ===== *)
theory StateStore
  imports PyFloat
begin

text \<open>
  Strategy state snapshots (\<^verbatim>\<open>openpine/state/store.py\<close>, \<^verbatim>\<open>openpine/state/policy.py\<close>): saving under a policy,
  the metadata index shared by several processes, lookup of the newest active snapshot, loading with
  checksum verification, invalidation, deletion and pruning.

  The storage directory is a record \<open>disk\<close> that all processes share: the snapshot files, the debug
  files, and the index file with the number of times it was replaced, which stands for its signature
  (modification time and size). A process holds a record \<open>state_store\<close>. Snapshot ids, clocks and
  whether a write fails are arguments. A debug file, which nothing reads, is represented by the
  checksum it records. Packing, hashing and the pickle switch are the parameter record
  \<open>snap_codec\<close>. The state data of a strategy is a type parameter.
\<close>

subsection \<open>Data\<close>

datatype save_policy = EVERY_BAR | ON_REQUEST | INTERVAL

record snapshot_metadata =
  sm_snapshot_id :: string
  sm_strategy_id :: string
  sm_artifact_id :: string
  sm_params_hash :: string
  sm_instrument_key :: json
  sm_timeframe :: json
  sm_bar_time :: int
  sm_saved_at :: int
  sm_size_bytes :: nat
  sm_status :: string
  sm_reason :: string
  sm_data_fingerprint :: "string option"
  sm_state_encoding :: string
  sm_checksum :: "string option"

record 'd strategy_state =
  sst_strategy_id :: string
  sst_artifact_id :: string
  sst_params_hash :: string
  sst_instrument_key :: json
  sst_timeframe :: json
  sst_state_data :: 'd
  sst_bar_time :: int
  sst_saved_at :: int

text \<open>The payload of a snapshot file: the state key, the last bar and the runtime state, the optional
  fingerprint, and the checksum that files of an older format carry.\<close>

record 'd snap_payload =
  sp_state :: "'d strategy_state"
  sp_data_fingerprint :: "string option"
  sp_checksum :: "string option"

datatype state_error = InvalidSnapshot | SnapshotNotFound | StateValueError | StateOSError | StateKeyError | StateDecodeError | StatePickleError

text \<open>What unpacking gives: a payload, something that is no mapping, or a mapping without a state key.\<close>

datatype 'd unpacked = Unpacked "'d snap_payload" | NotMapping | NoStateKey | Corrupt

record 'd snap_codec =
  sk_pack :: "'d snap_payload \<Rightarrow> string option"
  sk_pickle :: "'d snap_payload \<Rightarrow> string option"
  sk_unpack :: "string \<Rightarrow> 'd unpacked"
  sk_unpickle :: "string \<Rightarrow> 'd unpacked"
  sk_sha256 :: "string \<Rightarrow> string"
  sk_pickle_enabled :: bool

datatype index_file = NoIndex | Index nat "snapshot_metadata list" | BadIndex nat

record disk =
  dk_files :: "((string \<times> string) \<times> string) list"
  dk_debug :: "((string \<times> string) \<times> string) list"
  dk_index :: index_file
  dk_writes :: nat

record state_store =
  ss_policy :: save_policy
  ss_interval :: int
  ss_max :: nat
  ss_bars :: "(string \<times> int) list"
  ss_signature :: "nat option"
  ss_snapshots :: "(string \<times> snapshot_metadata list) list"

definition disk_init :: disk where
  "disk_init = \<lparr>dk_files = [], dk_debug = [], dk_index = NoIndex, dk_writes = 0\<rparr>"

definition index_signature :: "disk \<Rightarrow> nat option" where
  "index_signature d = (case dk_index d of NoIndex \<Rightarrow> None | Index n ms \<Rightarrow> Some n | BadIndex n \<Rightarrow> Some n)"

text \<open>\<open>_validate_path_component\<close> for a component that starts with \<open>strategy_id=\<close> or \<open>snap_\<close>: such a name
  is neither empty, absolute nor a dot; it is refused if it has a separator or a zero byte.\<close>

definition path_ok :: "string \<Rightarrow> bool" where
  "path_ok part \<longleftrightarrow> CHR ''/'' \<notin> set part \<and> CHR 0x00 \<notin> set part"

definition snapshot_path :: "string \<Rightarrow> string \<Rightarrow> state_error + (string \<times> string)" where
  "snapshot_path sid snap = (if path_ok sid \<and> path_ok snap then Inr (sid, snap) else Inl StateValueError)"

subsection \<open>The metadata index\<close>

definition snaps_of :: "state_store \<Rightarrow> string \<Rightarrow> snapshot_metadata list" where
  "snaps_of s sid = (case map_of (ss_snapshots s) sid of None \<Rightarrow> [] | Some ms \<Rightarrow> ms)"

definition set_snaps :: "string \<Rightarrow> snapshot_metadata list \<Rightarrow> state_store \<Rightarrow> state_store" where
  "set_snaps sid ms s = s\<lparr>ss_snapshots := AList.update sid ms (ss_snapshots s)\<rparr>"

definition file_exists :: "disk \<Rightarrow> string \<Rightarrow> string \<Rightarrow> bool" where
  "file_exists d sid snap \<longleftrightarrow> map_of (dk_files d) (sid, snap) \<noteq> None"

text \<open>The loop over the index entries; an entry with an unusable path ends it with an exception.\<close>

fun read_index :: "disk \<Rightarrow> snapshot_metadata list \<Rightarrow> state_store \<Rightarrow> state_error option \<times> state_store" where
  "read_index d [] s = (None, s)"
| "read_index d (m # ms) s =
     (case snapshot_path (sm_strategy_id m) (sm_snapshot_id m) of
        Inl e \<Rightarrow> (Some e, s)
      | Inr _ \<Rightarrow>
          read_index d ms
            (if file_exists d (sm_strategy_id m) (sm_snapshot_id m)
             then set_snaps (sm_strategy_id m) (snaps_of s (sm_strategy_id m) @ [m]) s else s))"

definition load_metadata_index :: "bool \<Rightarrow> disk \<Rightarrow> state_store \<Rightarrow> state_error option \<times> state_store" where
  "load_metadata_index force d s =
     (case dk_index d of
        NoIndex \<Rightarrow> (None, (if force then s\<lparr>ss_snapshots := []\<rparr> else s)\<lparr>ss_signature := None\<rparr>)
      | BadIndex n \<Rightarrow> (None, s)
      | Index n ms \<Rightarrow>
          (case read_index d ms (s\<lparr>ss_snapshots := []\<rparr>) of
             (Some e, s') \<Rightarrow> (Some e, s')
           | (None, s') \<Rightarrow> (None, s'\<lparr>ss_signature := Some n\<rparr>)))"

definition reload_if_changed :: "disk \<Rightarrow> state_store \<Rightarrow> state_error option \<times> state_store" where
  "reload_if_changed d s = (if index_signature d = ss_signature s then (None, s) else load_metadata_index True d s)"

text \<open>\<open>_persist_metadata_index\<close>; \<open>ok\<close> says whether the file could be written and renamed.\<close>

definition persist_metadata_index :: "bool \<Rightarrow> state_store \<times> disk \<Rightarrow> (state_error + unit) \<times> state_store \<times> disk" where
  "persist_metadata_index ok = (\<lambda>(s, d).
     if ok
     then let n = Suc (dk_writes d)
          in (Inr (), s\<lparr>ss_signature := Some n\<rparr>, d\<lparr>dk_index := Index n (concat (map snd (ss_snapshots s))), dk_writes := n\<rparr>)
     else (Inl StateOSError, s, d))"

definition state_store_init :: "save_policy \<Rightarrow> int \<Rightarrow> int \<Rightarrow> disk \<Rightarrow> state_error option \<times> state_store" where
  "state_store_init policy interval limit d =
     load_metadata_index False d
       \<lparr>ss_policy = policy, ss_interval = interval, ss_max = nat (max 1 limit), ss_bars = [], ss_signature = None,
        ss_snapshots = []\<rparr>"

text \<open>\<open>_locked_metadata_mutation\<close>: under the lock of the directory, on a freshly read index.\<close>

definition locked_mutation ::
  "(state_store \<times> disk \<Rightarrow> (state_error + 'a) \<times> state_store \<times> disk) \<Rightarrow> state_store \<times> disk \<Rightarrow> (state_error + 'a) \<times> state_store \<times> disk"
where
  "locked_mutation f = (\<lambda>(s, d).
     case load_metadata_index True d s of (Some e, s') \<Rightarrow> (Inl e, s', d) | (None, s') \<Rightarrow> f (s', d))"

subsection \<open>Saving\<close>

definition encode_payload :: "'d snap_codec \<Rightarrow> 'd snap_payload \<Rightarrow> state_error + string \<times> string \<times> string" where
  "encode_payload K p =
     (case sk_pack K p of
        Some packed \<Rightarrow> Inr (packed, ''msgpack'', sk_sha256 K packed)
      | None \<Rightarrow>
          if \<not> sk_pickle_enabled K then Inl InvalidSnapshot
          else case sk_pickle K p of
            None \<Rightarrow> Inl StatePickleError | Some pickled \<Rightarrow> Inr (pickled, ''pickle'', sk_sha256 K pickled))"

definition state_payload :: "'d strategy_state \<Rightarrow> string option \<Rightarrow> 'd snap_payload" where
  "state_payload st fp = \<lparr>sp_state = st\<lparr>sst_saved_at := 0\<rparr>, sp_data_fingerprint = fp, sp_checksum = None\<rparr>"

definition snapshot_key :: "snapshot_metadata \<Rightarrow> int \<times> int" where
  "snapshot_key m = (sm_bar_time m, sm_saved_at m)"

text \<open>\<open>sorted(..., reverse=True)\<close>: descending, equal keys in their order.\<close>

definition newest_first_snaps :: "snapshot_metadata list \<Rightarrow> snapshot_metadata list" where
  "newest_first_snaps ms = rev (sort_key snapshot_key (rev ms))"

definition unlink_all :: "string \<Rightarrow> snapshot_metadata list \<Rightarrow> disk \<Rightarrow> disk" where
  "unlink_all sid ms d =
     d\<lparr>dk_files := fold (\<lambda>m. AList.delete (sid, sm_snapshot_id m)) ms (dk_files d),
       dk_debug := fold (\<lambda>m. AList.delete (sid, sm_snapshot_id m)) ms (dk_debug d)\<rparr>"

definition prune_strategy_snapshots :: "string \<Rightarrow> state_store \<times> disk \<Rightarrow> state_store \<times> disk" where
  "prune_strategy_snapshots sid = (\<lambda>(s, d).
     let sorted = newest_first_snaps (snaps_of s sid)
     in (set_snaps sid (rev (take (ss_max s) sorted)) s, unlink_all sid (drop (ss_max s) sorted) d))"

definition supersede :: "snapshot_metadata \<Rightarrow> snapshot_metadata" where
  "supersede m = (if sm_status m = ''active'' then m\<lparr>sm_status := ''superseded''\<rparr> else m)"

definition new_metadata ::
  "string \<Rightarrow> int \<Rightarrow> 'd strategy_state \<Rightarrow> string \<Rightarrow> string option \<Rightarrow> string \<times> string \<times> string \<Rightarrow> snapshot_metadata"
where
  "new_metadata snap now st reason fp = (\<lambda>(packed, encoding, checksum).
     \<lparr>sm_snapshot_id = snap, sm_strategy_id = sst_strategy_id st, sm_artifact_id = sst_artifact_id st,
      sm_params_hash = sst_params_hash st, sm_instrument_key = sst_instrument_key st, sm_timeframe = sst_timeframe st,
      sm_bar_time = sst_bar_time st, sm_saved_at = now, sm_size_bytes = length packed, sm_status = ''active'',
      sm_reason = reason, sm_data_fingerprint = fp, sm_state_encoding = encoding, sm_checksum = Some checksum\<rparr>)"

definition bars_since :: "state_store \<Rightarrow> string \<Rightarrow> int" where
  "bars_since s sid = (case map_of (ss_bars s) sid of None \<Rightarrow> 0 | Some n \<Rightarrow> n)"

text \<open>The locked part of \<open>save_snapshot\<close>: reload, supersede, append, prune, persist.\<close>

definition register_snapshot ::
  "bool \<Rightarrow> snapshot_metadata \<Rightarrow> state_store \<times> disk \<Rightarrow> (state_error + snapshot_metadata) \<times> state_store \<times> disk"
where
  "register_snapshot ok m = locked_mutation (\<lambda>(s1, d).
     let sid = sm_strategy_id m;
         (s2, d2) = prune_strategy_snapshots sid (set_snaps sid (map supersede (snaps_of s1 sid) @ [m]) s1, d);
         s3 = s2\<lparr>ss_bars := AList.update sid 0 (ss_bars s2)\<rparr>
     in case persist_metadata_index ok (s3, d2) of (Inl e, sd) \<Rightarrow> (Inl e, sd) | (Inr _, sd) \<Rightarrow> (Inr m, sd))"

record save_io =
  io_snapshot_id :: string
  io_now :: int
  io_file_ok :: bool
  io_debug_ok :: bool
  io_index_ok :: bool

definition save_snapshot ::
  "'d snap_codec \<Rightarrow> save_io \<Rightarrow> 'd strategy_state \<Rightarrow> string \<Rightarrow> bool \<Rightarrow> string option \<Rightarrow> state_store \<times> disk
   \<Rightarrow> (state_error + snapshot_metadata option) \<times> state_store \<times> disk"
where
  "save_snapshot K io st reason failed_bar fp = (\<lambda>(s, d).
     let sid = sst_strategy_id st in
     if failed_bar then (Inr None, s, d)
     else if ss_policy s = INTERVAL \<and> bars_since s sid < ss_interval s
     then (Inr None, s\<lparr>ss_bars := AList.update sid (bars_since s sid + 1) (ss_bars s)\<rparr>, d)
     else case encode_payload K (state_payload st fp) of
       Inl e \<Rightarrow> (Inl e, s, d)
     | Inr enc \<Rightarrow>
         if \<not> path_ok sid then (Inl StateValueError, s, d)
         else if \<not> io_file_ok io then (Inl StateOSError, s, d)
         else
           let p = (sid, io_snapshot_id io);
               d0 = d\<lparr>dk_files := AList.update p (fst enc) (dk_files d)\<rparr>;
               d1 = d0\<lparr>dk_debug := AList.update p (snd (snd enc)) (dk_debug d)\<rparr>
           in if \<not> io_debug_ok io then (Inl StateOSError, s, d0)
              else case register_snapshot (io_index_ok io) (new_metadata (io_snapshot_id io) (io_now io) st reason fp enc) (s, d1) of
                (Inl e, sd) \<Rightarrow> (Inl e, sd) | (Inr m, sd) \<Rightarrow> (Inr (Some m), sd))"

definition save_runtime_snapshot ::
  "'d snap_codec \<Rightarrow> save_io \<Rightarrow> 'd strategy_state \<Rightarrow> int \<Rightarrow> string \<Rightarrow> bool \<Rightarrow> string option \<Rightarrow> state_store \<times> disk
   \<Rightarrow> (state_error + snapshot_metadata option) \<times> state_store \<times> disk"
where
  "save_runtime_snapshot K io key now reason failed_bar fp = save_snapshot K io (key\<lparr>sst_saved_at := now\<rparr>) reason failed_bar fp"

subsection \<open>Lookup and loading\<close>

record snap_filter =
  sf_artifact_id :: "string option"
  sf_params_hash :: "string option"
  sf_instrument_key :: "json option"
  sf_timeframe :: "json option"
  sf_data_fingerprint :: "string option"
  sf_at_or_before :: "int option"

definition any_snapshot :: snap_filter where
  "any_snapshot = \<lparr>sf_artifact_id = None, sf_params_hash = None, sf_instrument_key = None, sf_timeframe = None,
     sf_data_fingerprint = None, sf_at_or_before = None\<rparr>"

definition none_or :: "'a option \<Rightarrow> ('a \<Rightarrow> bool) \<Rightarrow> bool" where
  "none_or x P = (case x of None \<Rightarrow> True | Some v \<Rightarrow> P v)"

definition compatible :: "snap_filter \<Rightarrow> snapshot_metadata \<Rightarrow> bool" where
  "compatible f m \<longleftrightarrow> sm_status m = ''active''
     \<and> none_or (sf_artifact_id f) (\<lambda>v. sm_artifact_id m = v) \<and> none_or (sf_params_hash f) (\<lambda>v. sm_params_hash m = v)
     \<and> none_or (sf_instrument_key f) (\<lambda>v. sm_instrument_key m = v) \<and> none_or (sf_timeframe f) (\<lambda>v. sm_timeframe m = v)
     \<and> none_or (sf_data_fingerprint f) (\<lambda>v. sm_data_fingerprint m = Some v)
     \<and> none_or (sf_at_or_before f) (\<lambda>v. sm_bar_time m \<le> v)"

definition latest_snapshot_metadata ::
  "disk \<Rightarrow> string \<Rightarrow> snap_filter \<Rightarrow> state_store \<Rightarrow> (state_error + snapshot_metadata option) \<times> state_store"
where
  "latest_snapshot_metadata d sid f s =
     (case reload_if_changed d s of
        (Some e, s') \<Rightarrow> (Inl e, s')
      | (None, s') \<Rightarrow> (Inr (max_key snapshot_key (filter (compatible f) (snaps_of s' sid))), s'))"

definition decode_payload :: "'d snap_codec \<Rightarrow> string \<Rightarrow> string \<Rightarrow> state_error + 'd snap_payload" where
  "decode_payload K packed encoding =
     (if encoding = ''pickle''
      then (if \<not> sk_pickle_enabled K then Inl InvalidSnapshot
            else case sk_unpickle K packed of
              Unpacked p \<Rightarrow> Inr p | NoStateKey \<Rightarrow> Inl StateKeyError | _ \<Rightarrow> Inl StateDecodeError)
      else case sk_unpack K packed of
        Unpacked p \<Rightarrow> Inr p | NotMapping \<Rightarrow> Inl InvalidSnapshot | NoStateKey \<Rightarrow> Inl StateKeyError | Corrupt \<Rightarrow> Inl StateDecodeError)"

definition load_state :: "'d snap_codec \<Rightarrow> disk \<Rightarrow> snapshot_metadata \<Rightarrow> state_error + 'd strategy_state option" where
  "load_state K d m =
     res_bind (snapshot_path (sm_strategy_id m) (sm_snapshot_id m)) (\<lambda>p.
       case map_of (dk_files d) p of
         None \<Rightarrow> Inr None
       | Some packed \<Rightarrow>
           if sm_checksum m \<noteq> None \<and> sm_checksum m \<noteq> Some (sk_sha256 K packed) then Inl InvalidSnapshot
           else res_bind (decode_payload K packed (sm_state_encoding m)) (\<lambda>pl.
             if none_or (sp_checksum pl) (\<lambda>c. c = [] \<or> c = sk_sha256 K packed)
             then Inr (Some ((sp_state pl)\<lparr>sst_saved_at := 0\<rparr>)) else Inl InvalidSnapshot))"

definition load_latest_compatible ::
  "'d snap_codec \<Rightarrow> disk \<Rightarrow> string \<Rightarrow> snap_filter \<Rightarrow> state_store \<Rightarrow> (state_error + 'd strategy_state option) \<times> state_store"
where
  "load_latest_compatible K d sid f s =
     (case latest_snapshot_metadata d sid f s of
        (Inl e, s') \<Rightarrow> (Inl e, s')
      | (Inr None, s') \<Rightarrow> (Inr None, s')
      | (Inr (Some m), s') \<Rightarrow> (load_state K d m, s'))"

definition load_snapshot ::
  "'d snap_codec \<Rightarrow> disk \<Rightarrow> string \<Rightarrow> state_store \<Rightarrow> (state_error + 'd strategy_state option) \<times> state_store"
where
  "load_snapshot K d sid s = load_latest_compatible K d sid any_snapshot s"

definition load_runtime_snapshot ::
  "'d snap_codec \<Rightarrow> disk \<Rightarrow> string \<Rightarrow> snap_filter \<Rightarrow> state_store \<Rightarrow> (state_error + 'd option) \<times> state_store"
where
  "load_runtime_snapshot K d sid f s =
     (case load_latest_compatible K d sid f s of
        (Inl e, s') \<Rightarrow> (Inl e, s') | (Inr r, s') \<Rightarrow> (Inr (map_option sst_state_data r), s'))"

definition list_snapshots :: "disk \<Rightarrow> string \<Rightarrow> state_store \<Rightarrow> (state_error + snapshot_metadata list) \<times> state_store" where
  "list_snapshots d sid s =
     (case reload_if_changed d s of
        (Some e, s') \<Rightarrow> (Inl e, s')
      | (None, s') \<Rightarrow> (Inr (rev (sort_key sm_saved_at (rev (snaps_of s' sid)))), s'))"

subsection \<open>Deletion, invalidation and policy\<close>

text \<open>The first strategy, in the order of the registry, that has the snapshot.\<close>

definition owner_of :: "string \<Rightarrow> state_store \<Rightarrow> string option" where
  "owner_of snap s = map_option fst (find (\<lambda>(sid, ms). list_ex (\<lambda>m. sm_snapshot_id m = snap) ms) (ss_snapshots s))"

fun remove_snapshot :: "string \<Rightarrow> snapshot_metadata list \<Rightarrow> snapshot_metadata list" where
  "remove_snapshot snap [] = []"
| "remove_snapshot snap (m # ms) = (if sm_snapshot_id m = snap then ms else m # remove_snapshot snap ms)"

definition delete_snapshot :: "bool \<Rightarrow> string \<Rightarrow> state_store \<times> disk \<Rightarrow> (state_error + unit) \<times> state_store \<times> disk" where
  "delete_snapshot ok snap = locked_mutation (\<lambda>(s, d).
     case owner_of snap s of
       None \<Rightarrow> (Inl SnapshotNotFound, s, d)
     | Some sid \<Rightarrow>
         persist_metadata_index ok
           (set_snaps sid (remove_snapshot snap (snaps_of s sid)) s,
            d\<lparr>dk_files := AList.delete (sid, snap) (dk_files d), dk_debug := AList.delete (sid, snap) (dk_debug d)\<rparr>))"

definition mark_invalid :: "bool \<Rightarrow> string \<Rightarrow> int option \<Rightarrow> state_store \<times> disk \<Rightarrow> (state_error + unit) \<times> state_store \<times> disk" where
  "mark_invalid ok sid since = locked_mutation (\<lambda>(s, d).
     persist_metadata_index ok
       (if map_of (ss_snapshots s) sid = None then s
        else set_snaps sid (map (\<lambda>m. if none_or since (\<lambda>t. t \<le> sm_bar_time m) then m\<lparr>sm_status := ''invalid''\<rparr> else m) (snaps_of s sid)) s, d))"

definition get_save_policy :: "state_store \<Rightarrow> save_policy \<times> int" where
  "get_save_policy s = (ss_policy s, ss_interval s)"

definition set_save_policy :: "save_policy \<Rightarrow> int \<Rightarrow> state_store \<Rightarrow> state_store" where
  "set_save_policy p n s = s\<lparr>ss_policy := p, ss_interval := max 1 n\<rparr>"

definition should_save :: "save_policy \<Rightarrow> int \<Rightarrow> int \<Rightarrow> bool \<Rightarrow> bool" where
  "should_save p interval since failed_bar =
     (if failed_bar then False else case p of EVERY_BAR \<Rightarrow> True | INTERVAL \<Rightarrow> since \<ge> interval | ON_REQUEST \<Rightarrow> False)"

end
