(* ===== verification/StateStoreProps.thy ===== *)
theory StateStoreProps
  imports StateStore "HOL-Library.Multiset"
begin

text \<open>
  Correctness of the snapshot store: what the index and the files promise while several processes save,
  delete, invalidate and load (\<open>disk_ok\<close>, \<open>mem_ok\<close>, \<open>world_ok\<close>, kept by every operation, also when a write
  fails), which snapshots pruning keeps, that loading is safe, and what a load after a save returns.
\<close>


subsection \<open>Pruning keeps the newest\<close>

lemma insort_key_split:
  "insort_key f x ys = takeWhile (\<lambda>y. f y < f x) ys @ x # dropWhile (\<lambda>y. f y < f x) ys"
  by (induction ys) auto

lemma dropWhile_sorted:
  assumes "sorted (map f ys)"
  shows "length (dropWhile (\<lambda>y. f y < x) ys) = length (filter (\<lambda>y. x \<le> f y) ys)"
  using assms
proof (induction ys)
  case (Cons y ys)
  show ?case
  proof (cases "f y < x")
    case False
    with Cons.prems have "\<forall>z \<in> set (y # ys). x \<le> f z" by auto
    then have "filter (\<lambda>y. x \<le> f y) (y # ys) = y # ys" by (intro filter_True) blast
    with False show ?thesis by simp
  qed (use Cons in auto)
qed simp

text \<open>How many of the stored snapshots stand before a new one in the pruning order.\<close>

definition ahead :: "snapshot_metadata \<Rightarrow> snapshot_metadata list \<Rightarrow> nat" where
  "ahead m ms = length (filter (\<lambda>x. snapshot_key m \<le> snapshot_key x) ms)"

lemma newest_first_snoc:
  obtains pre post where "newest_first_snaps (ms @ [m]) = pre @ m # post" "length pre = ahead m ms" "set pre \<union> set post = set ms"
proof -
  let ?ys = "sort_key snapshot_key (rev ms)" and ?less = "\<lambda>y. snapshot_key y < snapshot_key m"
  have "newest_first_snaps (ms @ [m]) = rev (dropWhile ?less ?ys) @ m # rev (takeWhile ?less ?ys)"
    by (simp add: newest_first_snaps_def insort_key_split)
  moreover have "length (rev (dropWhile ?less ?ys)) = ahead m ms"
  proof -
    have "mset (filter (\<lambda>x. snapshot_key m \<le> snapshot_key x) ?ys) = mset (filter (\<lambda>x. snapshot_key m \<le> snapshot_key x) ms)"
      by (simp add: mset_filter)
    then have "length (filter (\<lambda>x. snapshot_key m \<le> snapshot_key x) ?ys) = ahead m ms"
      unfolding ahead_def by (metis size_mset)
    then show ?thesis by (simp add: dropWhile_sorted)
  qed
  moreover have "set (rev (dropWhile ?less ?ys)) \<union> set (rev (takeWhile ?less ?ys)) = set ms"
  proof -
    have "set (takeWhile ?less ?ys @ dropWhile ?less ?ys) = set ms" by (simp only: takeWhile_dropWhile_id) simp
    then show ?thesis unfolding set_rev set_append by blast
  qed
  ultimately show thesis by (rule that)
qed

lemma kept_iff:
  assumes "m \<notin> set ms"
  shows "m \<in> set (take n (newest_first_snaps (ms @ [m]))) \<longleftrightarrow> ahead m ms < n"
proof -
  obtain pre post where *: "newest_first_snaps (ms @ [m]) = pre @ m # post" "length pre = ahead m ms" "set pre \<union> set post = set ms"
    by (rule newest_first_snoc)
  show ?thesis
  proof (cases "ahead m ms < n")
    case True
    then show ?thesis by (simp add: * take_Cons')
  next
    case False
    have "set (take n pre) \<subseteq> set pre" by (rule set_take_subset)
    with False assms * show ?thesis by auto
  qed
qed

lemma set_newest_first: "set (newest_first_snaps ms) = set ms"
  by (simp add: newest_first_snaps_def)

lemma mset_newest_first: "mset (newest_first_snaps ms) = mset ms"
  by (simp add: newest_first_snaps_def)

subsection \<open>Reading the index\<close>

lemma set_snaps_simps [simp]:
  "snaps_of (set_snaps sid ms s) sid' = (if sid' = sid then ms else snaps_of s sid')"
  "ss_policy (set_snaps sid ms s) = ss_policy s" "ss_max (set_snaps sid ms s) = ss_max s"
  "ss_bars (set_snaps sid ms s) = ss_bars s" "ss_signature (set_snaps sid ms s) = ss_signature s"
  "ss_interval (set_snaps sid ms s) = ss_interval s"
  by (simp_all add: set_snaps_def snaps_of_def map_of_update)

text \<open>A registry whose entries stand under their strategy.\<close>

definition keyed :: "state_store \<Rightarrow> bool" where
  "keyed s \<longleftrightarrow> distinct (map fst (ss_snapshots s)) \<and> (\<forall>(sid, ms) \<in> set (ss_snapshots s). \<forall>m \<in> set ms. sm_strategy_id m = sid)"

lemma keyed_set_snaps:
  assumes "keyed s" and "\<And>m. m \<in> set ms \<Longrightarrow> sm_strategy_id m = sid"
  shows "keyed (set_snaps sid ms s)"
  using assms unfolding keyed_def set_snaps_def
  by (auto simp: distinct_update set_update_distinct split: prod.splits)

lemma snaps_of_mem: "keyed s \<Longrightarrow> m \<in> set (snaps_of s sid) \<Longrightarrow> sm_strategy_id m = sid"
  by (auto simp: keyed_def snaps_of_def split: option.splits dest!: map_of_SomeD)

definition indexed :: "state_store \<Rightarrow> snapshot_metadata list" where
  "indexed s = concat (map snd (ss_snapshots s))"

lemma filter_concat_keyed:
  assumes "distinct (map fst kvs)" and "\<forall>(sid, ms) \<in> set kvs. \<forall>m \<in> set ms. sm_strategy_id m = sid"
  shows "filter (\<lambda>m. sm_strategy_id m = sid) (concat (map snd kvs)) = (case map_of kvs sid of None \<Rightarrow> [] | Some ms \<Rightarrow> ms)"
  using assms
proof (induction kvs)
  case (Cons kv kvs)
  obtain k ms where kv: "kv = (k, ms)" by (cases kv)
  have IH: "filter (\<lambda>m. sm_strategy_id m = sid) (concat (map snd kvs)) = (case map_of kvs sid of None \<Rightarrow> [] | Some ms \<Rightarrow> ms)"
    using Cons by auto
  have mine: "filter (\<lambda>m. sm_strategy_id m = sid) ms = (if k = sid then ms else [])"
    using Cons.prems(2) by (auto simp: kv filter_empty_conv intro!: filter_True)
  have "map_of kvs sid = None" if "k = sid"
    using Cons.prems(1) that by (auto simp: kv map_of_eq_None_iff)
  with IH mine show ?case by (auto simp: kv)
qed simp

lemma snaps_of_indexed: "keyed s \<Longrightarrow> filter (\<lambda>m. sm_strategy_id m = sid) (indexed s) = snaps_of s sid"
  by (simp add: filter_concat_keyed keyed_def indexed_def snaps_of_def)

lemma indexed_mem: "keyed s \<Longrightarrow> m \<in> set (indexed s) \<longleftrightarrow> m \<in> set (snaps_of s (sm_strategy_id m))"
  by (auto simp flip: snaps_of_indexed)

definition usable :: "snapshot_metadata \<Rightarrow> bool" where
  "usable m \<longleftrightarrow> path_ok (sm_strategy_id m) \<and> path_ok (sm_snapshot_id m)"

lemma read_index_ok:
  assumes "\<forall>m \<in> set ms. usable m" and "keyed s"
  shows "\<exists>s'. read_index d ms s = (None, s') \<and> keyed s' \<and> ss_policy s' = ss_policy s \<and> ss_max s' = ss_max s
    \<and> ss_interval s' = ss_interval s \<and> ss_bars s' = ss_bars s
    \<and> (\<forall>sid. snaps_of s' sid = snaps_of s sid @ filter (\<lambda>m. sm_strategy_id m = sid \<and> file_exists d sid (sm_snapshot_id m)) ms)"
  using assms
proof (induction ms arbitrary: s)
  case (Cons m ms)
  let ?sid = "sm_strategy_id m"
  let ?s = "if file_exists d ?sid (sm_snapshot_id m) then set_snaps ?sid (snaps_of s ?sid @ [m]) s else s"
  have k: "keyed ?s" using Cons.prems(2) by (auto intro!: keyed_set_snaps dest: snaps_of_mem)
  have "snapshot_path ?sid (sm_snapshot_id m) = Inr (?sid, sm_snapshot_id m)"
    using Cons.prems(1) by (simp add: snapshot_path_def usable_def)
  then have "read_index d (m # ms) s = read_index d ms ?s" by simp
  moreover from Cons.IH [OF _ k] Cons.prems(1) obtain s' where "read_index d ms ?s = (None, s')" "keyed s'"
      "ss_policy s' = ss_policy ?s" "ss_max s' = ss_max ?s" "ss_interval s' = ss_interval ?s" "ss_bars s' = ss_bars ?s"
      "\<forall>sid. snaps_of s' sid = snaps_of ?s sid @ filter (\<lambda>m. sm_strategy_id m = sid \<and> file_exists d sid (sm_snapshot_id m)) ms"
    by auto
  ultimately show ?case by (auto split: if_splits)
qed (simp add: snaps_of_def)

subsection \<open>Invariants\<close>

text \<open>A file that holds the packed payload of the state a metadata record describes.\<close>

definition describes :: "snapshot_metadata \<Rightarrow> 'd strategy_state \<Rightarrow> bool" where
  "describes m st \<longleftrightarrow> sst_strategy_id st = sm_strategy_id m \<and> sst_artifact_id st = sm_artifact_id m
     \<and> sst_params_hash st = sm_params_hash m \<and> sst_instrument_key st = sm_instrument_key m
     \<and> sst_timeframe st = sm_timeframe m \<and> sst_bar_time st = sm_bar_time m"

definition recorded :: "'d snap_codec \<Rightarrow> string \<Rightarrow> snapshot_metadata \<Rightarrow> bool" where
  "recorded K f m \<longleftrightarrow> (\<exists>st fp checksum. encode_payload K (state_payload st fp) = Inr (f, sm_state_encoding m, checksum)
     \<and> sm_checksum m = Some checksum \<and> describes m st)"

definition snap_good :: "'d snap_codec \<Rightarrow> disk \<Rightarrow> snapshot_metadata \<Rightarrow> bool" where
  "snap_good K d m \<longleftrightarrow> usable m
     \<and> (\<forall>f. map_of (dk_files d) (sm_strategy_id m, sm_snapshot_id m) = Some f \<longrightarrow> recorded K f m)"

abbreviation actives :: "snapshot_metadata list \<Rightarrow> snapshot_metadata list" where
  "actives ms \<equiv> filter (\<lambda>m. sm_status m = ''active'') ms"

definition index_of :: "disk \<Rightarrow> snapshot_metadata list" where
  "index_of d = (case dk_index d of Index n ms \<Rightarrow> ms | _ \<Rightarrow> [])"

definition of_strategy :: "string \<Rightarrow> snapshot_metadata list \<Rightarrow> snapshot_metadata list" where
  "of_strategy sid ms = filter (\<lambda>m. sm_strategy_id m = sid) ms"

definition disk_ok :: "'d snap_codec \<Rightarrow> disk \<Rightarrow> bool" where
  "disk_ok K d \<longleftrightarrow> (\<forall>n. dk_index d \<noteq> BadIndex n) \<and> (\<forall>n. index_signature d = Some n \<longrightarrow> n \<le> dk_writes d)
     \<and> (\<forall>m \<in> set (index_of d). snap_good K d m) \<and> (\<forall>sid. length (actives (of_strategy sid (index_of d))) \<le> 1)"

definition mem_ok :: "'d snap_codec \<Rightarrow> disk \<Rightarrow> state_store \<Rightarrow> bool" where
  "mem_ok K d s \<longleftrightarrow> keyed s \<and> (\<forall>n. ss_signature s = Some n \<longrightarrow> n \<le> dk_writes d)
     \<and> (\<forall>sid. (\<forall>m \<in> set (snaps_of s sid). snap_good K d m) \<and> length (actives (snaps_of s sid)) \<le> 1)"

lemma load_index_ok:
  assumes "disk_ok K d"
  obtains s' where "load_metadata_index True d s = (None, s')" "keyed s'" "ss_policy s' = ss_policy s" "ss_max s' = ss_max s"
    "ss_interval s' = ss_interval s" "ss_bars s' = ss_bars s" "ss_signature s' = index_signature d"
    "\<And>sid. snaps_of s' sid = filter (\<lambda>m. file_exists d sid (sm_snapshot_id m)) (of_strategy sid (index_of d))"
proof (cases "dk_index d")
  case NoIndex
  then show thesis
    by (intro that [of "s\<lparr>ss_snapshots := [], ss_signature := None\<rparr>"])
      (auto simp: load_metadata_index_def keyed_def index_signature_def snaps_of_def of_strategy_def index_of_def)
next
  case (Index n ms)
  have "\<forall>m \<in> set ms. usable m" using assms by (auto simp: disk_ok_def index_of_def Index snap_good_def)
  moreover have "keyed (s\<lparr>ss_snapshots := []\<rparr>)" by (simp add: keyed_def)
  ultimately obtain s' where s': "read_index d ms (s\<lparr>ss_snapshots := []\<rparr>) = (None, s')" "keyed s'" "ss_policy s' = ss_policy s"
      "ss_max s' = ss_max s" "ss_interval s' = ss_interval s" "ss_bars s' = ss_bars s"
      "\<forall>sid. snaps_of s' sid = filter (\<lambda>m. sm_strategy_id m = sid \<and> file_exists d sid (sm_snapshot_id m)) ms"
    using read_index_ok [of ms "s\<lparr>ss_snapshots := []\<rparr>" d] by (auto simp: snaps_of_def)
  have "snaps_of (s'\<lparr>ss_signature := Some n\<rparr>) sid = snaps_of s' sid" for sid by (simp add: snaps_of_def)
  with s' show thesis
    by (intro that [of "s'\<lparr>ss_signature := Some n\<rparr>"])
      (auto simp: load_metadata_index_def Index index_signature_def of_strategy_def index_of_def keyed_def conj_commute)
next
  case (BadIndex n)
  with assms show thesis by (simp add: disk_ok_def)
qed

lemma load_mem_ok:
  assumes "disk_ok K d" and "load_metadata_index True d s = (e, s')"
  shows "e = None" "mem_ok K d s'" "ss_max s' = ss_max s"
proof -
  obtain s1 where s1: "load_metadata_index True d s = (None, s1)" "keyed s1" "ss_max s1 = ss_max s" "ss_signature s1 = index_signature d"
      "\<And>sid. snaps_of s1 sid = filter (\<lambda>m. file_exists d sid (sm_snapshot_id m)) (of_strategy sid (index_of d))"
    by (rule load_index_ok [OF assms(1), of s]) blast
  have "length (actives (filter P ms)) \<le> length (actives ms)" for P ms
    by (induction ms) auto
  then have "length (actives (snaps_of s1 sid)) \<le> 1" for sid
    using assms(1) unfolding s1(5) disk_ok_def by (meson le_trans)
  with s1 assms show "e = None" "mem_ok K d s'" "ss_max s' = ss_max s"
    by (auto simp: mem_ok_def disk_ok_def of_strategy_def)
qed

lemma mem_ok_set_snaps:
  assumes "mem_ok K d s" and "\<And>m. m \<in> set ms \<Longrightarrow> sm_strategy_id m = sid \<and> snap_good K d m" and "length (actives ms) \<le> 1"
  shows "mem_ok K d (set_snaps sid ms s)"
  using assms by (auto simp: mem_ok_def keyed_set_snaps)

text \<open>Changes of the directory that leave every record with another id than the new one intact.\<close>

definition files_keep :: "string set \<Rightarrow> disk \<Rightarrow> disk \<Rightarrow> bool" where
  "files_keep X d d' \<longleftrightarrow> dk_index d' = dk_index d \<and> dk_writes d' = dk_writes d
     \<and> (\<forall>k f. map_of (dk_files d') k = Some f \<longrightarrow> map_of (dk_files d) k = Some f \<or> snd k \<in> X)"

lemma good_keep: "files_keep X d d' \<Longrightarrow> sm_snapshot_id m \<notin> X \<Longrightarrow> snap_good K d m \<Longrightarrow> snap_good K d' m"
  by (auto simp: files_keep_def snap_good_def)

definition unused_by :: "string set \<Rightarrow> state_store \<Rightarrow> bool" where
  "unused_by X s \<longleftrightarrow> (\<forall>sid. \<forall>m \<in> set (snaps_of s sid). sm_snapshot_id m \<notin> X)"

lemma unused_by_empty [simp]: "unused_by {} s"
  by (simp add: unused_by_def)

lemma mem_keep:
  assumes "files_keep X d d'" and "unused_by X s" and "mem_ok K d s"
  shows "mem_ok K d' s"
proof -
  have "snap_good K d' m" if "m \<in> set (snaps_of s sid)" for m sid
    using that assms good_keep [OF assms(1)] unfolding unused_by_def mem_ok_def by blast
  with assms show ?thesis unfolding mem_ok_def files_keep_def by simp
qed

lemma disk_keep:
  assumes "files_keep X d d'" and "\<forall>m \<in> set (index_of d). sm_snapshot_id m \<notin> X" and "disk_ok K d"
  shows "disk_ok K d'"
proof -
  have "snap_good K d' m" if "m \<in> set (index_of d)" for m
    using that assms good_keep [OF assms(1)] unfolding disk_ok_def by blast
  moreover have "index_of d' = index_of d" "index_signature d' = index_signature d"
    using assms(1) by (simp_all add: files_keep_def index_of_def index_signature_def)
  ultimately show ?thesis using assms unfolding disk_ok_def files_keep_def by simp
qed

lemma persist_ok:
  assumes "persist_metadata_index ok (s, d) = (r, s', d')" and "mem_ok K d s" and "disk_ok K d"
  shows "mem_ok K d' s'" "disk_ok K d'" "dk_files d' = dk_files d" "dk_writes d \<le> dk_writes d'" "snaps_of s' sid = snaps_of s sid"
proof -
  let ?n = "Suc (dk_writes d)"
  let ?d = "d\<lparr>dk_index := Index ?n (indexed s), dk_writes := ?n\<rparr>" and ?s = "s\<lparr>ss_signature := Some ?n\<rparr>"
  have k: "keyed s" using assms(2) by (simp add: mem_ok_def)
  have good: "snap_good K ?d m = snap_good K d m" for m by (simp add: snap_good_def)
  have same: "snaps_of ?s sid = snaps_of s sid" for sid by (simp add: snaps_of_def)
  have "mem_ok K ?d ?s" using assms(2) by (auto simp: mem_ok_def good same keyed_def)
  moreover have "disk_ok K ?d"
    unfolding disk_ok_def using assms(2)
    by (auto simp: good index_signature_def index_of_def of_strategy_def snaps_of_indexed [OF k] mem_ok_def indexed_mem [OF k])
  ultimately show "mem_ok K d' s'" "disk_ok K d'" "dk_files d' = dk_files d" "dk_writes d \<le> dk_writes d'" "snaps_of s' sid = snaps_of s sid"
    using assms same by (auto simp: persist_metadata_index_def indexed_def Let_def split: if_splits)
qed

lemma mem_ok_writes:
  "mem_ok K d s \<Longrightarrow> dk_files d' = dk_files d \<Longrightarrow> dk_writes d \<le> dk_writes d' \<Longrightarrow> mem_ok K d' s"
  unfolding mem_ok_def snap_good_def by (auto intro: le_trans)

subsection \<open>Saving\<close>

lemma supersede_simps [simp]:
  "sm_strategy_id (supersede m) = sm_strategy_id m" "sm_snapshot_id (supersede m) = sm_snapshot_id m"
  "snap_good K d (supersede m) = snap_good K d m" "snapshot_key (supersede m) = snapshot_key m"
  "sm_status (supersede m) \<noteq> ''active''"
  by (simp_all add: supersede_def snap_good_def usable_def recorded_def describes_def snapshot_key_def)

lemma actives_supersede [simp]: "actives (map supersede ms) = []"
  by (simp add: filter_empty_conv)

lemma actives_take_newest: "length (actives (rev (take n (newest_first_snaps ms)))) \<le> length (actives ms)"
proof -
  have "mset (actives (newest_first_snaps ms)) = mset (actives ms)" by (simp add: mset_newest_first)
  then have "length (actives (newest_first_snaps ms)) = length (actives ms)" by (metis size_mset)
  moreover have "actives (newest_first_snaps ms) = actives (take n (newest_first_snaps ms)) @ actives (drop n (newest_first_snaps ms))"
    by (metis append_take_drop_id filter_append)
  ultimately show ?thesis by (simp flip: rev_filter)
qed

lemma fold_delete_None: "map_of (fold (\<lambda>m. AList.delete (g m)) ms kvs) k = (if k \<in> g ` set ms then None else map_of kvs k)"
  by (induction ms arbitrary: kvs) (auto simp: map_of_delete)

lemma unlink_files: "map_of (dk_files (unlink_all sid ms d)) k = (if k \<in> (\<lambda>m. (sid, sm_snapshot_id m)) ` set ms then None else map_of (dk_files d) k)"
  by (simp add: unlink_all_def fold_delete_None)

lemma unlink_keep: "files_keep {} d (unlink_all sid ms d)"
  by (auto simp: files_keep_def unlink_files) (simp_all add: unlink_all_def)

lemma bars_irrelevant [simp]:
  "snaps_of (s\<lparr>ss_bars := b\<rparr>) sid = snaps_of s sid" "mem_ok K d (s\<lparr>ss_bars := b\<rparr>) = mem_ok K d s"
  by (simp_all add: snaps_of_def mem_ok_def keyed_def)

lemma register_ok:
  assumes ok: "disk_ok K d" and m: "snap_good K d m" "sm_status m = ''active''"
    and r: "register_snapshot io m (s, d) = (r, s', d')"
  obtains s1 where "load_metadata_index True d s = (None, s1)" "mem_ok K d' s'" "disk_ok K d'"
    "\<And>t. mem_ok K d t \<Longrightarrow> mem_ok K d' t"
    "snaps_of s' (sm_strategy_id m) = rev (take (ss_max s) (newest_first_snaps (map supersede (snaps_of s1 (sm_strategy_id m)) @ [m])))"
    "\<And>k. map_of (dk_files d') k = (if k \<in> (\<lambda>m'. (sm_strategy_id m, sm_snapshot_id m')) `
        set (drop (ss_max s) (newest_first_snaps (map supersede (snaps_of s1 (sm_strategy_id m)) @ [m]))) then None else map_of (dk_files d) k)"
    "r = Inr m \<and> dk_index d' = Index (Suc (dk_writes d)) (indexed s') \<and> ss_signature s' = Some (Suc (dk_writes d)) \<or> r = Inl StateOSError"
proof -
  let ?sid = "sm_strategy_id m"
  obtain e s1 where load: "load_metadata_index True d s = (e, s1)" by (cases "load_metadata_index True d s") blast
  from load_mem_ok [OF ok load] have e: "e = None" and s1: "mem_ok K d s1" "ss_max s1 = ss_max s" by auto
  define all where "all = newest_first_snaps (map supersede (snaps_of s1 ?sid) @ [m])"
  define s2 where "s2 = set_snaps ?sid (rev (take (ss_max s) all)) (set_snaps ?sid (map supersede (snaps_of s1 ?sid) @ [m]) s1)"
  define s3 where "s3 = s2\<lparr>ss_bars := AList.update ?sid 0 (ss_bars s2)\<rparr>"
  define d2 where "d2 = unlink_all ?sid (drop (ss_max s) all) d"
  have keep: "files_keep {} d d2" unfolding d2_def by (rule unlink_keep)
  have run: "register_snapshot io m (s, d) =
      (case persist_metadata_index io (s3, d2) of (Inl e, sd) \<Rightarrow> (Inl e, sd) | (Inr _, sd) \<Rightarrow> (Inr m, sd))"
    by (simp add: register_snapshot_def locked_mutation_def load e prune_strategy_snapshots_def Let_def s3_def s2_def d2_def all_def s1(2))
  obtain q s4 d4 where q: "persist_metadata_index io (s3, d2) = (q, s4, d4)" by (metis prod_cases3)
  with run r have eq: "s4 = s'" "d4 = d'" and res: "r = (case q of Inl e \<Rightarrow> Inl e | Inr _ \<Rightarrow> Inr m)" by (auto split: sum.splits)
  have k: "keyed s1" using s1(1) by (simp add: mem_ok_def)
  have listed: "sm_strategy_id x = ?sid \<and> snap_good K d x" if "x \<in> set (map supersede (snaps_of s1 ?sid) @ [m])" for x
    using that m(1) s1(1) snaps_of_mem [OF k] by (auto simp: mem_ok_def)
  have once: "length (actives (map supersede (snaps_of s1 ?sid) @ [m])) = 1" using m(2) by (simp only: filter_append actives_supersede) simp
  have "mem_ok K d s2" unfolding s2_def
  proof (intro mem_ok_set_snaps s1(1))
    fix x assume "x \<in> set (rev (take (ss_max s) all))"
    then have "x \<in> set all" by (auto dest: in_set_takeD)
    then show "sm_strategy_id x = ?sid \<and> snap_good K d x" using listed unfolding all_def set_newest_first by blast
  qed (use listed once actives_take_newest [of "ss_max s" "map supersede (snaps_of s1 ?sid) @ [m]"] in \<open>simp_all only: all_def\<close>)
  then have "mem_ok K d2 s3" using mem_keep [OF keep unused_by_empty] by (simp add: s3_def)
  note p = persist_ok [OF q this disk_keep [OF keep _ ok], simplified eq]
  have files: "map_of (dk_files d') x = (if x \<in> (\<lambda>m'. (?sid, sm_snapshot_id m')) ` set (drop (ss_max s) all) then None else map_of (dk_files d) x)" for x
    using p(3) by (simp add: d2_def unlink_files)
  have others: "mem_ok K d' t" if "mem_ok K d t" for t
    using mem_ok_writes [OF mem_keep [OF keep unused_by_empty that]] p(3,4) by simp
  have "dk_writes d2 = dk_writes d" by (simp add: d2_def unlink_all_def)
  then have "r = Inr m \<and> dk_index d' = Index (Suc (dk_writes d)) (indexed s') \<and> ss_signature s' = Some (Suc (dk_writes d)) \<or> r = Inl StateOSError"
    using q res unfolding eq by (auto simp: persist_metadata_index_def Let_def indexed_def split: if_splits)
  moreover have "snaps_of s' ?sid = rev (take (ss_max s) all)"
    using p(5) [of ?sid] by (simp add: s3_def s2_def)
  ultimately show thesis
    using that [OF load [unfolded e]] p(1,2) others files unfolding all_def by simp
qed

lemma new_metadata_simps [simp]:
  "sm_strategy_id (new_metadata snap now st reason fp enc) = sst_strategy_id st"
  "sm_snapshot_id (new_metadata snap now st reason fp enc) = snap"
  "sm_status (new_metadata snap now st reason fp enc) = ''active''"
  "sm_state_encoding (new_metadata snap now st reason fp enc) = fst (snd enc)"
  "sm_checksum (new_metadata snap now st reason fp enc) = Some (snd (snd enc))"
  "describes (new_metadata snap now st reason fp enc) st"
  by (cases enc; simp add: new_metadata_def describes_def)+

text \<open>An id that was never used: what \<open>uuid4\<close> gives.\<close>

definition new_id :: "string \<Rightarrow> disk \<Rightarrow> bool" where
  "new_id snap d \<longleftrightarrow> path_ok snap \<and> (\<forall>m \<in> set (index_of d). sm_snapshot_id m \<noteq> snap) \<and> (\<forall>sid. map_of (dk_files d) (sid, snap) = None)"

definition with_file :: "string \<Rightarrow> string \<Rightarrow> string \<times> string \<times> string \<Rightarrow> disk \<Rightarrow> disk" where
  "with_file sid snap enc d =
     d\<lparr>dk_files := AList.update (sid, snap) (fst enc) (dk_files d), dk_debug := AList.update (sid, snap) (snd (snd enc)) (dk_debug d)\<rparr>"

lemma with_file_keep: "files_keep {snap} d (with_file sid snap enc d)"
  by (auto simp: files_keep_def with_file_def map_of_update split: if_splits)

lemma with_file_good:
  assumes "encode_payload K (state_payload st fp) = Inr enc" and "path_ok (sst_strategy_id st)" and "path_ok snap"
  shows "snap_good K (with_file (sst_strategy_id st) snap enc d) (new_metadata snap now st reason fp enc)"
proof -
  have "recorded K (fst enc) (new_metadata snap now st reason fp enc)"
    unfolding recorded_def using assms(1) new_metadata_simps by (metis prod.collapse)
  with assms show ?thesis by (simp add: snap_good_def usable_def with_file_def map_of_update)
qed

text \<open>The cases of a call: nothing is stored, only files no index entry refers to are written, or the
  snapshot is registered.\<close>

lemma save_cases:
  assumes "save_snapshot K io st reason failed fp (s, d) = (r, s', d')"
  obtains (unsaved) b where "s' = s\<lparr>ss_bars := b\<rparr>" "d' = d" "\<forall>m. r \<noteq> Inr (Some m)"
    | (debug) enc where "s' = s" "d' = (with_file (sst_strategy_id st) (io_snapshot_id io) enc d)\<lparr>dk_debug := dk_debug d\<rparr>" "r = Inl StateOSError"
    | (registered) enc q where "encode_payload K (state_payload st fp) = Inr enc" "path_ok (sst_strategy_id st)"
      "register_snapshot (io_index_ok io) (new_metadata (io_snapshot_id io) (io_now io) st reason fp enc)
         (s, with_file (sst_strategy_id st) (io_snapshot_id io) enc d) = (q, s', d')" "r = map_sum id Some q"
proof (cases "failed \<or> ss_policy s = INTERVAL \<and> bars_since s (sst_strategy_id st) < ss_interval s")
  case True
  with assms show thesis
    by (intro unsaved [of "if failed then ss_bars s else AList.update (sst_strategy_id st) (bars_since s (sst_strategy_id st) + 1) (ss_bars s)"])
      (auto simp: save_snapshot_def Let_def split: if_splits)
next
  case False
  then have path: "save_snapshot K io st reason failed fp (s, d) =
      (case encode_payload K (state_payload st fp) of Inl e \<Rightarrow> (Inl e, s, d)
       | Inr enc \<Rightarrow>
         if \<not> path_ok (sst_strategy_id st) then (Inl StateValueError, s, d)
         else if \<not> io_file_ok io then (Inl StateOSError, s, d)
         else if \<not> io_debug_ok io
         then (Inl StateOSError, s, (with_file (sst_strategy_id st) (io_snapshot_id io) enc d)\<lparr>dk_debug := dk_debug d\<rparr>)
         else case register_snapshot (io_index_ok io) (new_metadata (io_snapshot_id io) (io_now io) st reason fp enc)
              (s, with_file (sst_strategy_id st) (io_snapshot_id io) enc d) of
            (Inl e, sd) \<Rightarrow> (Inl e, sd) | (Inr m, sd) \<Rightarrow> (Inr (Some m), sd))"
    by (auto simp: save_snapshot_def Let_def with_file_def split: sum.splits)
  have same: "s = s\<lparr>ss_bars := ss_bars s\<rparr>" by simp
  show thesis
  proof (cases "encode_payload K (state_payload st fp)")
    case (Inl e)
    with path assms show thesis by (intro unsaved [OF _ _ _, of "ss_bars s"]) auto
  next
    case (Inr enc)
    consider "\<not> path_ok (sst_strategy_id st) \<or> \<not> io_file_ok io" | "path_ok (sst_strategy_id st)" "io_file_ok io" "\<not> io_debug_ok io"
      | "path_ok (sst_strategy_id st)" "io_file_ok io" "io_debug_ok io" by blast
    then show thesis
    proof cases
      case 1
      with path assms Inr show thesis by (intro unsaved [of "ss_bars s"]) (auto split: if_splits)
    next
      case 2
      with path assms Inr show thesis by (intro debug [of enc]) auto
    next
      case 3
      obtain q sd where q: "register_snapshot (io_index_ok io) (new_metadata (io_snapshot_id io) (io_now io) st reason fp enc)
              (s, with_file (sst_strategy_id st) (io_snapshot_id io) enc d) = (q, sd)" by (rule prod.exhaust)
      from 3 path assms Inr q show thesis by (intro registered [OF Inr, of q]) (auto split: sum.splits)
    qed
  qed
qed

lemma mem_ok_debug [simp]: "mem_ok K (d\<lparr>dk_debug := x\<rparr>) t = mem_ok K d t" "disk_ok K (d\<lparr>dk_debug := x\<rparr>) = disk_ok K d"
  by (simp_all add: mem_ok_def disk_ok_def snap_good_def index_of_def index_signature_def)

lemma with_file_ok:
  assumes "new_id snap d" and "disk_ok K d"
  shows "disk_ok K (with_file sid snap enc d)"
  by (rule disk_keep [OF with_file_keep _ assms(2)]) (use assms(1) in \<open>simp add: new_id_def\<close>)

lemma save_ok:
  assumes "save_snapshot K io st reason failed fp (s, d) = (r, s', d')" and "new_id (io_snapshot_id io) d"
    and "disk_ok K d" and "mem_ok K d s" and "unused_by {io_snapshot_id io} s"
  shows "disk_ok K d'" "mem_ok K d' s'" "mem_ok K d t \<Longrightarrow> unused_by {io_snapshot_id io} t \<Longrightarrow> mem_ok K d' t"
proof -
  let ?d = "\<lambda>enc. with_file (sst_strategy_id st) (io_snapshot_id io) enc d"
  have keep: "mem_ok K (?d enc) t" if "mem_ok K d t" "unused_by {io_snapshot_id io} t" for t enc
    by (rule mem_keep [OF with_file_keep that(2,1)])
  note dok = with_file_ok [OF assms(2,3)]
  from assms(1) have "disk_ok K d' \<and> mem_ok K d' s' \<and> (\<forall>t. mem_ok K d t \<longrightarrow> unused_by {io_snapshot_id io} t \<longrightarrow> mem_ok K d' t)"
  proof (cases rule: save_cases)
    case (unsaved b)
    then show ?thesis using assms(3,4) by simp
  next
    case (debug enc)
    then show ?thesis using dok keep assms(4,5) by simp
  next
    case (registered enc q)
    have "path_ok (io_snapshot_id io)" using assms(2) by (simp add: new_id_def)
    note good = with_file_good [OF registered(1,2) this]
    obtain s1 where "mem_ok K d' s'" "disk_ok K d'" "\<And>t. mem_ok K (?d enc) t \<Longrightarrow> mem_ok K d' t"
      by (rule register_ok [OF dok good _ registered(3)]) simp_all
    then show ?thesis using keep by blast
  qed
  then show "disk_ok K d'" "mem_ok K d' s'" "mem_ok K d t \<Longrightarrow> unused_by {io_snapshot_id io} t \<Longrightarrow> mem_ok K d' t" by blast+
qed

subsection \<open>Processes that share a directory\<close>

datatype 'd snap_op =
    SnapSave save_io "'d strategy_state" string bool "string option"
  | SnapDelete bool string
  | SnapInvalidate bool string "int option"
  | SnapLoad string snap_filter
  | SnapPolicy save_policy int
  | SnapOpen save_policy int int

fun snap_call :: "'d snap_codec \<Rightarrow> 'd snap_op \<Rightarrow> state_store \<times> disk \<Rightarrow> state_store \<times> disk" where
  "snap_call K (SnapSave io st reason failed fp) sd = snd (save_snapshot K io st reason failed fp sd)"
| "snap_call K (SnapDelete ok snap) sd = snd (delete_snapshot ok snap sd)"
| "snap_call K (SnapInvalidate ok sid since) sd = snd (mark_invalid ok sid since sd)"
| "snap_call K (SnapLoad sid f) sd = (snd (load_latest_compatible K (snd sd) sid f (fst sd)), snd sd)"
| "snap_call K (SnapPolicy p n) sd = (set_save_policy p n (fst sd), snd sd)"
| "snap_call K (SnapOpen p n limit) sd = (snd (state_store_init p n limit (snd sd)), snd sd)"

type_synonym snap_world = "(nat \<Rightarrow> state_store) \<times> disk"

definition snap_step :: "'d snap_codec \<Rightarrow> nat \<Rightarrow> 'd snap_op \<Rightarrow> snap_world \<Rightarrow> snap_world" where
  "snap_step K p op = (\<lambda>(stores, d). case snap_call K op (stores p, d) of (s', d') \<Rightarrow> (stores(p := s'), d'))"

definition fresh_op :: "'d snap_op \<Rightarrow> snap_world \<Rightarrow> bool" where
  "fresh_op op = (\<lambda>(stores, d). case op of
     SnapSave io _ _ _ _ \<Rightarrow> new_id (io_snapshot_id io) d \<and> (\<forall>p. unused_by {io_snapshot_id io} (stores p))
   | _ \<Rightarrow> True)"

inductive snap_reach :: "'d snap_codec \<Rightarrow> snap_world \<Rightarrow> bool" for K :: "'d snap_codec" where
  opened: "snap_reach K ((\<lambda>p. snd (state_store_init (policy p) (interval p) (limit p) disk_init)), disk_init)"
| called: "snap_reach K w \<Longrightarrow> fresh_op op w \<Longrightarrow> snap_reach K (snap_step K p op w)"

definition world_ok :: "'d snap_codec \<Rightarrow> snap_world \<Rightarrow> bool" where
  "world_ok K w \<longleftrightarrow> disk_ok K (snd w) \<and> (\<forall>p. mem_ok K (snd w) (fst w p))"

lemma load_forced:
  "ss_snapshots s = [] \<Longrightarrow> load_metadata_index False d s = load_metadata_index True d s"
  by (cases s) (simp add: load_metadata_index_def split: index_file.split)

lemma init_mem_ok: "disk_ok K d \<Longrightarrow> mem_ok K d (snd (state_store_init p n limit d))"
  unfolding state_store_init_def by (simp add: load_forced) (metis load_mem_ok(2) prod.collapse)

lemma reload_ok:
  assumes "disk_ok K d" and "mem_ok K d s" and "reload_if_changed d s = (e, s')"
  shows "e = None" "mem_ok K d s'"
  using assms load_mem_ok [OF assms(1)] by (auto simp: reload_if_changed_def split: if_splits)

lemma locked_ok:
  assumes "disk_ok K d" and "locked_mutation f (s, d) = (r, s', d')"
  obtains s1 where "mem_ok K d s1" "f (s1, d) = (r, s', d')"
proof -
  obtain e s1 where load: "load_metadata_index True d s = (e, s1)" by (rule prod.exhaust)
  from load_mem_ok [OF assms(1) load] assms(2) load show thesis by (intro that [of s1]) (simp_all add: locked_mutation_def)
qed

lemma remove_snapshot_subset: "set (remove_snapshot snap ms) \<subseteq> set ms" "length (actives (remove_snapshot snap ms)) \<le> length (actives ms)"
  by (induction ms) auto

lemma delete_ok:
  assumes "disk_ok K d" and "delete_snapshot ok snap (s, d) = (r, s', d')"
  shows "disk_ok K d'" "mem_ok K d' s'" "mem_ok K d t \<Longrightarrow> mem_ok K d' t"
proof -
  obtain s1 where s1: "mem_ok K d s1" and run: "(case owner_of snap s1 of
       None \<Rightarrow> (Inl SnapshotNotFound, s1, d)
     | Some sid \<Rightarrow> persist_metadata_index ok (set_snaps sid (remove_snapshot snap (snaps_of s1 sid)) s1,
            d\<lparr>dk_files := AList.delete (sid, snap) (dk_files d), dk_debug := AList.delete (sid, snap) (dk_debug d)\<rparr>)) = (r, s', d')"
    using locked_ok [OF assms(1) assms(2) [unfolded delete_snapshot_def]] by auto
  have "disk_ok K d' \<and> mem_ok K d' s' \<and> (\<forall>t. mem_ok K d t \<longrightarrow> mem_ok K d' t)"
  proof (cases "owner_of snap s1")
    case None
    with run s1 assms(1) show ?thesis by auto
  next
    case (Some sid)
    let ?d = "d\<lparr>dk_files := AList.delete (sid, snap) (dk_files d), dk_debug := AList.delete (sid, snap) (dk_debug d)\<rparr>"
    have keep: "files_keep {} d ?d" by (auto simp: files_keep_def map_of_delete split: if_splits)
    have "mem_ok K d (set_snaps sid (remove_snapshot snap (snaps_of s1 sid)) s1)"
      using s1 remove_snapshot_subset [of snap "snaps_of s1 sid"] snaps_of_mem [of s1]
      by (intro mem_ok_set_snaps) (auto simp: mem_ok_def intro: le_trans)
    from mem_keep [OF keep unused_by_empty this] have m: "mem_ok K ?d (set_snaps sid (remove_snapshot snap (snaps_of s1 sid)) s1)" .
    have dd: "disk_ok K ?d" by (rule disk_keep [OF keep _ assms(1)]) simp
    have "persist_metadata_index ok (set_snaps sid (remove_snapshot snap (snaps_of s1 sid)) s1, ?d) = (r, s', d')"
      using run Some by simp
    note p = persist_ok [OF this m dd]
    have "mem_ok K d' t" if "mem_ok K d t" for t
      using mem_ok_writes [OF mem_keep [OF keep unused_by_empty that] p(3,4)] .
    with p(1,2) show ?thesis by blast
  qed
  then show "disk_ok K d'" "mem_ok K d' s'" "mem_ok K d t \<Longrightarrow> mem_ok K d' t" by blast+
qed

lemma invalid_ok:
  assumes "disk_ok K d" and "mark_invalid ok sid since (s, d) = (r, s', d')"
  shows "disk_ok K d'" "mem_ok K d' s'" "mem_ok K d t \<Longrightarrow> mem_ok K d' t"
proof -
  let ?inv = "\<lambda>m. if none_or since (\<lambda>t. t \<le> sm_bar_time m) then m\<lparr>sm_status := ''invalid''\<rparr> else m"
  obtain s1 where s1: "mem_ok K d s1" and run: "persist_metadata_index ok
       (if map_of (ss_snapshots s1) sid = None then s1 else set_snaps sid (map ?inv (snaps_of s1 sid)) s1, d) = (r, s', d')"
    using locked_ok [OF assms(1) assms(2) [unfolded mark_invalid_def]] by auto
  have good: "snap_good K d (?inv m) = snap_good K d m" for m
    by (simp add: snap_good_def usable_def recorded_def describes_def)
  have fewer: "length (actives (map ?inv ms)) \<le> length (actives ms)" for ms by (induction ms) auto
  have "mem_ok K d (set_snaps sid (map ?inv (snaps_of s1 sid)) s1)"
  proof (rule mem_ok_set_snaps [OF s1])
    fix m assume "m \<in> set (map ?inv (snaps_of s1 sid))"
    then obtain m0 where m0: "m = ?inv m0" "m0 \<in> set (snaps_of s1 sid)" by (auto simp only: set_map image_iff)
    with s1 have "snap_good K d m0" "sm_strategy_id m0 = sid" by (auto simp: mem_ok_def snaps_of_mem)
    then show "sm_strategy_id m = sid \<and> snap_good K d m" using good [of m0] unfolding m0(1) by simp
  next
    have "length (actives (snaps_of s1 sid)) \<le> 1" using s1 by (simp add: mem_ok_def)
    with fewer [of "snaps_of s1 sid"] show "length (actives (map ?inv (snaps_of s1 sid))) \<le> 1" by (rule le_trans)
  qed
  with s1 have "mem_ok K d (if map_of (ss_snapshots s1) sid = None then s1 else set_snaps sid (map ?inv (snaps_of s1 sid)) s1)" by simp
  from persist_ok [OF run this assms(1)] mem_ok_writes
  show "disk_ok K d'" "mem_ok K d' s'" "mem_ok K d t \<Longrightarrow> mem_ok K d' t" by blast+
qed

lemma load_keeps:
  assumes "disk_ok K d" and "mem_ok K d s"
  shows "mem_ok K d (snd (load_latest_compatible K d sid f s))"
proof -
  obtain e s1 where r: "reload_if_changed d s = (e, s1)" by (rule prod.exhaust)
  from reload_ok [OF assms r] show ?thesis
    by (auto simp: load_latest_compatible_def latest_snapshot_metadata_def r split: option.splits)
qed

lemma set_policy_mem [simp]: "mem_ok K d (set_save_policy p n s) = mem_ok K d s"
  by (simp add: set_save_policy_def mem_ok_def keyed_def snaps_of_def)

lemma call_ok:
  assumes d: "disk_ok K d" and s: "mem_ok K d s" and t: "mem_ok K d t"
    and fresh: "\<And>io st reason failed fp. op = SnapSave io st reason failed fp \<Longrightarrow>
      new_id (io_snapshot_id io) d \<and> unused_by {io_snapshot_id io} s \<and> unused_by {io_snapshot_id io} t"
    and run: "snap_call K op (s, d) = (s', d')"
  shows "disk_ok K d'" "mem_ok K d' s'" "mem_ok K d' t"
proof -
  have "disk_ok K d' \<and> mem_ok K d' s' \<and> mem_ok K d' t"
  proof (cases op)
    case (SnapSave io st reason failed fp)
    with run obtain r where "save_snapshot K io st reason failed fp (s, d) = (r, s', d')" by (cases "save_snapshot K io st reason failed fp (s, d)") auto
    from save_ok [OF this _ d s] fresh [OF SnapSave] t show ?thesis by blast
  next
    case (SnapDelete ok snap)
    with run obtain r where "delete_snapshot ok snap (s, d) = (r, s', d')" by (cases "delete_snapshot ok snap (s, d)") auto
    from delete_ok [OF d this] t show ?thesis by blast
  next
    case (SnapInvalidate ok sid since)
    with run obtain r where "mark_invalid ok sid since (s, d) = (r, s', d')" by (cases "mark_invalid ok sid since (s, d)") auto
    from invalid_ok [OF d this] t show ?thesis by blast
  next
    case (SnapLoad sid f)
    with run load_keeps [OF d s, of sid f] d t show ?thesis by auto
  next
    case (SnapPolicy p n)
    with run d s t show ?thesis by auto
  next
    case (SnapOpen p n limit)
    with run init_mem_ok [OF d, of p n limit] d t show ?thesis by auto
  qed
  then show "disk_ok K d'" "mem_ok K d' s'" "mem_ok K d' t" by blast+
qed

lemma reach_ok: "snap_reach K w \<Longrightarrow> world_ok K w"
proof (induction rule: snap_reach.induct)
  case (opened policy interval limit)
  have "disk_ok K disk_init" by (simp add: disk_ok_def disk_init_def index_of_def index_signature_def of_strategy_def)
  then show ?case by (simp add: world_ok_def init_mem_ok)
next
  case (called w op p)
  obtain stores d where w: "w = (stores, d)" by (cases w)
  obtain s' d' where run: "snap_call K op (stores p, d) = (s', d')" by (rule prod.exhaust)
  have fresh: "new_id (io_snapshot_id io) d \<and> unused_by {io_snapshot_id io} (stores p) \<and> unused_by {io_snapshot_id io} (stores q)"
    if "op = SnapSave io st reason failed fp" for io st reason failed fp q
    using called.hyps(2) that by (simp add: fresh_op_def w)
  from called.IH have ok: "disk_ok K d" "\<And>q. mem_ok K d (stores q)" by (simp_all add: world_ok_def w)
  from call_ok [OF ok(1) ok(2) ok(2) fresh run] show ?case
    by (simp add: world_ok_def snap_step_def w run)
qed

text \<open>What is relied on of packing: a packed payload unpacks to itself.\<close>

definition codec_ok :: "'d snap_codec \<Rightarrow> bool" where
  "codec_ok K \<longleftrightarrow> (\<forall>p b. sk_pack K p = Some b \<longrightarrow> sk_unpack K b = Unpacked p)
     \<and> (sk_pickle_enabled K \<longrightarrow> (\<forall>p b. sk_pickle K p = Some b \<longrightarrow> sk_unpickle K b = Unpacked p))"

lemma decode_encode:
  assumes "codec_ok K" and "encode_payload K p = Inr (f, encoding, checksum)"
  shows "decode_payload K f encoding = Inr p" "checksum = sk_sha256 K f"
  using assms by (auto simp: encode_payload_def decode_payload_def codec_ok_def split: option.splits if_splits)

lemma load_recorded:
  assumes K: "codec_ok K" and "snap_good K d m"
  shows "load_state K d m = Inr None \<or> (\<exists>st. load_state K d m = Inr (Some st) \<and> describes m st)"
proof (cases "map_of (dk_files d) (sm_strategy_id m, sm_snapshot_id m)")
  case None
  with assms(2) show ?thesis by (simp add: load_state_def snapshot_path_def snap_good_def usable_def)
next
  case (Some f)
  with assms(2) obtain st fp checksum where enc: "encode_payload K (state_payload st fp) = Inr (f, sm_state_encoding m, checksum)"
      "sm_checksum m = Some checksum" "describes m st"
    unfolding snap_good_def recorded_def by blast
  note dec = decode_encode [OF K enc(1)]
  have "load_state K d m = Inr (Some (st\<lparr>sst_saved_at := 0\<rparr>))"
    using assms(2) Some enc(2) dec
    by (simp add: load_state_def snapshot_path_def snap_good_def usable_def state_payload_def none_or_def)
  moreover have "describes m (st\<lparr>sst_saved_at := 0\<rparr>)" using enc(3) by (simp add: describes_def)
  ultimately show ?thesis by blast
qed


text \<open>The snapshots of a strategy that a process finds in the directory.\<close>

definition stored :: "disk \<Rightarrow> string \<Rightarrow> snapshot_metadata list" where
  "stored d sid = filter (\<lambda>m. file_exists d sid (sm_snapshot_id m)) (of_strategy sid (index_of d))"

lemma actives_pruned:
  assumes "sm_status m = ''active''"
  shows "actives (rev (take n (newest_first_snaps (map supersede ms @ [m])))) = (if ahead m ms < n then [m] else [])"
    and "ahead m ms < n \<Longrightarrow> x \<in> set (drop n (newest_first_snaps (map supersede ms @ [m]))) \<Longrightarrow> x \<in> supersede ` set ms"
proof -
  obtain pre post where L: "newest_first_snaps (map supersede ms @ [m]) = pre @ m # post" "length pre = ahead m (map supersede ms)"
      "set pre \<union> set post = set (map supersede ms)" by (rule newest_first_snoc)
  have len: "length pre = ahead m ms" unfolding L(2) by (simp add: ahead_def filter_map comp_def)
  have none: "actives xs = []" if "set xs \<subseteq> set pre \<union> set post" for xs
    using that unfolding L(3) by (auto simp: filter_empty_conv)
  have "actives (take k pre) = []" "actives (take k post) = []" for k
    by (intro none; meson set_take_subset sup.coboundedI1 sup.coboundedI2 order_trans)+
  then show "actives (rev (take n (newest_first_snaps (map supersede ms @ [m])))) = (if ahead m ms < n then [m] else [])"
    unfolding L(1) rev_filter [symmetric] by (auto simp: len take_Cons' assms none)
  show "x \<in> supersede ` set ms" if "ahead m ms < n" "x \<in> set (drop n (newest_first_snaps (map supersede ms @ [m])))"
    using that L(3) set_drop_subset [of "n - length pre - 1" post] unfolding L(1) by (auto simp: len drop_Cons' split: if_splits)
qed

lemma actives_filter: "actives (filter P ms) = filter P (actives ms)"
  by (simp add: conj_commute)

lemma loads_active:
  assumes "actives (snaps_of s1 sid) = (if b then [m] else [])" and "reload_if_changed d s = (None, s1)"
  shows "fst (load_snapshot K d sid s) = (if b then load_state K d m else Inr None)"
proof -
  have "compatible any_snapshot = (\<lambda>m. sm_status m = ''active'')"
    by (intro ext) (simp add: compatible_def any_snapshot_def none_or_def)
  with assms show ?thesis
    by (simp add: load_snapshot_def load_latest_compatible_def latest_snapshot_metadata_def max_key_def)
qed

lemma save_visible:
  assumes d: "disk_ok K d" and fresh: "new_id (io_snapshot_id io) d"
    and save: "save_snapshot K io st reason False fp (s, d) = (Inr (Some m), s', d')"
  defines "kept \<equiv> ahead m (stored d (sst_strategy_id st)) < ss_max s"
  obtains enc where "m = new_metadata (io_snapshot_id io) (io_now io) st reason fp enc" "encode_payload K (state_payload st fp) = Inr enc"
    "path_ok (sst_strategy_id st)" "actives (snaps_of s' (sst_strategy_id st)) = (if kept then [m] else [])"
    "kept \<Longrightarrow> map_of (dk_files d') (sst_strategy_id st, io_snapshot_id io) = Some (fst enc)"
    "disk_ok K d'" "keyed s'" "index_of d' = indexed s'" "index_signature d' = Some (Suc (dk_writes d))" "ss_signature s' = Some (Suc (dk_writes d))"
  using save
proof (cases rule: save_cases)
  case (registered enc q)
  let ?sid = "sst_strategy_id st" and ?id = "io_snapshot_id io"
  let ?d = "with_file ?sid ?id enc d" and ?m = "new_metadata ?id (io_now io) st reason fp enc"
  have pid: "path_ok ?id" using fresh by (simp add: new_id_def)
  note good = with_file_good [OF registered(1,2) pid]
  have dok: "disk_ok K ?d" by (rule with_file_ok [OF fresh d])
  obtain s1 where s1: "load_metadata_index True ?d s = (None, s1)" "mem_ok K d' s'" "disk_ok K d'"
    "snaps_of s' ?sid = rev (take (ss_max s) (newest_first_snaps (map supersede (snaps_of s1 ?sid) @ [?m])))"
    "\<And>k. map_of (dk_files d') k = (if k \<in> (\<lambda>m'. (?sid, sm_snapshot_id m')) `
        set (drop (ss_max s) (newest_first_snaps (map supersede (snaps_of s1 ?sid) @ [?m]))) then None else map_of (dk_files ?d) k)"
    "q = Inr ?m \<and> dk_index d' = Index (Suc (dk_writes ?d)) (indexed s') \<and> ss_signature s' = Some (Suc (dk_writes ?d)) \<or> q = Inl StateOSError"
    by (rule register_ok [OF dok good _ registered(3)]) simp_all
  from registered(4) s1(6) have m: "m = ?m" and idx: "dk_index d' = Index (Suc (dk_writes d)) (indexed s')" "ss_signature s' = Some (Suc (dk_writes d))"
    by (auto simp: with_file_def)
  have ids: "sm_snapshot_id x \<noteq> ?id" if "x \<in> set (index_of d)" for x using fresh that by (simp add: new_id_def)
  have "index_of ?d = index_of d" by (simp add: with_file_def index_of_def)
  moreover have "file_exists ?d ?sid (sm_snapshot_id x) = file_exists d ?sid (sm_snapshot_id x)" if "x \<in> set (index_of d)" for x
    using ids [OF that] by (simp add: file_exists_def with_file_def map_of_update)
  moreover obtain s2 where "load_metadata_index True ?d s = (None, s2)"
      "\<And>sid. snaps_of s2 sid = filter (\<lambda>m. file_exists ?d sid (sm_snapshot_id m)) (of_strategy sid (index_of ?d))"
    by (rule load_index_ok [OF dok, of s]) blast
  ultimately have old: "snaps_of s1 ?sid = stored d ?sid"
    using s1(1) by (auto simp: stored_def of_strategy_def intro!: filter_cong)
  have act: "actives (snaps_of s' ?sid) = (if kept then [m] else [])"
    unfolding s1(4) m kept_def old by (rule actives_pruned(1)) simp
  have "map_of (dk_files d') (?sid, ?id) = Some (fst enc)" if kept
  proof -
    have "sm_snapshot_id x \<noteq> ?id" if "x \<in> set (drop (ss_max s) (newest_first_snaps (map supersede (snaps_of s1 ?sid) @ [?m])))" for x
      using actives_pruned(2) [OF _ _ that] \<open>kept\<close> ids unfolding kept_def old m by (auto simp: stored_def of_strategy_def)
    then have "(?sid, ?id) \<notin> (\<lambda>m'. (?sid, sm_snapshot_id m')) ` set (drop (ss_max s) (newest_first_snaps (map supersede (snaps_of s1 ?sid) @ [?m])))"
      by (simp only: image_iff prod.inject) metis
    then show ?thesis unfolding s1(5) by (simp add: with_file_def map_of_update)
  qed
  with act m idx s1 registered(1,2) show thesis
    by (intro that [of enc]) (auto simp: mem_ok_def index_of_def index_signature_def)
qed auto


subsection \<open>An example\<close>

definition sample_state :: "int \<Rightarrow> nat strategy_state" where
  "sample_state t = \<lparr>sst_strategy_id = ''s1'', sst_artifact_id = ''a'', sst_params_hash = ''h'', sst_instrument_key = JNull,
     sst_timeframe = JNull, sst_state_data = 7, sst_bar_time = t, sst_saved_at = 0\<rparr>"

text \<open>A codec that can pack the states of two bars.\<close>

definition sample_codec :: "nat snap_codec" where
  "sample_codec = \<lparr>sk_pack = (\<lambda>p. if p = state_payload (sample_state 9) None then Some ''nine''
       else if p = state_payload (sample_state 5) None then Some ''five'' else None),
     sk_pickle = (\<lambda>p. None),
     sk_unpack = (\<lambda>b. if b = ''nine'' then Unpacked (state_payload (sample_state 9) None)
       else if b = ''five'' then Unpacked (state_payload (sample_state 5) None) else NotMapping),
     sk_unpickle = (\<lambda>b. NotMapping), sk_sha256 = (\<lambda>b. b), sk_pickle_enabled = False\<rparr>"

definition sample_io :: "string \<Rightarrow> save_io" where
  "sample_io snap = \<lparr>io_snapshot_id = snap, io_now = 100, io_file_ok = True, io_debug_ok = True, io_index_ok = True\<rparr>"

abbreviation sample_save :: "string \<Rightarrow> int \<Rightarrow> nat snap_op" where
  "sample_save snap t \<equiv> SnapSave (sample_io snap) (sample_state t) ''scheduled'' False None"

definition sample_opened :: snap_world where
  "sample_opened = ((\<lambda>p. snd (state_store_init EVERY_BAR 1 1 disk_init)), disk_init)"

definition sample_saved :: snap_world where
  "sample_saved = snap_step sample_codec 0 (sample_save ''x'' 9) sample_opened"

lemma sample_codec_ok: "codec_ok sample_codec"
  by (simp add: codec_ok_def sample_codec_def)

lemma sample_reach: "snap_reach sample_codec sample_opened" "snap_reach sample_codec sample_saved"
proof -
  show *: "snap_reach sample_codec sample_opened" unfolding sample_opened_def by (rule snap_reach.opened)
  have "fresh_op (sample_save ''x'' 9) sample_opened"
    by (simp add: fresh_op_def sample_opened_def new_id_def sample_io_def path_ok_def index_of_def disk_init_def unused_by_def
        state_store_init_def load_metadata_index_def snaps_of_def)
  with * show "snap_reach sample_codec sample_saved" unfolding sample_saved_def by (rule snap_reach.called)
qed


definition stale_run where
  "stale_run = save_snapshot sample_codec (sample_io ''y'') (sample_state 5) ''scheduled'' False None (fst sample_saved 0, snd sample_saved)"

lemma sample_saved_files: "dk_files (snd sample_saved) = [((''s1'', ''x''), ''nine'')]"
  by code_simp

lemma sample_saved_ids:
  "map sm_snapshot_id (index_of (snd sample_saved)) = [''x'']"
  "map (\<lambda>(sid, ms). (sid, map sm_snapshot_id ms)) (ss_snapshots (fst sample_saved 0)) = [(''s1'', [''x''])]"
  by code_simp+

lemma sample_saved_other: "p \<noteq> 0 \<Longrightarrow> ss_snapshots (fst sample_saved p) = []"
  by (simp add: sample_saved_def snap_step_def sample_opened_def state_store_init_def load_metadata_index_def disk_init_def
      split: prod.split)

lemma stale_fresh: "fresh_op (sample_save ''y'' 5) (fst sample_saved, snd sample_saved)"
proof -
  have "new_id ''y'' (snd sample_saved)"
    using sample_saved_ids(1) by (auto simp: new_id_def path_ok_def sample_saved_files)
  moreover have "unused_by {''y''} (fst sample_saved p)" for p
    using sample_saved_ids(2) sample_saved_other [of p] by (cases "p = 0") (auto simp: unused_by_def snaps_of_def split: if_splits option.splits)
  ultimately show ?thesis by (simp add: fresh_op_def sample_io_def case_prod_beta)
qed


end
