(* ===== verification/StateCodec.thy ===== *)
theory StateCodec
  imports PyNum
begin

text \<open>
  The codec of resume states (\<^verbatim>\<open>openpine/state/codec.py\<close>): Python values are turned into msgpack
  primitives with type tags and restored from them without running constructors.

  \<open>sval\<close> is a Python value as the encoder distinguishes it, \<open>mval\<close> a msgpack primitive. A set lists its
  elements in iteration order. An object of no known type is described by what the encoder asks of it:
  the results of \<open>item()\<close> and \<open>tolist()\<close> (\<open>None\<close>: no such method, \<open>Some None\<close>: it raises or returns the
  object itself), whether it is callable, and its attributes. Classes of other packages and the parser
  of \<open>Decimal\<close> are the parameter record \<open>codec_env\<close>.
\<close>

subsection \<open>Values\<close>

datatype sval =
    SNone | SBool bool | SInt int | SFloat pyfloat | SStr string | SBytes string
  | SEnum string string bool sval
  | SDecimal string
  | SPath string
  | SData string string "(string \<times> sval) list"
  | SDict "(sval \<times> sval) list"
  | SList "sval list"
  | STuple "sval list"
  | SSet bool "sval list"
  | SDeque "sval list" "nat option"
  | SNamespace "(string \<times> sval) list"
  | SObject "sval option option" "sval option option" bool "(string \<times> sval) list option"

datatype mkey = KStr string | KBytes string

datatype mval = MNil | MBool bool | MInt int | MFloat pyfloat | MStr string | MBin string | MArr "mval list" | MMap "(mkey \<times> mval) list"

datatype codec_error = CTypeError | CKeyError | CValueError | CAttributeError | CImportError | COverflowError | CDecimalError

text \<open>What a class path denotes: no class, an enum with its lookup by value, a dataclass with its field
  names and whether its instances are hashable, or another class.\<close>

datatype class_info = NotClass | EnumClass "sval \<Rightarrow> sval option" | DataClass "string list" bool | OtherClass

record codec_env =
  ce_import :: "string \<Rightarrow> bool"
  ce_attr :: "string \<Rightarrow> string list \<Rightarrow> bool"
  ce_class :: "string \<Rightarrow> string list \<Rightarrow> class_info"
  ce_decimal :: "mval \<Rightarrow> codec_error + string"

subsection \<open>Text\<close>

definition starts_with :: "string \<Rightarrow> string \<Rightarrow> bool" where
  "starts_with p s \<longleftrightarrow> take (length p) s = p"

fun partition_at :: "char \<Rightarrow> string \<Rightarrow> (string \<times> string) option" where
  "partition_at c [] = None"
| "partition_at c (d # s) = (if c = d then Some ([], s) else map_option (\<lambda>(a, b). (d # a, b)) (partition_at c s))"

fun split_at :: "char \<Rightarrow> string \<Rightarrow> string list" where
  "split_at c [] = [[]]"
| "split_at c (d # s) = (if c = d then [] # split_at c s else (case split_at c s of [] \<Rightarrow> [[d]] | w # ws \<Rightarrow> (d # w) # ws))"

fun join_with :: "string \<Rightarrow> string list \<Rightarrow> string" where
  "join_with sep [] = []"
| "join_with sep [w] = w"
| "join_with sep (w # ws) = w @ sep @ join_with sep ws"

text \<open>\<open>str(Path(t))\<close> for a POSIX path.\<close>

definition path_str :: "string \<Rightarrow> string" where
  "path_str t =
     (let root = (if starts_with ''//'' t \<and> \<not> starts_with ''///'' t then ''//'' else if starts_with ''/'' t then ''/'' else []);
          body = join_with ''/'' (filter (\<lambda>w. w \<noteq> [] \<and> w \<noteq> ''.'') (split_at (CHR ''/'') t))
      in if root @ body = [] then ''.'' else root @ body)"

definition hex_digit :: "nat \<Rightarrow> char" where
  "hex_digit n = (if n < 10 then char_of (48 + n) else char_of (87 + n))"

definition escape_char :: "bool \<Rightarrow> char \<Rightarrow> char \<Rightarrow> string" where
  "escape_char bytes quote c =
     (let n = (of_char c :: nat) in
      if c = CHR 0x5C \<or> c = quote then [CHR 0x5C, c]
      else if n = 10 then [CHR 0x5C, CHR ''n''] else if n = 13 then [CHR 0x5C, CHR ''r''] else if n = 9 then [CHR 0x5C, CHR ''t'']
      else if n < 32 \<or> n = 127 \<or> (127 < n \<and> (bytes \<or> n \<le> 160 \<or> n = 173))
      then [CHR 0x5C, CHR ''x'', hex_digit (n div 16), hex_digit (n mod 16)] else [c])"

definition text_repr :: "bool \<Rightarrow> string \<Rightarrow> string" where
  "text_repr bytes s =
     (let quote = (if CHR 0x27 \<in> set s \<and> CHR 0x22 \<notin> set s then CHR 0x22 else CHR 0x27)
      in (if bytes then ''b'' else []) @ [quote] @ concat (map (escape_char bytes quote) s) @ [quote])"

fun key_repr :: "mkey \<Rightarrow> string" where
  "key_repr (KStr s) = text_repr False s"
| "key_repr (KBytes s) = text_repr True s"

fun py_repr :: "mval \<Rightarrow> string" where
  "py_repr MNil = ''None''"
| "py_repr (MBool b) = (if b then ''True'' else ''False'')"
| "py_repr (MInt n) = show_int n"
| "py_repr (MFloat x) = float_repr x"
| "py_repr (MStr s) = text_repr False s"
| "py_repr (MBin s) = text_repr True s"
| "py_repr (MArr xs) = ''['' @ join_with '', '' (map py_repr xs) @ '']''"
| "py_repr (MMap kvs) = ''{'' @ join_with '', '' (map (\<lambda>(k, v). key_repr k @ '': '' @ py_repr v) kvs) @ ''}''"

subsection \<open>Encoding\<close>

definition codec_marker :: string where
  "codec_marker = ''__openpine_state_codec_v1__''"

definition allowed_module :: "string \<Rightarrow> bool" where
  "allowed_module m = starts_with ''backtest_engine.'' m"

definition tagged :: "string \<Rightarrow> (string \<times> mval) list \<Rightarrow> mval" where
  "tagged kind kvs = MMap ((KStr codec_marker, MStr kind) # map (\<lambda>(k, v). (KStr k, v)) kvs)"

definition class_path :: "string \<Rightarrow> string \<Rightarrow> mval" where
  "class_path m q = MStr (m @ '':'' @ q)"

text \<open>A key that is an instance of \<open>str\<close> or \<open>bytes\<close>.\<close>

fun text_key :: "sval \<Rightarrow> mkey option" where
  "text_key (SStr s) = Some (KStr s)"
| "text_key (SBytes s) = Some (KBytes s)"
| "text_key (SEnum m q True (SStr s)) = Some (KStr s)"
| "text_key (SEnum m q True (SBytes s)) = Some (KBytes s)"
| "text_key _ = None"

fun is_callable :: "sval \<Rightarrow> bool" where
  "is_callable (SObject _ _ c _) = c"
| "is_callable _ = False"

text \<open>\<open>try: return ...\<close> with the exception swallowed.\<close>

definition try_first :: "('e + 'a) option \<Rightarrow> 'e + 'a \<Rightarrow> 'e + 'a" where
  "try_first r alt = (case r of Some (Inr x) \<Rightarrow> Inr x | _ \<Rightarrow> alt)"

lemma size_pair_list: "(a, b) \<in> set kvs \<Longrightarrow> f a + g b < Suc (size_list (size_prod f g) kvs)"
  by (induction kvs) auto

function to_msgpack_safe :: "sval \<Rightarrow> codec_error + mval" where
  "to_msgpack_safe SNone = Inr MNil"
| "to_msgpack_safe (SBool b) = Inr (MBool b)"
| "to_msgpack_safe (SInt n) = Inr (MInt n)"
| "to_msgpack_safe (SFloat x) = Inr (MFloat x)"
| "to_msgpack_safe (SStr s) = Inr (MStr s)"
| "to_msgpack_safe (SBytes s) = Inr (MBin s)"
| "to_msgpack_safe (SEnum m q mixin v) =
     (if mixin then to_msgpack_safe v
      else res_bind (to_msgpack_safe v) (\<lambda>x. Inr (tagged ''enum'' [(''type'', class_path m q), (''value'', x)])))"
| "to_msgpack_safe (SDecimal t) = Inr (tagged ''decimal'' [(''value'', MStr t)])"
| "to_msgpack_safe (SPath t) = Inr (tagged ''path'' [(''value'', MStr (path_str t))])"
| "to_msgpack_safe (SData m q fs) =
     (if \<not> allowed_module m then Inl CTypeError
      else res_bind (res_map (\<lambda>(n, v). res_bind (to_msgpack_safe v) (\<lambda>x. Inr (KStr n, x))) fs) (\<lambda>ys.
        Inr (tagged ''dataclass'' [(''type'', class_path m q), (''fields'', MMap ys)])))"
| "to_msgpack_safe (SDict kvs) =
     (if list_all (\<lambda>(k, v). text_key k \<noteq> None) kvs
      then res_bind (res_map (\<lambda>(k, v). res_bind (to_msgpack_safe v) (\<lambda>x. Inr (the (text_key k), x))) kvs) (\<lambda>ys. Inr (MMap ys))
      else res_bind (res_map (\<lambda>(k, v). res_bind (to_msgpack_safe k) (\<lambda>y. res_bind (to_msgpack_safe v) (\<lambda>x. Inr (MArr [y, x])))) kvs)
             (\<lambda>ys. Inr (tagged ''mapping'' [(''items'', MArr ys)])))"
| "to_msgpack_safe (SList xs) = res_bind (res_map to_msgpack_safe xs) (\<lambda>ys. Inr (MArr ys))"
| "to_msgpack_safe (STuple xs) = res_bind (res_map to_msgpack_safe xs) (\<lambda>ys. Inr (tagged ''tuple'' [(''items'', MArr ys)]))"
| "to_msgpack_safe (SSet frozen xs) =
     res_bind (res_map to_msgpack_safe xs) (\<lambda>ys.
       Inr (tagged (if frozen then ''frozenset'' else ''set'') [(''items'', MArr (sort_key py_repr ys))]))"
| "to_msgpack_safe (SDeque xs maxlen) =
     res_bind (res_map to_msgpack_safe xs) (\<lambda>ys.
       Inr (tagged ''deque'' [(''items'', MArr ys), (''maxlen'', case maxlen of None \<Rightarrow> MNil | Some n \<Rightarrow> MInt (int n))]))"
| "to_msgpack_safe (SNamespace fs) =
     res_bind (res_map (\<lambda>(n, v). res_bind (to_msgpack_safe v) (\<lambda>x. Inr (KStr n, x))) fs) (\<lambda>ys. Inr (MMap ys))"
| "to_msgpack_safe (SObject item tolist callable attrs) =
     (case item of
        Some (Some v) \<Rightarrow> to_msgpack_safe v
      | _ \<Rightarrow>
          try_first (case tolist of Some (Some w) \<Rightarrow> Some (to_msgpack_safe w) | _ \<Rightarrow> None)
            (if callable then Inl CTypeError
             else case attrs of
               None \<Rightarrow> Inl CTypeError
             | Some fs \<Rightarrow>
                 res_bind (res_map (\<lambda>(n, v). res_bind (to_msgpack_safe v) (\<lambda>x. Inr (KStr n, x)))
                     (filter (\<lambda>(n, v). \<not> starts_with ''_'' n \<and> \<not> is_callable v) fs))
                   (\<lambda>ys. Inr (MMap ys))))"
  by pat_completeness auto

termination
  by (relation "measure size") (auto dest: size_pair_list [where g = size and f = "\<lambda>_. 0"] size_pair_list [where g = size and f = size] simp: less_Suc_eq_le size_list_estimation')

subsection \<open>Equality and hashing of restored values\<close>

definition decimal_value :: "string \<Rightarrow> pyfloat" where
  "decimal_value t =
     (let (neg, u) = split_sign t
      in if lower u = ''infinity'' then (if neg then NInf else PInf)
         else case parse_unsigned u of None \<Rightarrow> NaN | Some r \<Rightarrow> Fin (if neg then - r else r))"

fun num_value :: "sval \<Rightarrow> pyfloat option" where
  "num_value (SBool b) = Some (Fin (if b then 1 else 0))"
| "num_value (SInt n) = Some (Fin (of_int n))"
| "num_value (SFloat x) = Some x"
| "num_value (SDecimal t) = Some (decimal_value t)"
| "num_value _ = None"

lemma size_pair_zip:
  "((n, u), w) \<in> set (zip fs gs) \<Longrightarrow> size u < Suc (size_list (size_prod (\<lambda>_. 0) size) fs)"
  using size_pair_list [of n u fs "\<lambda>_. 0" size] by (auto dest: set_zip_leftD)

lemma size_list_mem: "x \<in> set xs \<Longrightarrow> size x < Suc (size_list size xs)"
  by (simp add: less_Suc_eq_le size_list_estimation')

lemma size_zip: "(u, v) \<in> set (zip xs ys) \<Longrightarrow> size u < Suc (size_list size xs)"
  by (auto dest: set_zip_leftD intro: size_list_mem)

text \<open>\<open>==\<close>: numbers by value, containers by their elements, sets without regard to order, classes and
  enum members by identity of the class.\<close>

function py_same :: "sval \<Rightarrow> sval \<Rightarrow> bool" where
  "py_same x y =
     (case (num_value x, num_value y) of
        (Some a, Some b) \<Rightarrow> feq a b
      | (Some a, None) \<Rightarrow> False
      | (None, Some b) \<Rightarrow> False
      | (None, None) \<Rightarrow>
          (case (x, y) of
             (STuple xs, STuple ys) \<Rightarrow> length xs = length ys \<and> list_all (\<lambda>(u, v). py_same u v) (zip xs ys)
           | (SList xs, SList ys) \<Rightarrow> length xs = length ys \<and> list_all (\<lambda>(u, v). py_same u v) (zip xs ys)
           | (SSet f xs, SSet g ys) \<Rightarrow> length xs = length ys \<and> list_all (\<lambda>u. list_ex (\<lambda>v. py_same u v) ys) xs
           | (SData m q fs, SData m' q' gs) \<Rightarrow> m = m' \<and> q = q' \<and> map fst fs = map fst gs
               \<and> list_all (\<lambda>((n, u), (k, v)). py_same u v) (zip fs gs)
           | _ \<Rightarrow> x = y))"
  by pat_completeness auto

termination
  by (relation "measure (\<lambda>(x, y). size x)") (auto dest: size_pair_zip size_zip intro: size_list_mem)

declare py_same.simps [simp del]

fun py_hashable :: "codec_env \<Rightarrow> sval \<Rightarrow> bool" where
  "py_hashable E (STuple xs) = list_all (py_hashable E) xs"
| "py_hashable E (SSet frozen xs) = frozen"
| "py_hashable E (SData m q fs) =
     ((case ce_class E m (split_at (CHR ''.'') q) of DataClass ns h \<Rightarrow> h | _ \<Rightarrow> False) \<and> list_all (\<lambda>(n, v). py_hashable E v) fs)"
| "py_hashable E (SDecimal t) = (\<not> starts_with ''snan'' (lower (snd (split_sign t))))"
| "py_hashable E (SDict _) = False"
| "py_hashable E (SList _) = False"
| "py_hashable E (SDeque _ _) = False"
| "py_hashable E (SNamespace _) = False"
| "py_hashable E _ = True"

definition hash_checked :: "codec_env \<Rightarrow> codec_error + sval \<Rightarrow> codec_error + sval" where
  "hash_checked E r = res_bind r (\<lambda>x. if py_hashable E x then Inr x else Inl CTypeError)"

text \<open>Set and dict comprehensions: an equal element or key is kept, and its value replaced.\<close>

definition set_add :: "sval list \<Rightarrow> sval \<Rightarrow> sval list" where
  "set_add acc x = (if list_ex (\<lambda>y. py_same y x) acc then acc else acc @ [x])"

fun put_same :: "(sval \<times> sval) list \<Rightarrow> sval \<times> sval \<Rightarrow> (sval \<times> sval) list" where
  "put_same [] (k, v) = [(k, v)]"
| "put_same ((k', v') # kvs) (k, v) = (if py_same k' k then (k', v) # kvs else (k', v') # put_same kvs (k, v))"

subsection \<open>Decoding\<close>

text \<open>\<open>_resolve_type\<close>: the module must be allowed before it is imported, and no part may be private.\<close>

fun resolve_parts :: "codec_env \<Rightarrow> string \<Rightarrow> string list \<Rightarrow> string list \<Rightarrow> codec_error + class_info" where
  "resolve_parts E m seen [] = (case ce_class E m seen of NotClass \<Rightarrow> Inl CTypeError | c \<Rightarrow> Inr c)"
| "resolve_parts E m seen (p # ps) =
     (if starts_with ''_'' p then Inl CTypeError
      else if \<not> ce_attr E m (seen @ [p]) then Inl CAttributeError
      else resolve_parts E m (seen @ [p]) ps)"

definition resolve_type :: "codec_env \<Rightarrow> string \<Rightarrow> codec_error + string \<times> string \<times> class_info" where
  "resolve_type E path =
     (case partition_at (CHR '':'') path of
        None \<Rightarrow> Inl CTypeError
      | Some (m, q) \<Rightarrow>
          if \<not> allowed_module m then Inl CTypeError
          else if \<not> ce_import E m then Inl CImportError
          else res_bind (resolve_parts E m [] (split_at (CHR ''.'') q)) (\<lambda>c. Inr (m, q, c)))"

definition entry :: "(mkey \<times> mval) list \<Rightarrow> string \<Rightarrow> codec_error + mval" where
  "entry kvs k = (case map_of kvs (KStr k) of None \<Rightarrow> Inl CKeyError | Some v \<Rightarrow> Inr v)"

definition entry_type :: "codec_env \<Rightarrow> (mkey \<times> mval) list \<Rightarrow> codec_error + string \<times> string \<times> class_info" where
  "entry_type E kvs =
     res_bind (entry kvs ''type'') (\<lambda>v. case v of MStr path \<Rightarrow> resolve_type E path | MBin _ \<Rightarrow> Inl CTypeError | _ \<Rightarrow> Inl CAttributeError)"

fun restored_key :: "mkey \<Rightarrow> sval" where
  "restored_key (KStr s) = SStr s"
| "restored_key (KBytes s) = SBytes s"

text \<open>Iteration over a value that is no list: characters, byte values, or keys.\<close>

fun iterate_other :: "mval \<Rightarrow> codec_error + sval list" where
  "iterate_other (MStr s) = Inr (map (\<lambda>c. SStr [c]) s)"
| "iterate_other (MBin s) = Inr (map (\<lambda>c. SInt (of_char c)) s)"
| "iterate_other (MMap kvs) = Inr (map (restored_key \<circ> fst) kvs)"
| "iterate_other _ = Inl CTypeError"

definition two_of :: "sval list \<Rightarrow> codec_error + sval \<times> sval" where
  "two_of xs = (case xs of [k, v] \<Rightarrow> Inr (k, v) | _ \<Rightarrow> Inl CValueError)"

text \<open>\<open>deque(items, maxlen=...)\<close>.\<close>

definition bounded_deque :: "mval option \<Rightarrow> sval list \<Rightarrow> codec_error + sval" where
  "bounded_deque maxlen xs =
     (case maxlen of
        None \<Rightarrow> Inr (SDeque xs None)
      | Some MNil \<Rightarrow> Inr (SDeque xs None)
      | Some (MInt n) \<Rightarrow>
          if n < 0 then Inl CValueError else if 2 ^ 63 \<le> n then Inl COverflowError
          else Inr (SDeque (drop (length xs - nat n) xs) (Some (nat n)))
      | Some (MBool b) \<Rightarrow> (let n = (if b then 1 else 0) in Inr (SDeque (drop (length xs - n) xs) (Some n)))
      | Some _ \<Rightarrow> Inl CTypeError)"

text \<open>The check \<open>set(raw_fields) != fields\<close>, and \<open>raw_fields.items()\<close> after it.\<close>

definition checked_fields :: "string list \<Rightarrow> mval \<Rightarrow> codec_error + (mkey \<times> mval) list" where
  "checked_fields ns v =
     (case v of
        MMap kvs \<Rightarrow> if set (map fst kvs) = KStr ` set ns then Inr kvs else Inl CTypeError
      | MArr xs \<Rightarrow> if set xs = MStr ` set ns then Inl CAttributeError else Inl CTypeError
      | MStr s \<Rightarrow> if (\<lambda>c. [c]) ` set s = set ns then Inl CAttributeError else Inl CTypeError
      | MBin s \<Rightarrow> if s = [] \<and> ns = [] then Inl CAttributeError else Inl CTypeError
      | _ \<Rightarrow> Inl CTypeError)"

definition raw_fields :: "(mkey \<times> mval) list \<Rightarrow> mval" where
  "raw_fields kvs = (case map_of kvs (KStr ''fields'') of None \<Rightarrow> MMap [] | Some v \<Rightarrow> v)"

definition dataclass_fields :: "class_info \<Rightarrow> codec_error + string list" where
  "dataclass_fields c = (case c of DataClass ns h \<Rightarrow> Inr ns | _ \<Rightarrow> Inl CTypeError)"

definition enum_lookup :: "class_info \<Rightarrow> codec_error + (sval \<Rightarrow> sval option)" where
  "enum_lookup c = (case c of EnumClass f \<Rightarrow> Inr f | _ \<Rightarrow> Inl CTypeError)"

fun key_text :: "mkey \<Rightarrow> string" where
  "key_text (KStr s) = s"
| "key_text (KBytes s) = s"

definition path_of :: "mval \<Rightarrow> codec_error + sval" where
  "path_of v = (case v of MStr t \<Rightarrow> Inr (SPath t) | _ \<Rightarrow> Inl CTypeError)"

lemma res_bind_cong [fundef_cong]:
  "m = n \<Longrightarrow> (\<And>x. n = Inr x \<Longrightarrow> f x = g x) \<Longrightarrow> res_bind m f = res_bind n g"
  by (cases n) auto

text \<open>The items of a tag, and the pairs of a mapping, decoded one by one.\<close>

definition items_with :: "(mval \<Rightarrow> codec_error + sval) \<Rightarrow> mval \<Rightarrow> codec_error + sval list" where
  "items_with f v = (case v of MArr xs \<Rightarrow> res_map f xs | _ \<Rightarrow> iterate_other v)"

lemma items_with_cong [fundef_cong]:
  "v = w \<Longrightarrow> (\<And>x xs. w = MArr xs \<Longrightarrow> x \<in> set xs \<Longrightarrow> f x = g x) \<Longrightarrow> items_with f v = items_with g w"
  by (auto simp: items_with_def split: mval.split intro: res_map_cong)

definition pair_with :: "codec_env \<Rightarrow> (mval \<Rightarrow> codec_error + sval) \<Rightarrow> (mval \<Rightarrow> codec_error + sval) \<Rightarrow> mval \<Rightarrow> codec_error + sval \<times> sval" where
  "pair_with E f g x =
     (case x of
        MArr [k, v] \<Rightarrow> res_bind (f k) (\<lambda>k'. res_bind (g v) (\<lambda>v'. if py_hashable E k' then Inr (k', v') else Inl CTypeError))
      | MArr _ \<Rightarrow> Inl CValueError
      | _ \<Rightarrow> res_bind (iterate_other x) two_of)"

fun pair_other :: "sval \<Rightarrow> codec_error + sval \<times> sval" where
  "pair_other (SStr s) = two_of (map (\<lambda>c. SStr [c]) s)"
| "pair_other (SBytes s) = two_of (map (\<lambda>c. SInt (of_char c)) s)"
| "pair_other _ = Inl CTypeError"

definition pairs_with :: "codec_env \<Rightarrow> (mval \<Rightarrow> codec_error + sval) \<Rightarrow> (mval \<Rightarrow> codec_error + sval) \<Rightarrow> mval \<Rightarrow> codec_error + (sval \<times> sval) list" where
  "pairs_with E f g v = (case v of MArr xs \<Rightarrow> res_map (pair_with E f g) xs | _ \<Rightarrow> res_bind (iterate_other v) (res_map pair_other))"

lemma pair_with_cong:
  "x = y \<Longrightarrow> (\<And>k v. y = MArr [k, v] \<Longrightarrow> f k = f' k \<and> g v = g' v) \<Longrightarrow> pair_with E f g x = pair_with E f' g' y"
  by (auto simp: pair_with_def split: mval.split list.split)

lemma pairs_with_cong [fundef_cong]:
  assumes "v = w" and "\<And>xs k u. w = MArr xs \<Longrightarrow> MArr [k, u] \<in> set xs \<Longrightarrow> f k = f' k"
    and "\<And>xs k u. w = MArr xs \<Longrightarrow> MArr [k, u] \<in> set xs \<Longrightarrow> g u = g' u"
  shows "pairs_with E f g v = pairs_with E f' g' w"
proof (cases w)
  case (MArr xs)
  have "pair_with E f g x = pair_with E f' g' x" if "x \<in> set xs" for x
    using assms(2,3) [OF MArr] that by (intro pair_with_cong) auto
  then show ?thesis using MArr assms(1) by (auto simp: pairs_with_def intro: res_map_cong)
qed (simp_all add: assms(1) pairs_with_def)

abbreviation pairs_size :: "(mkey \<times> mval) list \<Rightarrow> nat" where
  "pairs_size kvs \<equiv> size_list (size_prod (\<lambda>_. 0) size) kvs"

lemma pair_size: "(k, v) \<in> set kvs \<Longrightarrow> size v < Suc (pairs_size kvs)"
  using size_pair_list [of k v kvs "\<lambda>_. 0" size] by simp

lemma entry_size: "entry kvs k = Inr v \<Longrightarrow> size v < Suc (pairs_size kvs)"
  by (auto simp: entry_def split: option.splits dest: pair_size map_of_SomeD)

lemma entry_item_size:
  assumes "entry kvs k = Inr (MArr xs)" and "x \<in> set xs"
  shows "size x < Suc (pairs_size kvs)"
  using entry_size [OF assms(1)] size_list_mem [OF assms(2)] by simp

lemma entry_pair_size:
  assumes "entry kvs k = Inr (MArr xs)" and "MArr [a, b] \<in> set xs"
  shows "size a < Suc (pairs_size kvs)" "size b < Suc (pairs_size kvs)"
  using entry_item_size [OF assms] by simp_all

lemma field_size:
  assumes "checked_fields ns (raw_fields kvs) = Inr raw" and "(n, v) \<in> set raw"
  shows "size v < Suc (pairs_size kvs)"
proof -
  have "map_of kvs (KStr ''fields'') = Some (MMap raw)"
    using assms by (auto simp: raw_fields_def checked_fields_def split: option.splits mval.splits if_splits)
  from pair_size [OF map_of_SomeD [OF this]] have "size (MMap raw) < Suc (pairs_size kvs)" .
  with pair_size [OF assms(2)] show ?thesis by simp
qed

function from_msgpack_safe :: "codec_env \<Rightarrow> mval \<Rightarrow> codec_error + sval" where
  "from_msgpack_safe E MNil = Inr SNone"
| "from_msgpack_safe E (MBool b) = Inr (SBool b)"
| "from_msgpack_safe E (MInt n) = Inr (SInt n)"
| "from_msgpack_safe E (MFloat x) = Inr (SFloat x)"
| "from_msgpack_safe E (MStr s) = Inr (SStr s)"
| "from_msgpack_safe E (MBin s) = Inr (SBytes s)"
| "from_msgpack_safe E (MArr xs) = res_bind (res_map (from_msgpack_safe E) xs) (\<lambda>ys. Inr (SList ys))"
| "from_msgpack_safe E (MMap kvs) =
     (case (case map_of kvs (KStr codec_marker) of None \<Rightarrow> MNil | Some t \<Rightarrow> t) of
        MNil \<Rightarrow>
          res_bind (res_map (\<lambda>(k, v). res_bind (from_msgpack_safe E v) (\<lambda>x. Inr (restored_key k, x))) kvs) (\<lambda>ys. Inr (SDict ys))
      | MStr kind \<Rightarrow>
          if kind = ''tuple''
          then res_bind (entry kvs ''items'') (\<lambda>v. res_bind (items_with (from_msgpack_safe E) v) (\<lambda>ys. Inr (STuple ys)))
          else if kind = ''set'' \<or> kind = ''frozenset''
          then res_bind (entry kvs ''items'') (\<lambda>v.
                 res_bind (items_with (\<lambda>x. hash_checked E (from_msgpack_safe E x)) v) (\<lambda>ys.
                   Inr (SSet (kind = ''frozenset'') (foldl set_add [] ys))))
          else if kind = ''deque''
          then res_bind (entry kvs ''items'') (\<lambda>v.
                 res_bind (items_with (from_msgpack_safe E) v) (bounded_deque (map_of kvs (KStr ''maxlen''))))
          else if kind = ''mapping''
          then res_bind (entry kvs ''items'') (\<lambda>v.
                 res_bind (pairs_with E (\<lambda>x. from_msgpack_safe E x) (\<lambda>x. from_msgpack_safe E x) v) (\<lambda>ys.
                   Inr (SDict (foldl put_same [] ys))))
          else if kind = ''decimal''
          then res_bind (entry kvs ''value'') (\<lambda>v. res_bind (ce_decimal E v) (\<lambda>t. Inr (SDecimal t)))
          else if kind = ''path'' then res_bind (entry kvs ''value'') path_of
          else if kind = ''enum''
          then res_bind (entry_type E kvs) (\<lambda>(m, q, c). res_bind (enum_lookup c) (\<lambda>f.
                 res_bind (entry kvs ''value'') (\<lambda>v. res_bind (from_msgpack_safe E v) (\<lambda>x.
                   case f x of None \<Rightarrow> Inl CValueError | Some y \<Rightarrow> Inr (SEnum m q False y)))))
          else if kind = ''dataclass''
          then res_bind (entry_type E kvs) (\<lambda>(m, q, c). res_bind (dataclass_fields c) (\<lambda>ns.
                 res_bind (checked_fields ns (raw_fields kvs)) (\<lambda>raw.
                   res_bind (res_map (\<lambda>(n, v). res_bind (from_msgpack_safe E v) (\<lambda>x. Inr (key_text n, x))) raw) (\<lambda>fs.
                     Inr (SData m q fs)))))
          else Inl CTypeError
      | _ \<Rightarrow> Inl CTypeError)"
  by pat_completeness auto

termination
  by (relation "measure (\<lambda>(E, v). size v)")
    (auto intro: size_list_mem pair_size entry_size entry_item_size entry_pair_size field_size)

end
