(* ===== verification/StateCodecProps.thy ===== *)
theory StateCodecProps
  imports StateCodec
begin

text \<open>
  Correctness of the state codec: which values are restored exactly, that decoding builds nothing but
  plain data and instances of public engine classes, and a kind of value that is encoded but can
  never be decoded.
\<close>

subsection \<open>What is restored exactly\<close>

fun all_differ :: "sval list \<Rightarrow> bool" where
  "all_differ [] = True"
| "all_differ (x # xs) = (list_all (\<lambda>y. \<not> py_same x y) xs \<and> all_differ xs)"

text \<open>A value that the codec is meant to keep: classes that can be resolved and have the fields the value
  has, plain enums, no key that is the marker, set elements and mapping keys that are hashable and
  pairwise different. A set is written with its elements in the order the encoder sorts them into.\<close>

function storable :: "codec_env \<Rightarrow> sval \<Rightarrow> bool" where
  "storable E SNone = True"
| "storable E (SBool b) = True"
| "storable E (SInt n) = True"
| "storable E (SFloat x) = True"
| "storable E (SStr s) = True"
| "storable E (SBytes s) = True"
| "storable E (SEnum m q mixin v) =
     (\<not> mixin \<and> storable E v
      \<and> (case resolve_type E (m @ '':'' @ q) of Inr (m', q', EnumClass f) \<Rightarrow> m' = m \<and> q' = q \<and> f v = Some v | _ \<Rightarrow> False))"
| "storable E (SDecimal t) = (ce_decimal E (MStr t) = Inr t)"
| "storable E (SPath t) = (path_str t = t)"
| "storable E (SData m q fs) =
     (list_all (\<lambda>(n, v). storable E v) fs
      \<and> (case resolve_type E (m @ '':'' @ q) of Inr (m', q', DataClass ns h) \<Rightarrow> m' = m \<and> q' = q \<and> map fst fs = ns | _ \<Rightarrow> False))"
| "storable E (SDict kvs) =
     (list_all (\<lambda>(k, v). storable E k \<and> storable E v) kvs
      \<and> (if list_all (\<lambda>(k, v). text_key k \<noteq> None) kvs then SStr codec_marker \<notin> set (map fst kvs)
         else list_all (py_hashable E) (map fst kvs) \<and> all_differ (map fst kvs)))"
| "storable E (SList xs) = list_all (storable E) xs"
| "storable E (STuple xs) = list_all (storable E) xs"
| "storable E (SSet frozen xs) =
     (list_all (storable E) xs \<and> list_all (py_hashable E) xs \<and> all_differ xs
      \<and> sorted (map (\<lambda>x. case to_msgpack_safe x of Inl e \<Rightarrow> [] | Inr y \<Rightarrow> py_repr y) xs))"
| "storable E (SDeque xs maxlen) =
     (list_all (storable E) xs \<and> (case maxlen of None \<Rightarrow> True | Some n \<Rightarrow> length xs \<le> n \<and> int n < 2 ^ 63))"
| "storable E (SNamespace fs) = False"
| "storable E (SObject item tolist callable attrs) = False"
  by pat_completeness auto

termination
  by (relation "measure (\<lambda>(E, v). size v)")
    (auto dest: size_pair_list [where g = size and f = "\<lambda>_. 0"] size_pair_list [where g = size and f = size] intro: size_list_mem)

definition roundtrips :: "codec_env \<Rightarrow> sval \<Rightarrow> bool" where
  "roundtrips E v \<longleftrightarrow> (\<exists>m. to_msgpack_safe v = Inr m \<and> from_msgpack_safe E m = Inr v)"

lemma foldl_set_add: "all_differ (acc @ xs) \<Longrightarrow> foldl set_add acc xs = acc @ xs"
proof (induction xs arbitrary: acc)
  case (Cons x xs)
  have "all_differ (acc @ x # xs) \<Longrightarrow> \<not> list_ex (\<lambda>y. py_same y x) acc" for acc
    by (induction acc) auto
  with Cons.prems have "set_add acc x = acc @ [x]" by (simp add: set_add_def)
  then show ?case using Cons.IH [of "acc @ [x]"] Cons.prems by simp
qed simp

lemma foldl_put_same: "all_differ (map fst (acc @ kvs)) \<Longrightarrow> foldl put_same acc kvs = acc @ kvs"
proof (induction kvs arbitrary: acc)
  case (Cons kv kvs)
  obtain k v where kv: "kv = (k, v)" by (rule prod.exhaust)
  have "put_same acc (k, v) = acc @ [(k, v)]" if "all_differ (map fst (acc @ (k, v) # kvs))" for acc
    using that by (induction acc) auto
  then have "put_same acc kv = acc @ [kv]" using Cons.prems by (simp add: kv)
  then show ?case using Cons.IH [of "acc @ [kv]"] Cons.prems by simp
qed simp

lemma entry_tagged [simp]:
  "k \<noteq> codec_marker \<Longrightarrow> entry ((KStr codec_marker, t) # kvs) k = entry kvs k"
  "entry ((KStr k, v) # kvs) k = Inr v"
  "k \<noteq> k' \<Longrightarrow> entry ((KStr k', v) # kvs) k = entry kvs k"
  by (simp_all add: entry_def)

lemmas tag_simps = raw_fields_def tagged_def entry_type_def class_path_def items_with_def pairs_with_def codec_marker_def entry_def

lemma map_res: "\<forall>x \<in> set xs. roundtrips E x \<Longrightarrow>
    \<exists>ys. res_map to_msgpack_safe xs = Inr ys \<and> res_map (from_msgpack_safe E) ys = Inr xs"
  by (rule res_map_inverse) (auto simp: roundtrips_def)

lemma map_res_hashed:
  assumes "\<forall>x \<in> set xs. roundtrips E x" and "list_all (py_hashable E) xs"
  shows "\<exists>ys. res_map to_msgpack_safe xs = Inr ys \<and> res_map (\<lambda>y. hash_checked E (from_msgpack_safe E y)) ys = Inr xs"
  using assms by (intro res_map_inverse) (force simp: roundtrips_def hash_checked_def list_all_iff)

lemma encoded_sorted:
  assumes "res_map to_msgpack_safe xs = Inr ys" and "sorted (map (\<lambda>x. case to_msgpack_safe x of Inl e \<Rightarrow> [] | Inr y \<Rightarrow> py_repr y) xs)"
  shows "sort_key py_repr ys = ys"
proof -
  have "map py_repr ys = map (\<lambda>x. case to_msgpack_safe x of Inl e \<Rightarrow> [] | Inr y \<Rightarrow> py_repr y) xs"
    using res_map_Inr [OF assms(1)] by (induction rule: list_all2_induct) auto
  with assms(2) show ?thesis by (simp add: sort_key_id_if_sorted)
qed

lemma partition_at_Some: "partition_at c s = Some (a, b) \<Longrightarrow> s = a @ c # b \<and> c \<notin> set a"
  by (induction s arbitrary: a) (auto split: if_splits)

lemma resolve_parts_public: "resolve_parts E m seen ps = Inr c \<Longrightarrow> list_all (\<lambda>p. \<not> starts_with ''_'' p) ps"
  by (induction E m seen ps rule: resolve_parts.induct) (auto split: if_splits)

lemma resolve_allowed:
  assumes "resolve_type E path = Inr (m, q, c)"
  shows "allowed_module m" "list_all (\<lambda>p. \<not> starts_with ''_'' p) (split_at (CHR ''.'') q)"
  using assms by (auto simp: resolve_type_def res_bind_Inr_iff resolve_parts_public split: option.splits if_splits)

lemma fields_roundtrip:
  assumes "\<forall>(n, v) \<in> set fs. roundtrips E v"
  shows "\<exists>ys. res_map (\<lambda>(n, v). res_bind (to_msgpack_safe v) (\<lambda>x. Inr (KStr n, x))) fs = Inr ys
    \<and> res_map (\<lambda>(n, v). res_bind (from_msgpack_safe E v) (\<lambda>x. Inr (key_text n, x))) ys = Inr fs"
  using assms by (intro res_map_inverse) (force simp: roundtrips_def)

lemma fields_keys:
  "res_map (\<lambda>(n, v). res_bind (to_msgpack_safe v) (\<lambda>x. Inr (KStr n, x))) fs = Inr ys \<Longrightarrow> map fst ys = map KStr (map fst fs)"
  by (induction fs arbitrary: ys) (auto simp: res_bind_Inr_iff)

lemma text_key_storable: "storable E k \<Longrightarrow> text_key k = Some k' \<Longrightarrow> restored_key k' = k \<and> (k' = KStr s \<longrightarrow> k = SStr s)"
  by (cases k rule: text_key.cases) auto

lemma text_dict_roundtrip:
  assumes "\<forall>(k, v) \<in> set kvs. storable E k \<and> text_key k \<noteq> None \<and> roundtrips E v"
  shows "\<exists>ys. res_map (\<lambda>(k, v). res_bind (to_msgpack_safe v) (\<lambda>x. Inr (the (text_key k), x))) kvs = Inr ys
    \<and> res_map (\<lambda>(k, v). res_bind (from_msgpack_safe E v) (\<lambda>x. Inr (restored_key k, x))) ys = Inr kvs"
  using assms by (intro res_map_inverse) (force simp: roundtrips_def dest: text_key_storable)

lemma text_dict_keys:
  "res_map (\<lambda>(k, v). res_bind (to_msgpack_safe v) (\<lambda>x. Inr (the (text_key k), x))) kvs = Inr ys
   \<Longrightarrow> map fst ys = map (the \<circ> text_key \<circ> fst) kvs"
  by (induction kvs arbitrary: ys) (auto simp: res_bind_Inr_iff)

lemma mapping_roundtrip:
  assumes "\<forall>(k, v) \<in> set kvs. roundtrips E k \<and> roundtrips E v \<and> py_hashable E k"
  shows "\<exists>ys. res_map (\<lambda>(k, v). res_bind (to_msgpack_safe k) (\<lambda>y. res_bind (to_msgpack_safe v) (\<lambda>x. Inr (MArr [y, x])))) kvs = Inr ys
    \<and> res_map (pair_with E (from_msgpack_safe E) (from_msgpack_safe E)) ys = Inr kvs"
  using assms by (intro res_map_inverse) (force simp: roundtrips_def pair_with_def)

lemma roundtrip_storable: "storable E v \<Longrightarrow> roundtrips E v"
proof (induction E v rule: storable.induct)
  case (12 E xs)
  with map_res [of xs E] show ?case by (auto simp: roundtrips_def list_all_iff)
next
  case (13 E xs)
  with map_res [of xs E] show ?case by (auto simp: roundtrips_def list_all_iff tag_simps)
next
  case (7 E m q mixin v)
  then show ?case 
    by (auto simp: roundtrips_def tag_simps enum_lookup_def split: sum.splits class_info.splits)
next
  case (8 E t)
  then show ?case by (auto simp: roundtrips_def tag_simps)
next
  case (9 E t)
  then show ?case by (auto simp: roundtrips_def tag_simps path_of_def)
next
  case (15 E xs maxlen)
  with map_res [of xs E] show ?case
    by (auto simp: roundtrips_def list_all_iff tag_simps bounded_deque_def split: option.splits)
next
  case (14 E frozen xs)
  then obtain ys where ys: "res_map to_msgpack_safe xs = Inr ys" "res_map (\<lambda>y. hash_checked E (from_msgpack_safe E y)) ys = Inr xs"
    using map_res_hashed [of xs E] by (auto simp: list_all_iff)
  moreover have "sort_key py_repr ys = ys" using 14 encoded_sorted [OF ys(1)] by simp
  moreover have "foldl set_add [] xs = xs" using 14 foldl_set_add [of "[]" xs] by simp
  ultimately show ?case by (auto simp: roundtrips_def tag_simps)
next
  case (10 E m q fs)
  then obtain h where c: "resolve_type E (m @ '':'' @ q) = Inr (m, q, DataClass (map fst fs) h)"
    by (auto split: sum.splits class_info.splits)
  obtain ys where ys: "res_map (\<lambda>(n, v). res_bind (to_msgpack_safe v) (\<lambda>x. Inr (KStr n, x))) fs = Inr ys"
      "res_map (\<lambda>(n, v). res_bind (from_msgpack_safe E v) (\<lambda>x. Inr (key_text n, x))) ys = Inr fs"
    using 10 fields_roundtrip [of fs E] by (fastforce simp: list_all_iff)
  have "checked_fields (map fst fs) (MMap ys) = Inr ys"
    using arg_cong [OF fields_keys [OF ys(1)], of set] by (simp add: checked_fields_def image_image)
  then show ?case using ys c resolve_allowed(1) [OF c]
    by (simp add: roundtrips_def tag_simps dataclass_fields_def)
next
  case (11 E kvs)
  then have rt: "\<forall>(k, v) \<in> set kvs. storable E k \<and> roundtrips E k \<and> roundtrips E v" by (fastforce simp: list_all_iff)
  show ?case
  proof (cases "list_all (\<lambda>(k, v). text_key k \<noteq> None) kvs")
    case True
    with rt obtain ys where ys: "res_map (\<lambda>(k, v). res_bind (to_msgpack_safe v) (\<lambda>x. Inr (the (text_key k), x))) kvs = Inr ys"
        "res_map (\<lambda>(k, v). res_bind (from_msgpack_safe E v) (\<lambda>x. Inr (restored_key k, x))) ys = Inr kvs"
      using text_dict_roundtrip [of kvs E] by (fastforce simp: list_all_iff)
    have "the (text_key k) \<noteq> KStr codec_marker" if kv: "(k, v) \<in> set kvs" for k v
    proof
      assume eq: "the (text_key k) = KStr codec_marker"
      from True kv have "text_key k = Some (the (text_key k))" by (auto simp: list_all_iff)
      with text_key_storable [of E k _ codec_marker] eq rt kv have "k = SStr codec_marker" by auto
      moreover have "SStr codec_marker \<notin> set (map fst kvs)" using "11.prems" True by simp
      ultimately show False using kv by force
    qed
    then have "KStr codec_marker \<notin> set (map fst ys)" unfolding text_dict_keys [OF ys(1)] by (clarsimp simp: image_iff) metis
    then have "map_of ys (KStr codec_marker) = None" by (simp add: map_of_eq_None_iff)
    with ys True show ?thesis by (auto simp: roundtrips_def)
  next
    case False
    with 11 have k: "list_all (py_hashable E) (map fst kvs)" "all_differ (map fst kvs)" by simp_all
    with rt obtain ys where ys: "res_map (\<lambda>(k, v). res_bind (to_msgpack_safe k) (\<lambda>y. res_bind (to_msgpack_safe v) (\<lambda>x. Inr (MArr [y, x])))) kvs = Inr ys"
        "res_map (pair_with E (from_msgpack_safe E) (from_msgpack_safe E)) ys = Inr kvs"
      using mapping_roundtrip [of kvs E] by (fastforce simp: list_all_iff)
    with False k foldl_put_same [of "[]" kvs] show ?thesis by (auto simp: roundtrips_def tag_simps)
  qed
qed (auto simp: roundtrips_def)


subsection \<open>What can be restored at all\<close>

definition public_class :: "string \<Rightarrow> string \<Rightarrow> bool" where
  "public_class m q \<longleftrightarrow> allowed_module m \<and> list_all (\<lambda>p. \<not> starts_with ''_'' p) (split_at (CHR ''.'') q)"

function inert :: "sval \<Rightarrow> bool" where
  "inert SNone = True"
| "inert (SBool b) = True"
| "inert (SInt n) = True"
| "inert (SFloat x) = True"
| "inert (SStr s) = True"
| "inert (SBytes s) = True"
| "inert (SDecimal t) = True"
| "inert (SPath t) = True"
| "inert (SEnum m q mixin v) = public_class m q"
| "inert (SData m q fs) = (public_class m q \<and> list_all (\<lambda>(n, v). inert v) fs)"
| "inert (SDict kvs) = list_all (\<lambda>(k, v). inert k \<and> inert v) kvs"
| "inert (SList xs) = list_all inert xs"
| "inert (STuple xs) = list_all inert xs"
| "inert (SSet frozen xs) = list_all inert xs"
| "inert (SDeque xs maxlen) = list_all inert xs"
| "inert (SNamespace fs) = False"
| "inert (SObject item tolist callable attrs) = False"
  by pat_completeness auto

termination
  by (relation "measure size")
    (auto dest: size_pair_list [where g = size and f = "\<lambda>_. 0"] size_pair_list [where g = size and f = size] intro: size_list_mem)

lemma restored_key_inert [simp]: "inert (restored_key k)"
  by (cases k) auto

lemma iterate_other_inert: "iterate_other v = Inr ys \<Longrightarrow> list_all inert ys"
  by (cases v) (auto simp: list_all_iff)

lemma items_inert:
  assumes "items_with f v = Inr ys" and "\<And>x xs y. v = MArr xs \<Longrightarrow> x \<in> set xs \<Longrightarrow> f x = Inr y \<Longrightarrow> inert y"
  shows "list_all inert ys"
proof (cases "\<exists>xs. v = MArr xs")
  case True
  with assms show ?thesis by (auto simp: items_with_def intro: res_map_all)
next
  case False
  then have "iterate_other v = Inr ys" using assms(1) by (cases v) (auto simp: items_with_def)
  then show ?thesis by (rule iterate_other_inert)
qed

abbreviation inert_pair :: "sval \<times> sval \<Rightarrow> bool" where
  "inert_pair kv \<equiv> inert (fst kv) \<and> inert (snd kv)"

lemma two_of_inert: "two_of xs = Inr kv \<Longrightarrow> list_all inert xs \<Longrightarrow> inert_pair kv"
  by (auto simp: two_of_def split: list.splits)

lemma pair_other_inert: "pair_other x = Inr kv \<Longrightarrow> inert_pair kv"
  by (cases x) (auto dest!: two_of_inert simp: list_all_iff)

lemma pair_with_inert:
  assumes "pair_with E f g x = Inr kv" and "\<And>k v y. x = MArr [k, v] \<Longrightarrow> f k = Inr y \<Longrightarrow> inert y"
    and "\<And>k v y. x = MArr [k, v] \<Longrightarrow> g v = Inr y \<Longrightarrow> inert y"
  shows "inert_pair kv"
proof (cases "\<exists>xs. x = MArr xs")
  case True
  then show ?thesis using assms by (auto simp: pair_with_def res_bind_Inr_iff split: list.splits if_splits)
next
  case False
  then have "res_bind (iterate_other x) two_of = Inr kv" using assms(1) by (cases x) (auto simp: pair_with_def)
  then show ?thesis by (auto simp: res_bind_Inr_iff dest: two_of_inert iterate_other_inert)
qed

lemma pairs_inert:
  assumes "pairs_with E f g v = Inr ys"
    and "\<And>xs k u y. v = MArr xs \<Longrightarrow> MArr [k, u] \<in> set xs \<Longrightarrow> f k = Inr y \<Longrightarrow> inert y"
    and "\<And>xs k u y. v = MArr xs \<Longrightarrow> MArr [k, u] \<in> set xs \<Longrightarrow> g u = Inr y \<Longrightarrow> inert y"
  shows "list_all inert_pair ys"
proof (cases "\<exists>xs. v = MArr xs")
  case True
  then obtain xs where MArr: "v = MArr xs" by blast
  show ?thesis
  proof (rule res_map_all)
    show "res_map (pair_with E f g) xs = Inr ys" using assms(1) MArr by (simp add: pairs_with_def)
    show "inert_pair kv" if "x \<in> set xs" "pair_with E f g x = Inr kv" for x kv
      using assms(2,3) [OF MArr] that by (intro pair_with_inert [OF that(2)]) auto
  qed
next
  case False
  then have "res_bind (iterate_other v) (res_map pair_other) = Inr ys" using assms(1) by (cases v) (auto simp: pairs_with_def)
  then obtain zs where "res_map pair_other zs = Inr ys" by (auto simp: res_bind_Inr_iff)
  then show ?thesis by (rule res_map_all) (rule pair_other_inert)
qed

lemma foldl_set_add_inert: "list_all inert acc \<Longrightarrow> list_all inert xs \<Longrightarrow> list_all inert (foldl set_add acc xs)"
  by (induction xs arbitrary: acc) (auto simp: set_add_def)

lemma put_same_inert: "list_all inert_pair acc \<Longrightarrow> inert_pair kv \<Longrightarrow> list_all inert_pair (put_same acc kv)"
  by (induction acc kv rule: put_same.induct) auto

lemma foldl_put_same_inert: "list_all inert_pair acc \<Longrightarrow> list_all inert_pair xs \<Longrightarrow> list_all inert_pair (foldl put_same acc xs)"
  by (induction xs arbitrary: acc) (auto simp: put_same_inert)

lemma bounded_deque_inert: "bounded_deque n xs = Inr v \<Longrightarrow> list_all inert xs \<Longrightarrow> inert v"
  by (auto simp: bounded_deque_def Let_def list_all_iff split: option.splits mval.splits if_splits dest!: set_mp [OF set_drop_subset])

lemma entry_type_public:
  assumes "entry_type E kvs = Inr (m, q, c)"
  shows "public_class m q"
proof -
  from assms obtain v where "(case v of MStr path \<Rightarrow> resolve_type E path | MBin _ \<Rightarrow> Inl CTypeError | _ \<Rightarrow> Inl CAttributeError) = Inr (m, q, c)"
    unfolding entry_type_def res_bind_Inr_iff by blast
  then show ?thesis by (cases v) (auto simp: public_class_def dest: resolve_allowed)
qed


lemma decode_map_inert:
  assumes IH: "\<And>x v. size x < Suc (pairs_size kvs) \<Longrightarrow> from_msgpack_safe E x = Inr v \<Longrightarrow> inert v"
    and ok: "from_msgpack_safe E (MMap kvs) = Inr v"
  shows "inert v"
proof -
  have items: "list_all inert ys" if "entry kvs k = Inr w" "items_with (from_msgpack_safe E) w = Inr ys" for k w ys
    using that by (auto intro!: items_inert [OF that(2)] IH entry_item_size)
  have hashed: "list_all inert ys" if "entry kvs k = Inr w" "items_with (\<lambda>x. hash_checked E (from_msgpack_safe E x)) w = Inr ys" for k w ys
    using that by (auto intro!: items_inert [OF that(2)] IH entry_item_size simp: hash_checked_def res_bind_Inr_iff split: if_splits)
  have pairs: "list_all inert_pair ys"
    if "entry kvs k = Inr w" "pairs_with E (from_msgpack_safe E) (from_msgpack_safe E) w = Inr ys" for k w ys
    proof (rule pairs_inert [OF that(2)])
    show "inert y" if "w = MArr xs" "MArr [a, u] \<in> set xs" "from_msgpack_safe E a = Inr y" for xs a u y
      using IH entry_pair_size(1) [of kvs k xs a u] that \<open>entry kvs k = Inr w\<close> by blast
    show "inert y" if "w = MArr xs" "MArr [a, u] \<in> set xs" "from_msgpack_safe E u = Inr y" for xs a u y
      using IH entry_pair_size(2) [of kvs k xs a u] that \<open>entry kvs k = Inr w\<close> by blast
  qed
  have kv: "list_all (\<lambda>(k, x). inert k \<and> inert x) ys"
    if "res_map (\<lambda>(k, x). res_bind (from_msgpack_safe E x) (\<lambda>y. Inr (restored_key k, y))) kvs = Inr ys" for ys
    by (rule res_map_all [OF that]) (auto simp: res_bind_Inr_iff intro: IH pair_size)
  have data: "list_all (\<lambda>(n, x). inert x) fs"
    if "checked_fields ns (raw_fields kvs) = Inr raw"
      "res_map (\<lambda>(n, x). res_bind (from_msgpack_safe E x) (\<lambda>y. Inr (key_text n, y))) raw = Inr fs" for ns raw fs
    by (rule res_map_all [OF that(2)]) (auto simp: res_bind_Inr_iff intro: IH field_size [OF that(1)])
  have sets: "list_all inert (foldl set_add [] ys)"
    if "entry kvs k = Inr w" "items_with (\<lambda>x. hash_checked E (from_msgpack_safe E x)) w = Inr ys" for k w ys
    using foldl_set_add_inert [of "[]"] hashed [OF that] by simp
  have dicts: "list_all (\<lambda>(k, x). inert k \<and> inert x) (foldl put_same [] ys)"
    if "entry kvs k = Inr w" "pairs_with E (from_msgpack_safe E) (from_msgpack_safe E) w = Inr ys" for k w ys
    using foldl_put_same_inert [of "[]"] pairs [OF that] by (simp add: case_prod_beta')
  have deques: "inert v" if "entry kvs k = Inr w" "items_with (from_msgpack_safe E) w = Inr ys" "bounded_deque n ys = Inr v" for k w n ys
    using bounded_deque_inert [OF that(3)] items [OF that(1,2)] by simp
  obtain t where t: "(case map_of kvs (KStr codec_marker) of None \<Rightarrow> MNil | Some t \<Rightarrow> t) = t" by blast
  show ?thesis
  proof (cases t)
    case MNil
    then show ?thesis using ok t by (auto simp: res_bind_Inr_iff intro: kv)
  next
    case (MStr kind)
    then show ?thesis using ok t 
      by (auto simp: res_bind_Inr_iff path_of_def split: if_splits option.splits mval.splits
          intro: items sets deques dicts entry_type_public data)
  qed (use ok t in auto)
qed

lemma decode_inert: "from_msgpack_safe E m = Inr v \<Longrightarrow> inert v"
proof (induction m arbitrary: v rule: measure_induct_rule [where f = size])
  case (less m)
  show ?case
  proof (cases m)
    case (MArr xs)
    with less.prems obtain ys where "res_map (from_msgpack_safe E) xs = Inr ys" "v = SList ys" by (auto simp: res_bind_Inr_iff)
    moreover from this(1) have "list_all inert ys" by (rule res_map_all) (use less.IH MArr in \<open>auto intro: size_list_mem\<close>)
    ultimately show ?thesis by simp
  next
    case (MMap kvs)
    with less.prems less.IH show ?thesis by (intro decode_map_inert [of kvs E v]) auto
  qed (use less.prems in auto)
qed


subsection \<open>Properties\<close>

text \<open>C31: a resume state the codec is meant to keep is restored exactly: encoding succeeds, and decoding
  gives the same value, with tuples, sets, deques, mappings with any hashable keys, decimals, paths,
  enum members and engine dataclasses at any depth.\<close>

theorem state_roundtrip:
  assumes "storable E v"
  shows "res_bind (to_msgpack_safe v) (from_msgpack_safe E) = Inr v"
  using roundtrip_storable [OF assms] by (auto simp: roundtrips_def)



subsection \<open>Examples\<close>

definition sample_classes :: codec_env where
  "sample_classes = \<lparr>ce_import = (\<lambda>m. m = ''backtest_engine.models''), ce_attr = (\<lambda>m ps. ps \<in> {[''Side''], [''Trade'']}),
     ce_class = (\<lambda>m ps. if ps = [''Side''] then EnumClass (\<lambda>v. if v = SStr ''long'' then Some v else None)
       else if ps = [''Trade''] then DataClass [''qty'', ''side''] False else NotClass),
     ce_decimal = (\<lambda>v. case v of MStr t \<Rightarrow> Inr t | _ \<Rightarrow> Inl CDecimalError)\<rparr>"

definition sample_trade :: sval where
  "sample_trade = SData ''backtest_engine.models'' ''Trade''
     [(''qty'', SDecimal ''1.50''), (''side'', SEnum ''backtest_engine.models'' ''Side'' False (SStr ''long''))]"

definition sample_value :: sval where
  "sample_value = SDict
     [(SStr ''trades'', SList [sample_trade]), (SStr ''seen'', SSet False [SInt 10, SInt 2]),
      (SBytes ''raw'', STuple [SNone, SBool True, SPath ''/tmp/a'']), (SStr ''recent'', SDeque [SInt 4, SInt 5] (Some 3)),
      (SStr ''by_bar'', SDict [(SInt 7, SStr ''x''), (STuple [SInt 1, SStr ''a''], SNone)])]"

theorem state_roundtrip_witness:
  "storable sample_classes sample_value \<and> res_bind (to_msgpack_safe sample_value) (from_msgpack_safe sample_classes) = Inr sample_value"
proof -
  have "storable sample_classes sample_value" by code_simp
  with state_roundtrip [OF this] show ?thesis by simp
qed

definition sample_packed :: mval where
  "sample_packed = tagged ''tuple'' [(''items'', MArr [MInt 1, tagged ''dataclass''
     [(''type'', MStr ''backtest_engine.models:Trade''), (''fields'', MMap [(KStr ''side'', MNil), (KStr ''qty'', MInt 3)])]])]"



end
